(* ===== verification/Ugreen_Prelude.thy ===== *)
theory Ugreen_Prelude
  imports Main "HOL-Library.Word" "HOL-Library.State_Monad" "HOL-Library.Code_Target_Nat"
begin

text \<open>
  Shared vocabulary of the development: the widths of the C integer types, the
  \<^verbatim>\<open>errno\<close> values the sources return (negated) as result codes, the result type
  of a fallible C function, and a small weakest-precondition calculus for the
  state monad in which every function that talks to the operating system is
  written.  A C function that returns \<^verbatim>\<open>0\<close> or \<^verbatim>\<open>-errno\<close> and fills an output
  parameter is modelled by a result of type \<open>errno + 'a\<close>: \<open>Inl e\<close> is
  \<^verbatim>\<open>return -e\<close>, \<open>Inr x\<close> is \<^verbatim>\<open>return 0\<close> with the output \<open>x\<close>.
  The human-readable text the sources put into their \<^verbatim>\<open>char *error\<close> buffers is not
  modelled.
\<close>

named_theorems wp_simps \<open>equations that compute weakest preconditions\<close>
named_theorems wp_intros \<open>backward rules for weakest preconditions, for any answer of the machine\<close>
named_theorems emits_intros \<open>rules for the events a computation may append\<close>

section \<open>Machine types\<close>

type_synonym u8 = "8 word"
type_synonym u16 = "16 word"
type_synonym u32 = "32 word"
type_synonym u64 = "64 word"

text \<open>The \<^verbatim>\<open>errno\<close> values the sources name; any other value is \<open>E_other\<close>.\<close>

datatype errno =
    EPERM | ENOENT | ESRCH | EINTR | EIO | E2BIG | EACCES | EBUSY | EEXIST | ENODEV
  | ENOTDIR | EINVAL | ERANGE | ENAMETOOLONG | ENODATA | EOVERFLOW | EBADMSG | ENOTSUP
  | EUCLEAN | ESTALE | ENOMEM | EAGAIN | EPROTO | EPIPE | ECONNRESET | ECONNREFUSED | ETIMEDOUT
  | ENOTCONN | EINPROGRESS | E_other nat

text \<open>On Linux \<^verbatim>\<open>EOPNOTSUPP\<close> and \<^verbatim>\<open>ENOTSUP\<close> are the same number.\<close>

abbreviation EOPNOTSUPP :: errno where
  "EOPNOTSUPP \<equiv> ENOTSUP"

text \<open>Likewise \<^verbatim>\<open>EWOULDBLOCK\<close> and \<^verbatim>\<open>EAGAIN\<close>.\<close>

abbreviation EWOULDBLOCK :: errno where
  "EWOULDBLOCK \<equiv> EAGAIN"

section \<open>The state monad: sequencing with early return\<close>

abbreviation ret :: "'a \<Rightarrow> ('s, 'a) state" where
  "ret \<equiv> State_Monad.return"

abbreviation ok :: "'a \<Rightarrow> ('s, 'e + 'a) state" where
  "ok x \<equiv> State_Monad.return (Inr x)"

abbreviation fail :: "'e \<Rightarrow> ('s, 'e + 'a) state" where
  "fail e \<equiv> State_Monad.return (Inl e)"

text \<open>\<^verbatim>\<open>result = m(...); if (result != 0) return result;\<close> and then the rest.\<close>

definition bindE :: "('s, 'e + 'a) state \<Rightarrow> ('a \<Rightarrow> ('s, 'e + 'b) state) \<Rightarrow> ('s, 'e + 'b) state" where
  "bindE m f = do { r \<leftarrow> m; (case r of Inl e \<Rightarrow> fail e | Inr x \<Rightarrow> f x) }"

lemma run_state_bindE [simp]:
  "run_state (bindE m f) h =
     (case run_state m h of (r, h') \<Rightarrow>
        (case r of Inl e \<Rightarrow> (Inl e, h') | Inr x \<Rightarrow> run_state (f x) h'))"
  by (auto simp: bindE_def split: prod.splits sum.splits)

lemma bindE_ret: "bindE (ok x) f = f x" "bindE (fail e) f = fail e"
  by (simp_all add: bindE_def)

text \<open>
  Functions that also change a structure their caller holds return the new structure beside the result,
  on error paths too.  \<open>thenC\<close> is \<open>bindE\<close> for them; \<open>tryC\<close> calls a function that leaves the
  structure \<open>c\<close> alone.
\<close>

definition thenC :: "('s, ('e + 'a) \<times> 'c) state \<Rightarrow> ('a \<Rightarrow> 'c \<Rightarrow> ('s, ('e + 'b) \<times> 'c) state) \<Rightarrow> ('s, ('e + 'b) \<times> 'c) state" where
  "thenC m f = do { (r, c) \<leftarrow> m; (case r of Inl e \<Rightarrow> ret (Inl e, c) | Inr x \<Rightarrow> f x c) }"

definition tryC :: "('s, 'e + 'a) state \<Rightarrow> 'c \<Rightarrow> ('a \<Rightarrow> ('s, ('e + 'b) \<times> 'c) state) \<Rightarrow> ('s, ('e + 'b) \<times> 'c) state" where
  "tryC m c f = do { r \<leftarrow> m; (case r of Inl e \<Rightarrow> ret (Inl e, c) | Inr x \<Rightarrow> f x) }"

lemma run_state_thenC [simp]:
  "run_state (thenC m f) h =
     (case run_state m h of ((r, c), h') \<Rightarrow>
        (case r of Inl e \<Rightarrow> ((Inl e, c), h') | Inr x \<Rightarrow> run_state (f x c) h'))"
  by (auto simp: thenC_def split: prod.splits sum.splits)

lemma thenC_return [simp]: "thenC (ret (Inr x, c)) f = f x c" "thenC (ret (Inl e, c)) f = ret (Inl e, c)"
  by (simp_all add: thenC_def)

lemma run_state_tryC [simp]:
  "run_state (tryC m c f) h =
     (case run_state m h of (r, h') \<Rightarrow>
        (case r of Inl e \<Rightarrow> ((Inl e, c), h') | Inr x \<Rightarrow> run_state (f x) h'))"
  by (auto simp: tryC_def split: prod.splits sum.splits)

section \<open>Weakest preconditions\<close>

definition wp :: "('s, 'a) state \<Rightarrow> ('a \<Rightarrow> 's \<Rightarrow> bool) \<Rightarrow> 's \<Rightarrow> bool" where
  "wp m Q h = (case run_state m h of (a, h') \<Rightarrow> Q a h')"

lemma wp_return [wp_simps]: "wp (State_Monad.return a) Q = Q a"
  by (rule ext) (simp add: wp_def)

lemma wp_bind [wp_simps]: "wp (State_Monad.bind m f) Q = wp m (\<lambda>a. wp (f a) Q)"
  by (rule ext) (simp add: wp_def split: prod.splits)

lemma wp_bindE [wp_simps]:
  "wp (bindE m f) Q h = wp m (\<lambda>r h'. case r of Inl e \<Rightarrow> Q (Inl e) h' | Inr x \<Rightarrow> wp (f x) Q h') h"
  by (auto simp: wp_def split: prod.splits sum.splits)

lemma wp_if [wp_simps]:
  "wp (if b then m else n) Q h = (if b then wp m Q h else wp n Q h)"
  by simp

lemma wp_case_sum [wp_simps]:
  "wp (case x of Inl a \<Rightarrow> f a | Inr b \<Rightarrow> g b) Q h =
     (case x of Inl a \<Rightarrow> wp (f a) Q h | Inr b \<Rightarrow> wp (g b) Q h)"
  by (simp split: sum.splits)

lemma wp_case_option [wp_simps]:
  "wp (case x of None \<Rightarrow> m | Some b \<Rightarrow> g b) Q h =
     (case x of None \<Rightarrow> wp m Q h | Some b \<Rightarrow> wp (g b) Q h)"
  by (simp split: option.splits)

lemma wp_case_prod [wp_simps]:
  "wp (case x of (a, b) \<Rightarrow> f a b) Q h = (case x of (a, b) \<Rightarrow> wp (f a b) Q h)"
  by (simp split: prod.splits)

lemma wp_Let [wp_simps]: "wp (let x = t in f x) Q h = (let x = t in wp (f x) Q h)"
  by (simp add: Let_def)

lemma wp_mono: "wp m Q h \<Longrightarrow> (\<And>a h'. Q a h' \<Longrightarrow> Q' a h') \<Longrightarrow> wp m Q' h"
  by (auto simp: wp_def split: prod.splits)

lemma wp_conj: "wp m Q h \<Longrightarrow> wp m R h \<Longrightarrow> wp m (\<lambda>a h'. Q a h' \<and> R a h') h"
  by (auto simp: wp_def split: prod.splits)

lemma wp_True [simp]: "wp m (\<lambda>_ _. True) h"
  by (auto simp: wp_def split: prod.splits)

lemma wp_run: "run_state m h = (a, h') \<Longrightarrow> wp m Q h \<Longrightarrow> Q a h'"
  by (simp add: wp_def)

lemma wpI: "(\<And>a h'. run_state m h = (a, h') \<Longrightarrow> Q a h') \<Longrightarrow> wp m Q h"
  by (auto simp: wp_def split: prod.splits)

text \<open>A step whose result and events do not matter.\<close>

lemma wp_bindE_any: "(\<And>e h. Q (Inl e) h) \<Longrightarrow> (\<And>x h. wp (f x) Q h) \<Longrightarrow> wp (bindE m f) Q h"
  by (simp add: wp_bindE, rule wp_mono [OF wp_True]) (simp split: sum.split)

text \<open>
  The same calculus as backward rules.  They leave one goal per path through the program and
  generalise over the answers of the machine, so the histories in those goals stay small.
\<close>

lemma wp_returnI [wp_intros]: "Q a h \<Longrightarrow> wp (State_Monad.return a) Q h"
  by (simp add: wp_simps)

lemma wp_bindI [wp_intros]: "wp m (\<lambda>a. wp (f a) Q) h \<Longrightarrow> wp (State_Monad.bind m f) Q h"
  by (simp add: wp_simps)

lemma wp_bindEI [wp_intros]:
  "wp m (\<lambda>r h'. case r of Inl e \<Rightarrow> Q (Inl e) h' | Inr x \<Rightarrow> wp (f x) Q h') h \<Longrightarrow> wp (bindE m f) Q h"
  by (simp add: wp_simps)

lemma wp_ifI [wp_intros]:
  "(b \<Longrightarrow> wp m Q h) \<Longrightarrow> (\<not> b \<Longrightarrow> wp n Q h) \<Longrightarrow> wp (if b then m else n) Q h"
  by simp

lemma wp_sumI [wp_intros]:
  "(\<And>a. x = Inl a \<Longrightarrow> wp (f a) Q h) \<Longrightarrow> (\<And>b. x = Inr b \<Longrightarrow> wp (g b) Q h) \<Longrightarrow>
   wp (case x of Inl a \<Rightarrow> f a | Inr b \<Rightarrow> g b) Q h"
  by (cases x) auto

lemma wp_optionI [wp_intros]:
  "(x = None \<Longrightarrow> wp m Q h) \<Longrightarrow> (\<And>b. x = Some b \<Longrightarrow> wp (g b) Q h) \<Longrightarrow>
   wp (case x of None \<Rightarrow> m | Some b \<Rightarrow> g b) Q h"
  by (cases x) auto

lemma wp_prodI [wp_intros]:
  "(\<And>a b. x = (a, b) \<Longrightarrow> wp (f a b) Q h) \<Longrightarrow> wp (case x of (a, b) \<Rightarrow> f a b) Q h"
  by (cases x) auto

lemma wp_LetI [wp_intros]: "wp (f t) Q h \<Longrightarrow> wp (let x = t in f x) Q h"
  by (simp add: Let_def)

lemma wp_result_sumI [wp_intros]:
  "(\<And>a. x = Inl a \<Longrightarrow> P a) \<Longrightarrow> (\<And>b. x = Inr b \<Longrightarrow> R b) \<Longrightarrow>
   (case x of Inl a \<Rightarrow> P a | Inr b \<Rightarrow> R b)"
  by (cases x) auto

section \<open>What a computation may append to the history\<close>

text \<open>
  \<open>appends P m\<close>: running \<open>m\<close> only appends to the history, and the appended segment satisfies
  \<open>P\<close>.  For a property of segments that the empty segment has and that concatenation keeps
  (the locale \<open>segments\<close>), it composes along the structure of the program.
\<close>

definition appends :: "('e list \<Rightarrow> bool) \<Rightarrow> ('e list, 'a) state \<Rightarrow> bool" where
  "appends P m \<longleftrightarrow> (\<forall>h. \<exists>es. snd (run_state m h) = h @ es \<and> P es)"

fun each_ok :: "('x \<Rightarrow> ('s, 'e + 'a) state) \<Rightarrow> 'x list \<Rightarrow> ('s, 'e + 'a list) state" where
  "each_ok f [] = ok []"
| "each_ok f (x # xs) = bindE (f x) (\<lambda>y. bindE (each_ok f xs) (\<lambda>ys. ok (y # ys)))"

fun each :: "('x \<Rightarrow> ('s, 'a) state) \<Rightarrow> 'x list \<Rightarrow> ('s, 'a list) state" where
  "each f [] = ret []"
| "each f (x # xs) = do { y \<leftarrow> f x; ys \<leftarrow> each f xs; ret (y # ys) }"

text \<open>
  \<open>each_ok\<close> is \<^verbatim>\<open>for (i = 0; i < n; ++i) { result = f(&xs[i]); if (result != 0) return result; }\<close>,
  \<open>each\<close> the same loop without an error exit.
\<close>

lemma appends_wp: "appends P m \<Longrightarrow> wp m (\<lambda>_ h'. \<exists>es. h' = h @ es \<and> P es) h"
  by (rule wpI) (metis appends_def snd_conv)

lemma appends_mono: "appends P m \<Longrightarrow> (\<And>es. P es \<Longrightarrow> Q es) \<Longrightarrow> appends Q m"
  unfolding appends_def by meson

lemma appends_if:
  "(b \<Longrightarrow> appends P m) \<Longrightarrow> (\<not> b \<Longrightarrow> appends P n) \<Longrightarrow> appends P (if b then m else n)"
  by simp

lemma appends_case_sum:
  "(\<And>a. x = Inl a \<Longrightarrow> appends P (f a)) \<Longrightarrow> (\<And>b. x = Inr b \<Longrightarrow> appends P (g b)) \<Longrightarrow>
   appends P (case x of Inl a \<Rightarrow> f a | Inr b \<Rightarrow> g b)"
  by (cases x) auto

lemma appends_case_option:
  "(x = None \<Longrightarrow> appends P m) \<Longrightarrow> (\<And>b. x = Some b \<Longrightarrow> appends P (g b)) \<Longrightarrow>
   appends P (case x of None \<Rightarrow> m | Some b \<Rightarrow> g b)"
  by (cases x) auto

lemma appends_case_prod:
  "(\<And>a b. x = (a, b) \<Longrightarrow> appends P (f a b)) \<Longrightarrow> appends P (case x of (a, b) \<Rightarrow> f a b)"
  by (cases x) auto

lemma appends_Let: "appends P (f t) \<Longrightarrow> appends P (let x = t in f x)"
  by (simp add: Let_def)

lemmas appends_cases =
  appends_if appends_case_sum appends_case_option appends_case_prod appends_Let

locale segments =
  fixes P :: "'e list \<Rightarrow> bool"
  assumes nil: "P []"
    and append: "P es \<Longrightarrow> P fs \<Longrightarrow> P (es @ fs)"
begin

lemma return: "appends P (State_Monad.return x)"
  by (auto simp: appends_def nil)

lemma bind:
  assumes m: "appends P m" and f: "\<And>x. appends P (f x)"
  shows "appends P (State_Monad.bind m f)"
  unfolding appends_def
proof
  fix h
  obtain a h1 where r: "run_state m h = (a, h1)" by (cases "run_state m h")
  from m r obtain es where es: "h1 = h @ es" "P es"
    unfolding appends_def by (metis snd_conv)
  from f [of a] obtain fs where "snd (run_state (f a) h1) = h1 @ fs" "P fs"
    unfolding appends_def by blast
  with r es append show "\<exists>es. snd (run_state (State_Monad.bind m f) h) = h @ es \<and> P es"
    by (intro exI [of _ "es @ fs"]) simp
qed

lemma bindE: "appends P m \<Longrightarrow> (\<And>x. appends P (f x)) \<Longrightarrow> appends P (bindE m f)"
  unfolding bindE_def by (intro bind appends_case_sum return)

lemma each_ok: "(\<And>x. x \<in> set xs \<Longrightarrow> appends P (f x)) \<Longrightarrow> appends P (each_ok f xs)"
  by (induction xs) (auto intro!: return bindE)

lemma each: "(\<And>x. x \<in> set xs \<Longrightarrow> appends P (f x)) \<Longrightarrow> appends P (each f xs)"
  by (induction xs) (auto intro!: return bind)

lemma thenC: "appends P m \<Longrightarrow> (\<And>x c. appends P (f x c)) \<Longrightarrow> appends P (thenC m f)"
  unfolding thenC_def by (intro bind appends_case_prod appends_case_sum return)

lemma tryC: "appends P m \<Longrightarrow> (\<And>x. appends P (f x)) \<Longrightarrow> appends P (tryC m c f)"
  unfolding tryC_def by (intro bind appends_case_sum return)

lemmas intros = return bind bindE each_ok each thenC tryC

end

text \<open>\<open>emits A m\<close>: every appended event satisfies \<open>A\<close>.\<close>

abbreviation emits :: "('e \<Rightarrow> bool) \<Rightarrow> ('e list, 'a) state \<Rightarrow> bool" where
  "emits A \<equiv> appends (list_all A)"

interpretation events: segments "list_all A" for A
  by unfold_locales auto

declare events.intros [emits_intros] appends_cases [emits_intros]

section \<open>Results together with what was appended\<close>

text \<open>
  \<open>seg P m\<close>: running \<open>m\<close> appends a segment, and result and segment satisfy \<open>P\<close>.  Unlike
  \<open>appends\<close> it relates the result to the events that justify it.
\<close>

definition seg :: "('a \<Rightarrow> 'e list \<Rightarrow> bool) \<Rightarrow> ('e list, 'a) state \<Rightarrow> bool" where
  "seg P m \<longleftrightarrow> (\<forall>h. wp m (\<lambda>r h'. \<exists>es. h' = h @ es \<and> P r es) h)"

named_theorems seg_intros \<open>backward rules for results with their events\<close>

lemma segD:
  assumes "seg P m" "run_state m h = (r, h')"
  shows "\<exists>es. h' = h @ es \<and> P r es"
proof -
  from assms(1) have "wp m (\<lambda>r h'. \<exists>es. h' = h @ es \<and> P r es) h" by (simp add: seg_def)
  with assms(2) show ?thesis by (simp add: wp_def)
qed

lemma segI: "(\<And>h r h'. run_state m h = (r, h') \<Longrightarrow> \<exists>es. h' = h @ es \<and> P r es) \<Longrightarrow> seg P m"
  unfolding seg_def by (intro allI wpI) blast

lemma seg_mono: "seg P m \<Longrightarrow> (\<And>r es. P r es \<Longrightarrow> Q r es) \<Longrightarrow> seg Q m"
  unfolding seg_def by (blast intro: wp_mono)

lemma seg_conj: "seg P m \<Longrightarrow> seg Q m \<Longrightarrow> seg (\<lambda>r es. P r es \<and> Q r es) m"
  unfolding seg_def by (auto intro: wp_mono [OF wp_conj])

lemma seg_appends: "appends P m \<Longrightarrow> seg (\<lambda>_. P) m"
  by (simp add: seg_def appends_wp)

lemma appends_seg: "seg (\<lambda>_. P) m \<Longrightarrow> appends P m"
  unfolding appends_def using segD [OF _ surjective_pairing] by fast

lemma seg_return [seg_intros]: "P a [] \<Longrightarrow> seg P (State_Monad.return a)"
  by (simp add: seg_def wp_simps)

lemma seg_bind:
  assumes m: "seg P m" and f: "\<And>r es. P r es \<Longrightarrow> seg (\<lambda>r' es'. Q r' (es @ es')) (f r)"
  shows "seg Q (State_Monad.bind m f)"
proof -
  have "wp m (\<lambda>r h'. wp (f r) (\<lambda>r' h''. \<exists>es. h'' = h @ es \<and> Q r' es) h') h" for h
    using m [unfolded seg_def, rule_format, of h]
  proof (rule wp_mono)
    fix r h' assume "\<exists>es. h' = h @ es \<and> P r es"
    then obtain es where es: "h' = h @ es" "P r es" by blast
    from f [OF es(2), unfolded seg_def, rule_format, of h']
    show "wp (f r) (\<lambda>r' h''. \<exists>es. h'' = h @ es \<and> Q r' es) h'"
      by (rule wp_mono) (auto simp: es(1))
  qed
  then show ?thesis by (simp add: seg_def wp_simps)
qed

lemma seg_bindE:
  assumes m: "seg P m" and e: "\<And>e es. P (Inl e) es \<Longrightarrow> Q (Inl e) es"
    and f: "\<And>x es. P (Inr x) es \<Longrightarrow> seg (\<lambda>r' es'. Q r' (es @ es')) (f x)"
  shows "seg Q (bindE m f)"
  unfolding bindE_def
proof (rule seg_bind [OF m])
  fix r es assume r: "P r es"
  show "seg (\<lambda>r' es'. Q r' (es @ es')) (case r of Inl e \<Rightarrow> fail e | Inr x \<Rightarrow> f x)"
    using r e f by (cases r) (auto intro: seg_return)
qed

lemma seg_thenC:
  assumes m: "seg P m" and e: "\<And>e c es. P (Inl e, c) es \<Longrightarrow> Q (Inl e, c) es"
    and f: "\<And>x c es. P (Inr x, c) es \<Longrightarrow> seg (\<lambda>r' es'. Q r' (es @ es')) (f x c)"
  shows "seg Q (thenC m f)"
  unfolding thenC_def
proof (rule seg_bind [OF m])
  fix r es assume r: "P r es"
  show "seg (\<lambda>r' es'. Q r' (es @ es')) (case r of (r, c) \<Rightarrow> (case r of Inl e \<Rightarrow> ret (Inl e, c) | Inr x \<Rightarrow> f x c))"
    using r e f by (cases r; cases "fst r") (auto intro: seg_return)
qed

lemma seg_tryC:
  assumes m: "seg P m" and e: "\<And>e es. P (Inl e) es \<Longrightarrow> Q (Inl e, c) es"
    and f: "\<And>x es. P (Inr x) es \<Longrightarrow> seg (\<lambda>r' es'. Q r' (es @ es')) (f x)"
  shows "seg Q (tryC m c f)"
  unfolding tryC_def
proof (rule seg_bind [OF m])
  fix r es assume r: "P r es"
  show "seg (\<lambda>r' es'. Q r' (es @ es')) (case r of Inl e \<Rightarrow> ret (Inl e, c) | Inr x \<Rightarrow> f x)"
    using r e f by (cases r) (auto intro: seg_return)
qed

lemma seg_if [seg_intros]: "(b \<Longrightarrow> seg P m) \<Longrightarrow> (\<not> b \<Longrightarrow> seg P n) \<Longrightarrow> seg P (if b then m else n)"
  by simp

lemma seg_case_sum [seg_intros]:
  "(\<And>a. x = Inl a \<Longrightarrow> seg P (f a)) \<Longrightarrow> (\<And>b. x = Inr b \<Longrightarrow> seg P (g b)) \<Longrightarrow>
   seg P (case x of Inl a \<Rightarrow> f a | Inr b \<Rightarrow> g b)"
  by (cases x) auto

lemma seg_case_option [seg_intros]:
  "(x = None \<Longrightarrow> seg P m) \<Longrightarrow> (\<And>b. x = Some b \<Longrightarrow> seg P (g b)) \<Longrightarrow>
   seg P (case x of None \<Rightarrow> m | Some b \<Rightarrow> g b)"
  by (cases x) auto

lemma seg_case_prod [seg_intros]:
  "(\<And>a b. x = (a, b) \<Longrightarrow> seg P (f a b)) \<Longrightarrow> seg P (case x of (a, b) \<Rightarrow> f a b)"
  by (cases x) auto

lemma seg_Let [seg_intros]: "seg P (f t) \<Longrightarrow> seg P (let x = t in f x)"
  by (simp add: Let_def)

text \<open>
  \<open>keeps I P m\<close>: the structure \<open>m\<close> returns satisfies the invariant \<open>I\<close> and the appended events satisfy
  \<open>P\<close>, whatever the result.
\<close>

definition keeps :: "('c \<Rightarrow> bool) \<Rightarrow> ('e list \<Rightarrow> bool) \<Rightarrow> ('e list, 'a \<times> 'c) state \<Rightarrow> bool" where
  "keeps I P m \<longleftrightarrow> seg (\<lambda>r es. I (snd r) \<and> P es) m"

lemma keeps_if: "(b \<Longrightarrow> keeps I P m) \<Longrightarrow> (\<not> b \<Longrightarrow> keeps I P n) \<Longrightarrow> keeps I P (if b then m else n)"
  by simp

lemma keeps_case_sum:
  "(\<And>a. x = Inl a \<Longrightarrow> keeps I P (f a)) \<Longrightarrow> (\<And>b. x = Inr b \<Longrightarrow> keeps I P (g b)) \<Longrightarrow>
   keeps I P (case x of Inl a \<Rightarrow> f a | Inr b \<Rightarrow> g b)"
  by (cases x) auto

lemma keeps_case_option:
  "(x = None \<Longrightarrow> keeps I P m) \<Longrightarrow> (\<And>b. x = Some b \<Longrightarrow> keeps I P (g b)) \<Longrightarrow>
   keeps I P (case x of None \<Rightarrow> m | Some b \<Rightarrow> g b)"
  by (cases x) auto

lemma keeps_case_prod: "(\<And>a b. x = (a, b) \<Longrightarrow> keeps I P (f a b)) \<Longrightarrow> keeps I P (case x of (a, b) \<Rightarrow> f a b)"
  by (cases x) auto

lemma keeps_Let: "keeps I P (f t) \<Longrightarrow> keeps I P (let x = t in f x)"
  by simp

lemmas keeps_cases = keeps_if keeps_case_sum keeps_case_option keeps_case_prod keeps_Let

lemma keeps_mono: "keeps I P m \<Longrightarrow> (\<And>c. I c \<Longrightarrow> J c) \<Longrightarrow> (\<And>es. P es \<Longrightarrow> Q es) \<Longrightarrow> keeps J Q m"
  unfolding keeps_def by (erule seg_mono) auto

lemma keeps_run:
  assumes "keeps I P m" "run_state m h = ((r, c), h')"
  shows "I c \<and> (\<exists>es. h' = h @ es \<and> P es)"
  using segD [OF assms(1) [unfolded keeps_def] assms(2)] by auto

lemma keeps_appends: "keeps I P m \<Longrightarrow> appends P m"
  unfolding keeps_def by (rule appends_seg, erule seg_mono) simp

context segments
begin

lemma keeps_return: "I c \<Longrightarrow> keeps I P (State_Monad.return (r, c))"
  unfolding keeps_def by (rule seg_return) (simp add: nil)

lemma keeps_bind:
  assumes m: "appends P m" and f: "\<And>x. keeps I P (f x)"
  shows "keeps I P (State_Monad.bind m f)"
  unfolding keeps_def
  by (rule seg_bind [OF seg_appends [OF m]], rule seg_mono [OF f [unfolded keeps_def]]) (auto intro: append)

text \<open>The structure passes from the first computation to the second.\<close>

lemma keeps_next:
  assumes m: "keeps I P m" and f: "\<And>(r :: 'r) (c :: 'c). I c \<Longrightarrow> keeps I P (f r c)"
  shows "keeps I P (State_Monad.bind m (\<lambda>(r, c). f r c))"
  unfolding keeps_def
proof (rule seg_bind [OF m [unfolded keeps_def]])
  fix x :: "'r \<times> 'c" and es assume "I (snd x) \<and> P es"
  then have "I (snd x)" "P es" by auto
  from f [OF this(1), of "fst x", unfolded keeps_def]
  show "seg (\<lambda>r' es'. I (snd r') \<and> P (es @ es')) (case x of (r, c) \<Rightarrow> f r c)"
    by (cases x) (auto elim!: seg_mono intro: append \<open>P es\<close>)
qed

lemma keeps_thenC:
  "keeps I P m \<Longrightarrow> (\<And>x c. I c \<Longrightarrow> keeps I P (f x c)) \<Longrightarrow> keeps I P (thenC m f)"
  unfolding thenC_def by (rule keeps_next) (auto intro: keeps_return split: sum.split)

lemma keeps_tryC:
  "appends P m \<Longrightarrow> I c \<Longrightarrow> (\<And>x. keeps I P (f x)) \<Longrightarrow> keeps I P (tryC m c f)"
  unfolding tryC_def by (rule keeps_bind) (auto intro: keeps_return split: sum.split)

lemmas keeps_intros = keeps_return keeps_thenC keeps_tryC keeps_cases

end

text \<open>A loop with error exit: each step's fact holds of the whole loop's events, when facts are kept
  by further events on either side.\<close>

lemma seg_each_ok:
  assumes f: "\<And>x. x \<in> set xs \<Longrightarrow> seg (\<lambda>r es. A es \<and> (\<forall>y. r = Inr y \<longrightarrow> D x es)) (f x)"
    and A: "A []" "\<And>es fs. A es \<Longrightarrow> A fs \<Longrightarrow> A (es @ fs)"
    and D: "\<And>x es fs. D x es \<Longrightarrow> D x (es @ fs)" "\<And>x es fs. D x fs \<Longrightarrow> D x (es @ fs)"
  shows "seg (\<lambda>r es. A es \<and> (\<forall>ys. r = Inr ys \<longrightarrow> (\<forall>x \<in> set xs. D x es))) (each_ok f xs)"
  using f
proof (induction xs)
  case Nil
  then show ?case by (auto intro!: seg_return A)
next
  case (Cons x xs)
  have first: "seg (\<lambda>r es. A es \<and> (\<forall>y. r = Inr y \<longrightarrow> D x es)) (f x)"
    by (rule Cons.prems) simp
  have rest: "seg (\<lambda>r es. A es \<and> (\<forall>ys. r = Inr ys \<longrightarrow> (\<forall>x \<in> set xs. D x es))) (each_ok f xs)"
    by (rule Cons.IH) (use Cons.prems in auto)
  show ?case
    unfolding each_ok.simps
    by (rule seg_bindE [OF first]) (auto intro!: seg_bindE [OF rest] seg_return intro: A D)
qed

definition extends :: "('e \<Rightarrow> bool) \<Rightarrow> 'e list \<Rightarrow> 'e list \<Rightarrow> bool" where
  "extends A h h' \<longleftrightarrow> (\<exists>es. h' = h @ es \<and> list_all A es)"

lemma extends_refl [simp]: "extends A h h"
  by (simp add: extends_def)

lemma emits_extends: "emits A m \<Longrightarrow> extends A h g \<Longrightarrow> wp m (\<lambda>_ g'. extends A h g') g"
  by (drule appends_wp [of "list_all A" m g], erule wp_mono) (auto simp: extends_def)

section \<open>Invariants of loops\<close>

text \<open>A loop that succeeds has established, for every element, a fact that later steps keep.\<close>

lemma wp_each_ok_all:
  assumes f: "\<And>x g. x \<in> set xs \<Longrightarrow> wp (f x) (\<lambda>r g'. (\<exists>es. g' = g @ es) \<and> (\<forall>y. r = Inr y \<longrightarrow> D x g')) g"
    and D: "\<And>x g es. D x g \<Longrightarrow> D x (g @ es)"
  shows "wp (each_ok f xs) (\<lambda>r g. (\<exists>es. g = h @ es) \<and> (\<forall>ys. r = Inr ys \<longrightarrow> (\<forall>x \<in> set xs. D x g))) h"
  using f
proof (induction xs arbitrary: h)
  case Nil
  then show ?case by (simp add: wp_simps)
next
  case (Cons x xs)
  have first: "wp (f x) (\<lambda>r g'. (\<exists>es. g' = h @ es) \<and> (\<forall>y. r = Inr y \<longrightarrow> D x g')) h"
    by (rule Cons.prems) simp
  have rest: "wp (each_ok f xs) (\<lambda>r g'. (\<exists>es. g' = g @ es) \<and> (\<forall>ys. r = Inr ys \<longrightarrow> (\<forall>x \<in> set xs. D x g'))) g" for g
    by (rule Cons.IH) (use Cons.prems in auto)
  show ?case
    unfolding each_ok.simps
    apply (rule wp_bindEI, rule wp_mono [OF first])
    apply (rule wp_result_sumI, simp)
    apply (rule wp_bindEI, rule wp_mono [OF rest])
    apply (auto simp: wp_simps split: sum.splits intro: D)
    done
qed

lemma wp_each_ok:
  assumes "\<And>x g. x \<in> set xs \<Longrightarrow> I g \<Longrightarrow>
             wp (f x) (\<lambda>r g'. case r of Inl e \<Rightarrow> J g' | Inr y \<Rightarrow> I g' \<and> R x y) g"
    and "I h"
  shows "wp (each_ok f xs)
           (\<lambda>r g. case r of Inl e \<Rightarrow> J g | Inr ys \<Rightarrow> I g \<and> list_all2 R xs ys) h"
  using assms
proof (induction xs arbitrary: h)
  case Nil
  then show ?case by (simp add: wp_simps)
next
  case (Cons x xs)
  have step: "wp (f x) (\<lambda>r g'. case r of Inl e \<Rightarrow> J g' | Inr y \<Rightarrow> I g' \<and> R x y) h"
    by (rule Cons.prems(1)) (use Cons.prems(2) in auto)
  have rest: "wp (each_ok f xs)
      (\<lambda>r g. case r of Inl e \<Rightarrow> J g | Inr ys \<Rightarrow> I g \<and> list_all2 R xs ys) g" if "I g" for g
    by (rule Cons.IH) (use Cons.prems(1) that in auto)
  show ?case
    apply (simp add: wp_simps)
    apply (rule wp_mono [OF step])
    apply (auto split: sum.splits intro!: wp_mono [OF rest] simp: wp_simps)
    done
qed

lemma wp_each:
  assumes "\<And>x g. x \<in> set xs \<Longrightarrow> I g \<Longrightarrow> wp (f x) (\<lambda>y g'. I g' \<and> R x y) g"
    and "I h"
  shows "wp (each f xs) (\<lambda>ys g. I g \<and> list_all2 R xs ys) h"
  using assms
proof (induction xs arbitrary: h)
  case Nil
  then show ?case by (simp add: wp_simps)
next
  case (Cons x xs)
  have step: "wp (f x) (\<lambda>y g'. I g' \<and> R x y) h"
    by (rule Cons.prems(1)) (use Cons.prems(2) in auto)
  have rest: "wp (each f xs) (\<lambda>ys g. I g \<and> list_all2 R xs ys) g" if "I g" for g
    by (rule Cons.IH) (use Cons.prems(1) that in auto)
  show ?case
    apply (simp add: wp_simps)
    apply (rule wp_mono [OF step])
    apply (auto intro!: wp_mono [OF rest] simp: wp_simps)
    done
qed

section \<open>Words as bounded numbers\<close>

lemma u8_less [simp]: "unat (x :: u8) < 256"
  by (rule order.strict_trans2 [OF unsigned_less]) simp

lemma u8_le [simp]: "unat (x :: u8) \<le> 255"
  using u8_less [of x] by linarith

lemma u16_less [simp]: "unat (x :: u16) < 65536"
  by (rule order.strict_trans2 [OF unsigned_less]) simp

lemma u32_less [simp]: "unat (x :: u32) < 4294967296"
  by (rule order.strict_trans2 [OF unsigned_less]) simp

lemma unat_of_nat_u32: "n < 4294967296 \<Longrightarrow> unat (of_nat n :: u32) = n"
  by (simp add: unat_of_nat take_bit_eq_mod)

lemma unat_of_nat_u64: "n < 18446744073709551616 \<Longrightarrow> unat (of_nat n :: u64) = n"
  by (simp add: unat_of_nat take_bit_eq_mod)

lemma word_le_unat: "(a :: 'a::len word) \<le> b \<longleftrightarrow> unat a \<le> unat b"
  by (simp add: word_le_nat_alt)

lemma word_less_unat: "(a :: 'a::len word) < b \<longleftrightarrow> unat a < unat b"
  by (simp add: word_less_nat_alt)

lemma unat_ucast_8_32 [simp]: "unat (ucast (x :: u8) :: u32) = unat x"
  using u8_less [of x] by (simp add: unsigned_ucast_eq take_bit_eq_mod del: u8_less)

lemma unat_ucast_32_64 [simp]: "unat (ucast (x :: u32) :: u64) = unat x"
  using u32_less [of x] by (simp add: unsigned_ucast_eq take_bit_eq_mod del: u32_less)

lemma unat_ucast_64_32: "unat (x :: u64) < 4294967296 \<Longrightarrow> unat (ucast x :: u32) = unat x"
  by (simp add: unsigned_ucast_eq take_bit_eq_mod)

end
