(* ===== verification/C_Library.thy ===== *)
theory C_Library
  imports Ugreen_Prelude "HOL-Library.Sublist"
begin

text \<open>
  The parts of the C standard library the sources use, on C strings modelled as
  character lists without a terminating NUL (\<open>c_str\<close> cuts a byte buffer at its first
  NUL).  The character classes are those of the C locale; \<^verbatim>\<open>unsigned long\<close>,
  \<^verbatim>\<open>long\<close> and \<^verbatim>\<open>long long\<close> have 64 bits.  Number parsing returns the value, the
  rest of the text (where \<^verbatim>\<open>*end\<close> points) and whether \<^verbatim>\<open>errno\<close> became \<^verbatim>\<open>ERANGE\<close>.
\<close>

section \<open>Characters\<close>

definition isspace :: "char \<Rightarrow> bool" where
  "isspace c \<longleftrightarrow> (let n = (of_char c :: nat) in n = 32 \<or> (9 \<le> n \<and> n \<le> 13))"

definition isdigit :: "char \<Rightarrow> bool" where
  "isdigit c \<longleftrightarrow> (let n = (of_char c :: nat) in 48 \<le> n \<and> n \<le> 57)"

definition islower :: "char \<Rightarrow> bool" where
  "islower c \<longleftrightarrow> (let n = (of_char c :: nat) in 97 \<le> n \<and> n \<le> 122)"

definition digit_value :: "char \<Rightarrow> nat" where
  "digit_value c = of_char c - 48"

definition digit_char :: "nat \<Rightarrow> char" where
  "digit_char d = char_of (48 + d)"

lemma of_char_digit_char [simp]: "d < 10 \<Longrightarrow> of_char (digit_char d) = (48 + d :: nat)"
  by (simp add: digit_char_def)

lemma digit_value_digit_char [simp]: "d < 10 \<Longrightarrow> digit_value (digit_char d) = d"
  by (simp add: digit_value_def)

lemma isdigit_digit_char [simp]: "d < 10 \<Longrightarrow> isdigit (digit_char d)"
  by (simp add: isdigit_def)

lemma isdigit_not_space: "isdigit c \<Longrightarrow> \<not> isspace c"
  by (auto simp: isdigit_def isspace_def Let_def)

lemma isdigit_not_sign: "isdigit c \<Longrightarrow> c \<noteq> CHR ''-'' \<and> c \<noteq> CHR ''+''"
  by (auto simp: isdigit_def Let_def)

section \<open>Strings\<close>

text \<open>The C string in a byte buffer: everything before the first NUL.\<close>

definition c_str :: "string \<Rightarrow> string" where
  "c_str s = takeWhile (\<lambda>c. c \<noteq> CHR 0x00) s"

text \<open>\<^verbatim>\<open>strncmp(s, p, strlen(p)) == 0\<close>.\<close>

definition starts_with :: "string \<Rightarrow> string \<Rightarrow> bool" where
  "starts_with p s \<longleftrightarrow> take (length p) s = p"

lemma starts_with_prefix: "starts_with p s \<longleftrightarrow> prefix p s"
  unfolding starts_with_def by (metis append_eq_conv_conj prefix_def take_is_prefix)

text \<open>\<^verbatim>\<open>strstr(s, p) != NULL\<close>.\<close>

fun contains :: "string \<Rightarrow> string \<Rightarrow> bool" where
  "contains p [] = (p = [])"
| "contains p (c # s) = (starts_with p (c # s) \<or> contains p s)"

text \<open>\<^verbatim>\<open>strchr(s, c)\<close>: the text before the first \<open>c\<close> and the text after it.\<close>

definition strchr :: "char \<Rightarrow> string \<Rightarrow> (string \<times> string) option" where
  "strchr c s =
     (if c \<in> set s then Some (takeWhile (\<lambda>x. x \<noteq> c) s, tl (dropWhile (\<lambda>x. x \<noteq> c) s)) else None)"

lemma strchr_Some: "strchr c s = Some (a, b) \<Longrightarrow> s = a @ c # b \<and> c \<notin> set a"
proof -
  assume s: "strchr c s = Some (a, b)"
  then have in_s: "c \<in> set s" and a: "a = takeWhile (\<lambda>x. x \<noteq> c) s"
    and b: "b = tl (dropWhile (\<lambda>x. x \<noteq> c) s)"
    by (auto simp: strchr_def split: if_splits)
  from in_s have ne: "dropWhile (\<lambda>x. x \<noteq> c) s \<noteq> []" by (auto simp: dropWhile_eq_Nil_conv)
  then have "hd (dropWhile (\<lambda>x. x \<noteq> c) s) = c" using hd_dropWhile [OF ne] by simp
  with ne b have d: "dropWhile (\<lambda>x. x \<noteq> c) s = c # b"
    by (cases "dropWhile (\<lambda>x. x \<noteq> c) s") auto
  have "s = takeWhile (\<lambda>x. x \<noteq> c) s @ dropWhile (\<lambda>x. x \<noteq> c) s" by simp
  with a d have "s = a @ c # b" by simp
  moreover from a have "c \<notin> set a" by (auto dest: set_takeWhileD)
  ultimately show ?thesis by simp
qed

text \<open>The text before the first end-of-line character: \<^verbatim>\<open>s[strcspn(s, "\r\n")] = 0\<close>.\<close>

definition cut_eol :: "string \<Rightarrow> string" where
  "cut_eol s = takeWhile (\<lambda>c. c \<noteq> CHR 0x0D \<and> c \<noteq> CHR 0x0A) s"

text \<open>Trailing white space removed: \<^verbatim>\<open>while (n > 0 && isspace(s[n-1])) s[--n] = 0\<close>.\<close>

definition rstrip :: "(char \<Rightarrow> bool) \<Rightarrow> string \<Rightarrow> string" where
  "rstrip p s = rev (dropWhile p (rev s))"

lemma rstrip_all: "(\<And>c. c \<in> set s \<Longrightarrow> \<not> p c) \<Longrightarrow> rstrip p s = s"
  unfolding rstrip_def by (cases s rule: rev_cases) auto

text \<open>The fields of a comma-separated list, as repeated \<^verbatim>\<open>strsep\<close> calls return them: an
  empty text is one empty field.\<close>

fun split_on :: "char \<Rightarrow> string \<Rightarrow> string list" where
  "split_on d [] = [[]]"
| "split_on d (c # s) =
     (if c = d then [] # split_on d s
      else (case split_on d s of [] \<Rightarrow> [[c]] | f # fs \<Rightarrow> (c # f) # fs))"

lemma split_on_ne [simp]: "split_on d s \<noteq> []"
  by (induction s) (auto split: list.splits)

lemma split_on_no_sep: "d \<notin> set s \<Longrightarrow> split_on d s = [s]"
  by (induction s) auto

lemma split_on_append: "d \<notin> set a \<Longrightarrow> split_on d (a @ d # b) = a # split_on d b"
  by (induction a) auto

lemma split_on_fields: "f \<in> set (split_on d s) \<Longrightarrow> d \<notin> set f"
  by (induction s arbitrary: f) (auto split: list.splits if_splits)

section \<open>Decimal numbers\<close>

definition digits_value :: "string \<Rightarrow> nat" where
  "digits_value ds = foldl (\<lambda>n c. 10 * n + digit_value c) 0 ds"

lemma digits_value_snoc [simp]: "digits_value (ds @ [c]) = 10 * digits_value ds + digit_value c"
  by (simp add: digits_value_def)

lemma digits_value_Nil [simp]: "digits_value [] = 0"
  by (simp add: digits_value_def)

text \<open>\<^verbatim>\<open>printf("%u", n)\<close> and \<^verbatim>\<open>printf("%lld", n)\<close> for a non-negative number.\<close>

fun dec :: "nat \<Rightarrow> string" where
  "dec n = (if n < 10 then [digit_char n] else dec (n div 10) @ [digit_char (n mod 10)])"

declare dec.simps [simp del]

lemma digits_value_dec [simp]: "digits_value (dec n) = n"
proof (induction n rule: dec.induct)
  case (1 n)
  then show ?case
    by (cases "n < 10") (simp_all add: dec.simps [of n] digits_value_def)
qed

lemma dec_digits: "c \<in> set (dec n) \<Longrightarrow> isdigit c"
proof (induction n rule: dec.induct)
  case (1 n)
  then show ?case by (cases "n < 10") (auto simp: dec.simps [of n])
qed

lemma dec_ne [simp]: "dec n \<noteq> []"
  by (subst dec.simps) simp

lemma dec_length: "0 < k \<Longrightarrow> n < 10 ^ k \<Longrightarrow> length (dec n) \<le> k"
proof (induction n arbitrary: k rule: dec.induct)
  case (1 n)
  show ?case
  proof (cases "n < 10")
    case True
    then show ?thesis using 1 by (simp add: dec.simps [of n])
  next
    case False
    obtain j where j: "k = Suc j" using 1(2) by (cases k) auto
    have "0 < j" using False 1(3) j by (cases j) auto
    have "n div 10 < 10 ^ j" using 1(3) j by (simp add: less_mult_imp_div_less)
    then have "length (dec (n div 10)) \<le> j" by (rule 1(1) [OF False \<open>0 < j\<close>])
    then show ?thesis using False j by (simp add: dec.simps [of n])
  qed
qed

lemma dec_not_in: "\<not> isdigit c \<Longrightarrow> c \<notin> set (dec n)"
  using dec_digits by blast

text \<open>\<^verbatim>\<open>printf("%d", i)\<close> and \<^verbatim>\<open>printf("%lld", i)\<close>.\<close>

definition dec_int :: "int \<Rightarrow> string" where
  "dec_int i = (if i < 0 then ''-'' @ dec (nat (- i)) else dec (nat i))"

text \<open>Optional sign, then the longest run of digits.\<close>

definition sign_split :: "string \<Rightarrow> bool \<times> string" where
  "sign_split t =
     (case t of [] \<Rightarrow> (False, [])
      | c # r \<Rightarrow> if c = CHR ''-'' then (True, r) else if c = CHR ''+'' then (False, r) else (False, t))"

definition strtoul10 :: "string \<Rightarrow> u64 \<times> string \<times> bool" where
  "strtoul10 s =
     (let (neg, u) = sign_split (dropWhile isspace s);
          ds = takeWhile isdigit u; rest = dropWhile isdigit u; v = digits_value ds
      in if ds = [] then (0, s, False)
         else if v > 18446744073709551615 then (- 1, rest, True)
         else (if neg then - of_nat v else of_nat v, rest, False))"

definition strtoll10 :: "string \<Rightarrow> int \<times> string \<times> bool" where
  "strtoll10 s =
     (let (neg, u) = sign_split (dropWhile isspace s);
          ds = takeWhile isdigit u; rest = dropWhile isdigit u; v = int (digits_value ds)
      in if ds = [] then (0, s, False)
         else if neg then (if v > 9223372036854775808 then (- 9223372036854775808, rest, True)
                           else (- v, rest, False))
         else if v > 9223372036854775807 then (9223372036854775807, rest, True)
         else (v, rest, False))"

text \<open>Base 16: an optional \<^verbatim>\<open>0x\<close> that a hexadecimal digit follows is skipped.\<close>

definition hex_value :: "char \<Rightarrow> nat option" where
  "hex_value c =
     (let n = (of_char c :: nat) in
      if 48 \<le> n \<and> n \<le> 57 then Some (n - 48)
      else if 97 \<le> n \<and> n \<le> 102 then Some (n - 87)
      else if 65 \<le> n \<and> n \<le> 70 then Some (n - 55)
      else None)"

definition isxdigit :: "char \<Rightarrow> bool" where
  "isxdigit c \<longleftrightarrow> hex_value c \<noteq> None"

definition isalnum :: "char \<Rightarrow> bool" where
  "isalnum c \<longleftrightarrow> (let n = (of_char c :: nat) in 48 \<le> n \<and> n \<le> 57 \<or> 65 \<le> n \<and> n \<le> 90 \<or> 97 \<le> n \<and> n \<le> 122)"

definition hex_digits_value :: "string \<Rightarrow> nat" where
  "hex_digits_value ds = foldl (\<lambda>n c. 16 * n + (case hex_value c of Some d \<Rightarrow> d | None \<Rightarrow> 0)) 0 ds"

definition skip_0x :: "string \<Rightarrow> string" where
  "skip_0x s =
     (if take 1 s = ''0'' \<and> (take 1 (drop 1 s) = ''x'' \<or> take 1 (drop 1 s) = ''X'') \<and> drop 2 s \<noteq> [] \<and> isxdigit (hd (drop 2 s))
      then drop 2 s else s)"

definition strtoul16 :: "string \<Rightarrow> u64 \<times> string \<times> bool" where
  "strtoul16 s =
     (let (neg, t) = sign_split (dropWhile isspace s); u = skip_0x t;
          ds = takeWhile isxdigit u; rest = dropWhile isxdigit u; v = hex_digits_value ds
      in if ds = [] then (0, s, False)
         else if v > 18446744073709551615 then (- 1, rest, True)
         else (if neg then - of_nat v else of_nat v, rest, False))"

text \<open>On the modelled platforms \<^verbatim>\<open>long\<close> and \<^verbatim>\<open>long long\<close> have the same width.\<close>

abbreviation strtol10 :: "string \<Rightarrow> int \<times> string \<times> bool" where
  "strtol10 \<equiv> strtoll10"

lemma dropWhile_head: "s \<noteq> [] \<Longrightarrow> \<not> p (hd s) \<Longrightarrow> dropWhile p s = s"
  by (cases s) auto

lemma dec_hd: "isdigit (hd (dec n))"
  by (rule dec_digits [of _ n]) simp

lemma dec_no_lead_space: "dropWhile isspace (dec n @ r) = dec n @ r"
  using dec_hd [of n] by (intro dropWhile_head) (auto simp: hd_append dest: isdigit_not_space)

lemma sign_split_dec: "sign_split (dec n @ r) = (False, dec n @ r)"
proof (cases "dec n")
  case (Cons c cs)
  then have "isdigit c" using dec_digits [of c n] by simp
  with Cons show ?thesis by (auto simp: sign_split_def dest: isdigit_not_sign)
qed simp

lemma takeWhile_dec: "takeWhile isdigit (dec n) = dec n" "dropWhile isdigit (dec n) = []"
  by (auto intro!: takeWhile_eq_all_conv [THEN iffD2] simp: dropWhile_eq_Nil_conv dest: dec_digits)

lemma strtoul10_dec: "n < 2 ^ 64 \<Longrightarrow> strtoul10 (dec n) = (of_nat n, [], False)"
  using dec_no_lead_space [of n "[]"] sign_split_dec [of n "[]"]
  by (simp add: strtoul10_def takeWhile_dec)

lemma strtoll10_dec: "n < 2 ^ 63 \<Longrightarrow> strtoll10 (dec n) = (int n, [], False)"
  using dec_no_lead_space [of n "[]"] sign_split_dec [of n "[]"]
  by (simp add: strtoll10_def takeWhile_dec)

lemma dec_split:
  assumes "r = [] \<or> \<not> isdigit (hd r)"
  shows "takeWhile isdigit (dec n @ r) = dec n" "dropWhile isdigit (dec n @ r) = r"
proof -
  have r: "takeWhile isdigit r = []" "dropWhile isdigit r = r"
    using assms by (cases r; simp)+
  show "takeWhile isdigit (dec n @ r) = dec n" "dropWhile isdigit (dec n @ r) = r"
    using r by (simp_all add: takeWhile_append2 dropWhile_append2 dec_digits)
qed

lemma strtoll10_dec_rest:
  "n < 2 ^ 63 \<Longrightarrow> r = [] \<or> \<not> isdigit (hd r) \<Longrightarrow> strtoll10 (dec n @ r) = (int n, r, False)"
  by (simp add: strtoll10_def dec_no_lead_space sign_split_dec dec_split)

section \<open>Line input\<close>

text \<open>
  Successive \<^verbatim>\<open>fgets(buf, n, stream)\<close> calls on a stream that delivers \<open>s\<close>: pieces of at most
  \<open>k = n - 1\<close> bytes, each ending at a newline if one comes first.
\<close>

fun line_upto :: "nat \<Rightarrow> string \<Rightarrow> string \<times> string" where
  "line_upto k [] = ([], [])"
| "line_upto k (c # s) =
     (if k = 0 then ([], c # s) else if c = CHR 0x0A then ([c], s)
      else (let (a, b) = line_upto (k - 1) s in (c # a, b)))"

lemma line_upto_append: "line_upto k s = (a, b) \<Longrightarrow> a @ b = s"
  by (induction k s arbitrary: a b rule: line_upto.induct)
    (auto split: if_splits prod.splits)

lemma line_upto_length: "length (fst (line_upto k s)) \<le> k"
  by (induction k s rule: line_upto.induct) (auto split: prod.splits)

lemma line_upto_progress:
  assumes "0 < k" "s \<noteq> []"
  shows "length (snd (line_upto k s)) < length s"
proof -
  obtain a b where ab: "line_upto k s = (a, b)" by fastforce
  have "a \<noteq> []" using assms ab by (cases s) (auto split: prod.splits if_splits)
  with line_upto_append [OF ab] ab show ?thesis by auto
qed

text \<open>\<open>failed\<close>: the stream ends with a read error instead of end of file; \<^verbatim>\<open>fgets\<close> then
  returns \<^verbatim>\<open>NULL\<close> for the piece the error interrupts.\<close>

function fgets_lines :: "nat \<Rightarrow> bool \<Rightarrow> string \<Rightarrow> string list" where
  "fgets_lines k failed s =
     (if s = [] \<or> k = 0 then []
      else (let (a, b) = line_upto k s in
            if failed \<and> b = [] \<and> length a < k \<and> last a \<noteq> CHR 0x0A then []
            else a # fgets_lines k failed b))"
  by pat_completeness auto
termination
proof (relation "measure (\<lambda>(k, f, s). length s)")
  show "wf (measure (\<lambda>(k :: nat, f :: bool, s :: string). length s))" by simp
next
  fix k :: nat and failed and s x a b
  assume "\<not> (s = [] \<or> k = 0)" "x = line_upto k s" "(a, b) = x"
  then show "((k, failed, b), (k, failed, s)) \<in> measure (\<lambda>(k, f, s). length s)"
    using line_upto_progress [of k s] by (metis case_prod_conv in_measure neq0_conv snd_conv)
qed

declare fgets_lines.simps [simp del]

lemma fgets_lines_Nil [simp]: "fgets_lines k f [] = []"
  by (subst fgets_lines.simps) simp

lemma fgets_lines_length: "l \<in> set (fgets_lines k failed s) \<Longrightarrow> length l \<le> k"
proof (induction k failed s rule: fgets_lines.induct)
  case (1 k failed s)
  obtain a b where ab: "line_upto k s = (a, b)" by fastforce
  then have "length a \<le> k" using line_upto_length [of k s] by simp
  with 1 ab show ?case
    by (auto simp: fgets_lines.simps [of k failed s] split: if_splits)
qed

lemma fgets_lines_short:
  assumes "length s \<le> k" "s \<noteq> []" "CHR 0x0A \<notin> set s"
  shows "fgets_lines k False s = [s]"
proof -
  have "line_upto k s = (s, [])" using assms
  proof (induction k s rule: line_upto.induct)
    case (2 k c s)
    then show ?case by (cases "s = []") auto
  qed auto
  moreover have "k \<noteq> 0" using assms by (cases k) auto
  ultimately show ?thesis using assms by (subst fgets_lines.simps) auto
qed

text \<open>A text made of complete lines is read back as those lines.\<close>

lemma line_upto_newline:
  "length l < k \<Longrightarrow> CHR 0x0A \<notin> set l \<Longrightarrow> line_upto k (l @ CHR 0x0A # s) = (l @ [CHR 0x0A], s)"
proof (induction l arbitrary: k)
  case Nil
  then show ?case by (cases k) auto
next
  case (Cons c l)
  have "line_upto (k - 1) (l @ CHR 0x0A # s) = (l @ [CHR 0x0A], s)"
    by (rule Cons.IH) (use Cons.prems in auto)
  with Cons.prems show ?case by auto
qed

lemma fgets_lines_unlines:
  assumes "\<And>l. l \<in> set ls \<Longrightarrow> length l < k \<and> CHR 0x0A \<notin> set l"
  shows "fgets_lines k failed (concat (map (\<lambda>l. l @ [CHR 0x0A]) ls)) = map (\<lambda>l. l @ [CHR 0x0A]) ls"
  using assms
proof (induction ls)
  case (Cons l ls)
  then have "line_upto k (l @ CHR 0x0A # concat (map (\<lambda>l. l @ [CHR 0x0A]) ls)) =
      (l @ [CHR 0x0A], concat (map (\<lambda>l. l @ [CHR 0x0A]) ls))"
    by (intro line_upto_newline) auto
  moreover have "k \<noteq> 0" using Cons.prems [of l] by auto
  ultimately show ?case using Cons by (subst fgets_lines.simps) simp
qed simp

end
