(* ===== verification/Platform_IO.thy ===== *)
theory Platform_IO
  imports C_Library
begin

text \<open>
  The boundary between the sources and the machine.  Every system call, port access or
  device command the modelled code makes is an \<open>event\<close> of the history, with the answer it
  got.  The machine itself (the Linux kernel, the IT8613 chip, other processes) is not part
  of the sources: it is the parameter \<open>env\<close>, a record with one function per call that may
  answer anything, depending on everything that happened before.  A theorem that holds for
  every \<open>env\<close> therefore holds whatever the hardware does and whatever other processes do
  between two calls.
\<close>

section \<open>Answers\<close>

text \<open>Opening and reading a file: the data delivered before end of file or before a read error.\<close>

datatype file_read = Open_failed errno | File_data string "errno option"

text \<open>Opening a file for writing and one \<^verbatim>\<open>write\<close>: the number of bytes it accepted.\<close>

datatype file_write = Wopen_failed errno | Write_failed errno | Written nat

datatype access_mode = F_OK | R_OK | X_OK

text \<open>\<^verbatim>\<open>fork\<close>, \<^verbatim>\<open>execv\<close> and \<^verbatim>\<open>waitpid\<close>; \<open>Exited\<close> carries \<^verbatim>\<open>WEXITSTATUS\<close>, \<open>Killed\<close> is
  \<^verbatim>\<open>!WIFEXITED\<close>.\<close>

datatype spawn_result = Fork_failed errno | Wait_failed errno | Exited nat | Killed

text \<open>One \<^verbatim>\<open>SG_IO\<close> request that the kernel accepted.\<close>

record sg_reply =
  sg_status :: nat
  sg_host_status :: nat
  sg_driver_status :: nat
  sg_resid :: int
  sg_sense :: "u8 list"
  sg_sb_len_wr :: nat
  sg_data :: "u8 list"

text \<open>What the sources use of \<^verbatim>\<open>fstat\<close>; \<open>sx_mode\<close> holds the permission bits, \<open>sx_device\<close> the major and
  minor number of a character device.\<close>

record file_stat =
  sx_regular :: bool
  sx_uid :: nat
  sx_nlink :: nat
  sx_mode :: u32
  sx_device :: "(nat \<times> nat) option"

text \<open>What the sources use of \<^verbatim>\<open>lstat\<close> on a socket path; \<open>so_file\<close> is the device and inode number.\<close>

record socket_stat =
  so_socket :: bool
  so_uid :: nat
  so_mode :: u32
  so_file :: "nat \<times> nat"

section \<open>Events\<close>

text \<open>Commands to a GPIO device, and calls on local sockets.\<close>

datatype gpio_event =
    Gpio_chipinfo nat "errno + (string \<times> u32)"
  | Gpio_lineinfo nat u32 "errno + u64"
  | Gpio_get_line nat "u32 list" "errno + nat"
  | Gpio_get_values nat u64 "errno + u64"
  | Gpio_set_config nat u64 u64 "errno option"

datatype socket_event =
    Monotonic_ms "errno + int"
  | Poll_fd nat bool int "errno + bool"
  | Send nat "u8 list" "errno + nat"
  | Recv nat nat "errno + u8 list"
  | Socket_timeout nat nat "errno option"
  | Peer_credentials nat "(nat \<times> int) option"
  | Lstat_socket string "errno + socket_stat"
  | Socket_unix "errno + nat"
  | Connect_unix nat string "errno option"
  | Bind_unix nat string "errno option"
  | Chmod_listen nat string "errno option"
  | Accept nat "errno + nat"
  | Unlink string "errno option"

datatype event =
    Inb u16 u8
  | Outb u16 u8
  | Ioperm u16 nat bool "errno option"
  | Access string access_mode bool
  | Open_lock string "errno + nat"
  | Flock nat bool "errno option"
  | Close_fd nat
  | Read_file string file_read
  | Write_file string string file_write
  | List_dir string "errno + string list"
  | Glob string "string list option"
  | Lstat_regular string "errno + bool"
  | Open_device string "errno + nat"
  | Sg_io nat "u8 list" "errno + sg_reply"
  | Clock int
  | Sleep_ms nat
  | Spawn "string list" spawn_result
  | Write_state string "(string \<times> string) list"
  | If_index string nat
  | Open_socket "errno + nat"
  | Get_wol nat string "errno + (u32 \<times> u32)"
  | Set_wol nat string u32 "errno option"
  | Fstat nat "errno + file_stat"
  | Read_fd nat file_read
  | Flock_un nat
  | Read_link string "errno + string"
  | Realpath string "errno + string"
  | I2c_funcs nat "errno + u64"
  | I2c_slave nat u16 "errno option"
  | Smbus_read_byte nat u8 "errno + u8"
  | Smbus_write_byte nat u8 u8 "errno option"
  | Smbus_read_word nat u8 "errno + u16"
  | Smbus_read_block nat u8 "errno + (u8 \<times> u8 list)"
  | Smbus_write_block nat bool u8 "u8 list" "errno option"
  | Cancelled bool
  | Gpio gpio_event
  | Net socket_event

type_synonym trace = "event list"

text \<open>The answers of GPIO devices and of sockets are records of their own.\<close>

record gpio_env =
  e_gpio_chipinfo :: "trace \<Rightarrow> nat \<Rightarrow> errno + (string \<times> u32)"
  e_gpio_lineinfo :: "trace \<Rightarrow> nat \<Rightarrow> u32 \<Rightarrow> errno + u64"
  e_gpio_get_line :: "trace \<Rightarrow> nat \<Rightarrow> u32 list \<Rightarrow> errno + nat"
  e_gpio_get_values :: "trace \<Rightarrow> nat \<Rightarrow> u64 \<Rightarrow> errno + u64"
  e_gpio_set_config :: "trace \<Rightarrow> nat \<Rightarrow> u64 \<Rightarrow> u64 \<Rightarrow> errno option"

record socket_env =
  e_monotonic :: "trace \<Rightarrow> errno + int"
  e_poll :: "trace \<Rightarrow> nat \<Rightarrow> bool \<Rightarrow> int \<Rightarrow> errno + bool"
  e_send :: "trace \<Rightarrow> nat \<Rightarrow> u8 list \<Rightarrow> errno + nat"
  e_recv :: "trace \<Rightarrow> nat \<Rightarrow> nat \<Rightarrow> errno + u8 list"
  e_socket_timeout :: "trace \<Rightarrow> nat \<Rightarrow> nat \<Rightarrow> errno option"
  e_peer :: "trace \<Rightarrow> nat \<Rightarrow> (nat \<times> int) option"
  e_lstat_socket :: "trace \<Rightarrow> string \<Rightarrow> errno + socket_stat"
  e_socket_unix :: "trace \<Rightarrow> errno + nat"
  e_connect :: "trace \<Rightarrow> nat \<Rightarrow> string \<Rightarrow> errno option"
  e_bind :: "trace \<Rightarrow> nat \<Rightarrow> string \<Rightarrow> errno option"
  e_chmod_listen :: "trace \<Rightarrow> nat \<Rightarrow> string \<Rightarrow> errno option"
  e_accept :: "trace \<Rightarrow> nat \<Rightarrow> errno + nat"
  e_unlink :: "trace \<Rightarrow> string \<Rightarrow> errno option"

record env =
  e_getenv :: "string \<Rightarrow> string option"
  e_inb :: "trace \<Rightarrow> u16 \<Rightarrow> u8"
  e_ioperm :: "trace \<Rightarrow> u16 \<Rightarrow> nat \<Rightarrow> bool \<Rightarrow> errno option"
  e_access :: "trace \<Rightarrow> string \<Rightarrow> access_mode \<Rightarrow> bool"
  e_open_lock :: "trace \<Rightarrow> string \<Rightarrow> errno + nat"
  e_flock :: "trace \<Rightarrow> nat \<Rightarrow> bool \<Rightarrow> errno option"
  e_read :: "trace \<Rightarrow> string \<Rightarrow> file_read"
  e_write :: "trace \<Rightarrow> string \<Rightarrow> string \<Rightarrow> file_write"
  e_listdir :: "trace \<Rightarrow> string \<Rightarrow> errno + string list"
  e_glob :: "trace \<Rightarrow> string \<Rightarrow> string list option"
  e_lstat :: "trace \<Rightarrow> string \<Rightarrow> errno + bool"
  e_open_device :: "trace \<Rightarrow> string \<Rightarrow> errno + nat"
  e_sg_io :: "trace \<Rightarrow> nat \<Rightarrow> u8 list \<Rightarrow> errno + sg_reply"
  e_time :: "trace \<Rightarrow> int"
  e_spawn :: "trace \<Rightarrow> string list \<Rightarrow> spawn_result"
  e_ifindex :: "trace \<Rightarrow> string \<Rightarrow> nat"
  e_socket :: "trace \<Rightarrow> errno + nat"
  e_get_wol :: "trace \<Rightarrow> nat \<Rightarrow> string \<Rightarrow> errno + (u32 \<times> u32)"
  e_set_wol :: "trace \<Rightarrow> nat \<Rightarrow> string \<Rightarrow> u32 \<Rightarrow> errno option"
  e_fstat :: "trace \<Rightarrow> nat \<Rightarrow> errno + file_stat"
  e_read_fd :: "trace \<Rightarrow> nat \<Rightarrow> file_read"
  e_getpid :: int
  e_readlink :: "trace \<Rightarrow> string \<Rightarrow> errno + string"
  e_realpath :: "trace \<Rightarrow> string \<Rightarrow> errno + string"
  e_i2c_funcs :: "trace \<Rightarrow> nat \<Rightarrow> errno + u64"
  e_i2c_slave :: "trace \<Rightarrow> nat \<Rightarrow> u16 \<Rightarrow> errno option"
  e_smbus_read_byte :: "trace \<Rightarrow> nat \<Rightarrow> u8 \<Rightarrow> errno + u8"
  e_smbus_write_byte :: "trace \<Rightarrow> nat \<Rightarrow> u8 \<Rightarrow> u8 \<Rightarrow> errno option"
  e_smbus_read_word :: "trace \<Rightarrow> nat \<Rightarrow> u8 \<Rightarrow> errno + u16"
  e_smbus_read_block :: "trace \<Rightarrow> nat \<Rightarrow> u8 \<Rightarrow> errno + (u8 \<times> u8 list)"
  e_smbus_write_block :: "trace \<Rightarrow> nat \<Rightarrow> bool \<Rightarrow> u8 \<Rightarrow> u8 list \<Rightarrow> errno option"
  e_cancelled :: "trace \<Rightarrow> bool"
  e_geteuid :: nat
  e_gpio :: gpio_env
  e_sockets :: socket_env

type_synonym 'a io = "(trace, 'a) state"

section \<open>The calls\<close>

definition prim :: "(trace \<Rightarrow> 'r) \<Rightarrow> ('r \<Rightarrow> event) \<Rightarrow> 'r io" where
  "prim f ev = State (\<lambda>h. (f h, h @ [ev (f h)]))"

lemma run_state_prim [simp]: "run_state (prim f ev) h = (f h, h @ [ev (f h)])"
  by (simp add: prim_def)

lemma wp_prim [wp_simps]: "wp (prim f ev) Q h = Q (f h) (h @ [ev (f h)])"
  by (simp add: wp_def)

lemma wp_primI [wp_intros]: "(\<And>r. Q r (h @ [ev r])) \<Longrightarrow> wp (prim f ev) Q h"
  by (simp add: wp_simps)

lemma appends_prim: "(\<And>r. P [ev r]) \<Longrightarrow> appends P (prim f ev)"
  by (auto simp: appends_def)

lemma emits_prim [emits_intros]: "(\<And>r. A (ev r)) \<Longrightarrow> emits A (prim f ev)"
  by (rule appends_prim) simp

lemma seg_prim [seg_intros]: "(\<And>r. P r [ev r]) \<Longrightarrow> seg P (prim f ev)"
  by (simp add: seg_def wp_simps)

named_theorems calls \<open>definitions of the system calls\<close>

definition inb :: "env \<Rightarrow> u16 \<Rightarrow> u8 io" where [calls]:
  "inb E p = prim (\<lambda>h. e_inb E h p) (Inb p)"

definition outb :: "u8 \<Rightarrow> u16 \<Rightarrow> unit io" where [calls]:
  "outb v p = prim (\<lambda>h. ()) (\<lambda>_. Outb p v)"

definition ioperm :: "env \<Rightarrow> u16 \<Rightarrow> nat \<Rightarrow> bool \<Rightarrow> (errno option) io" where [calls]:
  "ioperm E p n on = prim (\<lambda>h. e_ioperm E h p n on) (Ioperm p n on)"

definition access :: "env \<Rightarrow> string \<Rightarrow> access_mode \<Rightarrow> bool io" where [calls]:
  "access E path m = prim (\<lambda>h. e_access E h path m) (Access path m)"

definition open_lock :: "env \<Rightarrow> string \<Rightarrow> (errno + nat) io" where [calls]:
  "open_lock E path = prim (\<lambda>h. e_open_lock E h path) (Open_lock path)"

definition flock :: "env \<Rightarrow> nat \<Rightarrow> bool \<Rightarrow> (errno option) io" where [calls]:
  "flock E fd nonblock = prim (\<lambda>h. e_flock E h fd nonblock) (Flock fd nonblock)"

definition close_fd :: "nat \<Rightarrow> unit io" where [calls]:
  "close_fd fd = prim (\<lambda>h. ()) (\<lambda>_. Close_fd fd)"

definition read_file :: "env \<Rightarrow> string \<Rightarrow> file_read io" where [calls]:
  "read_file E path = prim (\<lambda>h. e_read E h path) (Read_file path)"

definition write_file :: "env \<Rightarrow> string \<Rightarrow> string \<Rightarrow> file_write io" where [calls]:
  "write_file E path s = prim (\<lambda>h. e_write E h path s) (Write_file path s)"

definition list_dir :: "env \<Rightarrow> string \<Rightarrow> (errno + string list) io" where [calls]:
  "list_dir E path = prim (\<lambda>h. e_listdir E h path) (List_dir path)"

definition glob :: "env \<Rightarrow> string \<Rightarrow> (string list option) io" where [calls]:
  "glob E pat = prim (\<lambda>h. e_glob E h pat) (Glob pat)"

definition lstat_regular :: "env \<Rightarrow> string \<Rightarrow> (errno + bool) io" where [calls]:
  "lstat_regular E path = prim (\<lambda>h. e_lstat E h path) (Lstat_regular path)"

definition open_device :: "env \<Rightarrow> string \<Rightarrow> (errno + nat) io" where [calls]:
  "open_device E path = prim (\<lambda>h. e_open_device E h path) (Open_device path)"

definition sg_io :: "env \<Rightarrow> nat \<Rightarrow> u8 list \<Rightarrow> (errno + sg_reply) io" where [calls]:
  "sg_io E fd cdb = prim (\<lambda>h. e_sg_io E h fd cdb) (Sg_io fd cdb)"

definition clock :: "env \<Rightarrow> int io" where [calls]:
  "clock E = prim (\<lambda>h. e_time E h) Clock"

definition sleep_ms :: "nat \<Rightarrow> unit io" where [calls]:
  "sleep_ms n = prim (\<lambda>h. ()) (\<lambda>_. Sleep_ms n)"

definition spawn :: "env \<Rightarrow> string list \<Rightarrow> spawn_result io" where [calls]:
  "spawn E argv = prim (\<lambda>h. e_spawn E h argv) (Spawn argv)"

text \<open>\<^verbatim>\<open>if_nametoindex\<close> (0 when there is no such interface), and the two \<^verbatim>\<open>SIOCETHTOOL\<close> commands:
  \<^verbatim>\<open>ETHTOOL_GWOL\<close> answers \<^verbatim>\<open>supported\<close> and \<^verbatim>\<open>wolopts\<close>, \<^verbatim>\<open>ETHTOOL_SWOL\<close> sets \<^verbatim>\<open>wolopts\<close>.\<close>

definition if_nametoindex :: "env \<Rightarrow> string \<Rightarrow> nat io" where [calls]:
  "if_nametoindex E name = prim (\<lambda>h. e_ifindex E h name) (If_index name)"

definition open_socket :: "env \<Rightarrow> (errno + nat) io" where [calls]:
  "open_socket E = prim (\<lambda>h. e_socket E h) Open_socket"

definition get_wol :: "env \<Rightarrow> nat \<Rightarrow> string \<Rightarrow> (errno + (u32 \<times> u32)) io" where [calls]:
  "get_wol E fd name = prim (\<lambda>h. e_get_wol E h fd name) (Get_wol fd name)"

definition set_wol :: "env \<Rightarrow> nat \<Rightarrow> string \<Rightarrow> u32 \<Rightarrow> (errno option) io" where [calls]:
  "set_wol E fd name opts = prim (\<lambda>h. e_set_wol E h fd name opts) (Set_wol fd name opts)"

definition fstat :: "env \<Rightarrow> nat \<Rightarrow> (errno + file_stat) io" where [calls]:
  "fstat E fd = prim (\<lambda>h. e_fstat E h fd) (Fstat fd)"

text \<open>Reading a descriptor to the end, as a stream opened on it does.\<close>

definition read_fd :: "env \<Rightarrow> nat \<Rightarrow> file_read io" where [calls]:
  "read_fd E fd = prim (\<lambda>h. e_read_fd E h fd) (Read_fd fd)"

definition flock_un :: "nat \<Rightarrow> unit io" where [calls]:
  "flock_un fd = prim (\<lambda>h. ()) (\<lambda>_. Flock_un fd)"

definition readlink :: "env \<Rightarrow> string \<Rightarrow> (errno + string) io" where [calls]:
  "readlink E path = prim (\<lambda>h. e_readlink E h path) (Read_link path)"

definition realpath :: "env \<Rightarrow> string \<Rightarrow> (errno + string) io" where [calls]:
  "realpath E path = prim (\<lambda>h. e_realpath E h path) (Realpath path)"

text \<open>\<^verbatim>\<open>ioctl\<close> on an I2C adapter: \<^verbatim>\<open>I2C_FUNCS\<close>, \<^verbatim>\<open>I2C_SLAVE\<close> and the \<^verbatim>\<open>I2C_SMBUS\<close> transactions.  A block
  read answers the count byte and the data; the flag of a block write tells \<^verbatim>\<open>I2C_SMBUS_BLOCK_DATA\<close> from
  \<^verbatim>\<open>I2C_SMBUS_I2C_BLOCK_DATA\<close>.\<close>

definition i2c_funcs :: "env \<Rightarrow> nat \<Rightarrow> (errno + u64) io" where [calls]:
  "i2c_funcs E fd = prim (\<lambda>h. e_i2c_funcs E h fd) (I2c_funcs fd)"

definition i2c_slave :: "env \<Rightarrow> nat \<Rightarrow> u16 \<Rightarrow> (errno option) io" where [calls]:
  "i2c_slave E fd a = prim (\<lambda>h. e_i2c_slave E h fd a) (I2c_slave fd a)"

definition smbus_read_byte :: "env \<Rightarrow> nat \<Rightarrow> u8 \<Rightarrow> (errno + u8) io" where [calls]:
  "smbus_read_byte E fd r = prim (\<lambda>h. e_smbus_read_byte E h fd r) (Smbus_read_byte fd r)"

definition smbus_write_byte :: "env \<Rightarrow> nat \<Rightarrow> u8 \<Rightarrow> u8 \<Rightarrow> (errno option) io" where [calls]:
  "smbus_write_byte E fd r v = prim (\<lambda>h. e_smbus_write_byte E h fd r v) (Smbus_write_byte fd r v)"

definition smbus_read_word :: "env \<Rightarrow> nat \<Rightarrow> u8 \<Rightarrow> (errno + u16) io" where [calls]:
  "smbus_read_word E fd r = prim (\<lambda>h. e_smbus_read_word E h fd r) (Smbus_read_word fd r)"

definition smbus_read_block :: "env \<Rightarrow> nat \<Rightarrow> u8 \<Rightarrow> (errno + (u8 \<times> u8 list)) io" where [calls]:
  "smbus_read_block E fd r = prim (\<lambda>h. e_smbus_read_block E h fd r) (Smbus_read_block fd r)"

definition smbus_write_block :: "env \<Rightarrow> nat \<Rightarrow> bool \<Rightarrow> u8 \<Rightarrow> u8 list \<Rightarrow> (errno option) io" where [calls]:
  "smbus_write_block E fd b r d = prim (\<lambda>h. e_smbus_write_block E h fd b r d) (Smbus_write_block fd b r d)"

text \<open>Reading a flag that a signal handler sets.\<close>

definition poll_cancelled :: "env \<Rightarrow> bool io" where [calls]:
  "poll_cancelled E = prim (\<lambda>h. e_cancelled E h) Cancelled"

text \<open>The GPIO character device: \<^verbatim>\<open>GPIO_GET_CHIPINFO\<close> answers name and number of lines,
  \<^verbatim>\<open>GPIO_V2_GET_LINEINFO\<close> the flags of a line, \<^verbatim>\<open>GPIO_V2_GET_LINE\<close> (flags 0: as is) a line descriptor;
  \<^verbatim>\<open>GPIO_V2_LINE_GET_VALUES\<close> and \<^verbatim>\<open>GPIO_V2_LINE_SET_CONFIG\<close> take the mask of the lines, the latter as output
  with values.\<close>

definition gpio_chipinfo :: "env \<Rightarrow> nat \<Rightarrow> (errno + (string \<times> u32)) io" where [calls]:
  "gpio_chipinfo E fd = prim (\<lambda>h. e_gpio_chipinfo (e_gpio E) h fd) (\<lambda>r. Gpio (Gpio_chipinfo fd r))"

definition gpio_lineinfo :: "env \<Rightarrow> nat \<Rightarrow> u32 \<Rightarrow> (errno + u64) io" where [calls]:
  "gpio_lineinfo E fd n = prim (\<lambda>h. e_gpio_lineinfo (e_gpio E) h fd n) (\<lambda>r. Gpio (Gpio_lineinfo fd n r))"

definition gpio_get_line :: "env \<Rightarrow> nat \<Rightarrow> u32 list \<Rightarrow> (errno + nat) io" where [calls]:
  "gpio_get_line E fd ns = prim (\<lambda>h. e_gpio_get_line (e_gpio E) h fd ns) (\<lambda>r. Gpio (Gpio_get_line fd ns r))"

definition gpio_get_values :: "env \<Rightarrow> nat \<Rightarrow> u64 \<Rightarrow> (errno + u64) io" where [calls]:
  "gpio_get_values E fd m = prim (\<lambda>h. e_gpio_get_values (e_gpio E) h fd m) (\<lambda>r. Gpio (Gpio_get_values fd m r))"

definition gpio_set_config :: "env \<Rightarrow> nat \<Rightarrow> u64 \<Rightarrow> u64 \<Rightarrow> (errno option) io" where [calls]:
  "gpio_set_config E fd m v = prim (\<lambda>h. e_gpio_set_config (e_gpio E) h fd m v) (\<lambda>r. Gpio (Gpio_set_config fd m v r))"

text \<open>Local sockets.  \<open>monotonic_ms\<close> is \<^verbatim>\<open>CLOCK_MONOTONIC\<close> in milliseconds; \<open>poll_fd\<close> waits for one descriptor to become
  writable or readable; an empty answer of \<open>recv_fd\<close> is end of file.\<close>

definition monotonic_ms :: "env \<Rightarrow> (errno + int) io" where [calls]:
  "monotonic_ms E = prim (\<lambda>h. e_monotonic (e_sockets E) h) (\<lambda>r. Net (Monotonic_ms r))"

definition poll_fd :: "env \<Rightarrow> nat \<Rightarrow> bool \<Rightarrow> int \<Rightarrow> (errno + bool) io" where [calls]:
  "poll_fd E fd w t = prim (\<lambda>h. e_poll (e_sockets E) h fd w t) (\<lambda>r. Net (Poll_fd fd w t r))"

definition send_fd :: "env \<Rightarrow> nat \<Rightarrow> u8 list \<Rightarrow> (errno + nat) io" where [calls]:
  "send_fd E fd s = prim (\<lambda>h. e_send (e_sockets E) h fd s) (\<lambda>r. Net (Send fd s r))"

definition recv_fd :: "env \<Rightarrow> nat \<Rightarrow> nat \<Rightarrow> (errno + u8 list) io" where [calls]:
  "recv_fd E fd n = prim (\<lambda>h. e_recv (e_sockets E) h fd n) (\<lambda>r. Net (Recv fd n r))"

definition socket_timeout :: "env \<Rightarrow> nat \<Rightarrow> nat \<Rightarrow> (errno option) io" where [calls]:
  "socket_timeout E fd s = prim (\<lambda>h. e_socket_timeout (e_sockets E) h fd s) (\<lambda>r. Net (Socket_timeout fd s r))"

definition peer_credentials :: "env \<Rightarrow> nat \<Rightarrow> ((nat \<times> int) option) io" where [calls]:
  "peer_credentials E fd = prim (\<lambda>h. e_peer (e_sockets E) h fd) (\<lambda>r. Net (Peer_credentials fd r))"

definition lstat_socket :: "env \<Rightarrow> string \<Rightarrow> (errno + socket_stat) io" where [calls]:
  "lstat_socket E path = prim (\<lambda>h. e_lstat_socket (e_sockets E) h path) (\<lambda>r. Net (Lstat_socket path r))"

definition socket_unix :: "env \<Rightarrow> (errno + nat) io" where [calls]:
  "socket_unix E = prim (\<lambda>h. e_socket_unix (e_sockets E) h) (\<lambda>r. Net (Socket_unix r))"

definition connect_unix :: "env \<Rightarrow> nat \<Rightarrow> string \<Rightarrow> (errno option) io" where [calls]:
  "connect_unix E fd path = prim (\<lambda>h. e_connect (e_sockets E) h fd path) (\<lambda>r. Net (Connect_unix fd path r))"

definition bind_unix :: "env \<Rightarrow> nat \<Rightarrow> string \<Rightarrow> (errno option) io" where [calls]:
  "bind_unix E fd path = prim (\<lambda>h. e_bind (e_sockets E) h fd path) (\<lambda>r. Net (Bind_unix fd path r))"

text \<open>\<^verbatim>\<open>chmod(path, 0600)\<close> and \<^verbatim>\<open>listen(fd, 8)\<close> with the first error.\<close>

definition chmod_listen :: "env \<Rightarrow> nat \<Rightarrow> string \<Rightarrow> (errno option) io" where [calls]:
  "chmod_listen E fd path = prim (\<lambda>h. e_chmod_listen (e_sockets E) h fd path) (\<lambda>r. Net (Chmod_listen fd path r))"

definition accept_fd :: "env \<Rightarrow> nat \<Rightarrow> (errno + nat) io" where [calls]:
  "accept_fd E fd = prim (\<lambda>h. e_accept (e_sockets E) h fd) (\<lambda>r. Net (Accept fd r))"

definition unlink :: "env \<Rightarrow> string \<Rightarrow> (errno option) io" where [calls]:
  "unlink E path = prim (\<lambda>h. e_unlink (e_sockets E) h path) (\<lambda>r. Net (Unlink path r))"

text \<open>Each call appends its own event; used as the first step of a \<open>seg\<close> proof.\<close>

lemma seg_read_file: "seg (\<lambda>r es. es = [Read_file q r]) (read_file E q)"
  by (simp add: read_file_def seg_prim)

lemma seg_lstat: "seg (\<lambda>r es. es = [Lstat_regular q r]) (lstat_regular E q)"
  by (simp add: lstat_regular_def seg_prim)

lemma seg_write_file: "seg (\<lambda>r es. es = [Write_file q s r]) (write_file E q s)"
  by (simp add: write_file_def seg_prim)

lemma seg_clock: "seg (\<lambda>r es. es = [Clock r]) (clock E)"
  by (simp add: clock_def seg_prim)

lemma seg_list_dir: "seg (\<lambda>r es. es = [List_dir d r]) (list_dir E d)"
  by (simp add: list_dir_def seg_prim)

lemma seg_open_socket: "seg (\<lambda>r es. es = [Open_socket r]) (open_socket E)"
  unfolding open_socket_def by (rule seg_prim) simp

lemma seg_close_fd: "seg (\<lambda>r es. es = [Close_fd fd]) (close_fd fd)"
  unfolding close_fd_def by (rule seg_prim) simp

lemma seg_if_nametoindex: "seg (\<lambda>r es. es = [If_index n r]) (if_nametoindex E n)"
  by (simp add: if_nametoindex_def seg_prim)

lemma seg_access: "seg (\<lambda>r es. es = [Access q m r]) (access E q m)"
  by (simp add: access_def seg_prim)

lemma seg_open_lock: "seg (\<lambda>r es. es = [Open_lock q r]) (open_lock E q)"
  by (simp add: open_lock_def seg_prim)

lemma seg_flock: "seg (\<lambda>r es. es = [Flock fd b r]) (flock E fd b)"
  by (simp add: flock_def seg_prim)

lemma seg_realpath: "seg (\<lambda>r es. es = [Realpath q r]) (realpath E q)"
  by (simp add: realpath_def seg_prim)

lemma seg_fstat: "seg (\<lambda>r es. es = [Fstat fd r]) (fstat E fd)"
  by (simp add: fstat_def seg_prim)

lemma seg_get_wol: "seg (\<lambda>r es. es = [Get_wol fd n r]) (get_wol E fd n)"
  by (simp add: get_wol_def seg_prim)

lemma seg_set_wol: "seg (\<lambda>r es. es = [Set_wol fd n v r]) (set_wol E fd n v)"
  by (simp add: set_wol_def seg_prim)

section \<open>Environment variables and paths\<close>

text \<open>A machine on which every file is missing and every device fails; the examples start from it.\<close>

definition null_gpio :: gpio_env where [simp]:
  "null_gpio = \<lparr>e_gpio_chipinfo = (\<lambda>_ _. Inl EIO), e_gpio_lineinfo = (\<lambda>_ _ _. Inl EIO), e_gpio_get_line = (\<lambda>_ _ _. Inl EIO),
     e_gpio_get_values = (\<lambda>_ _ _. Inl EIO), e_gpio_set_config = (\<lambda>_ _ _ _. Some EIO)\<rparr>"

definition null_sockets :: socket_env where [simp]:
  "null_sockets = \<lparr>e_monotonic = (\<lambda>_. Inr 0), e_poll = (\<lambda>_ _ _ _. Inr False), e_send = (\<lambda>_ _ _. Inl EIO),
     e_recv = (\<lambda>_ _ _. Inl EIO), e_socket_timeout = (\<lambda>_ _ _. None), e_peer = (\<lambda>_ _. None),
     e_lstat_socket = (\<lambda>_ _. Inl ENOENT), e_socket_unix = (\<lambda>_. Inl EIO), e_connect = (\<lambda>_ _ _. Some ECONNREFUSED),
     e_bind = (\<lambda>_ _ _. Some EIO), e_chmod_listen = (\<lambda>_ _ _. Some EIO), e_accept = (\<lambda>_ _. Inl EIO), e_unlink = (\<lambda>_ _. None)\<rparr>"

definition null_env :: env where [simp]:
  "null_env = \<lparr>e_getenv = (\<lambda>_. None), e_inb = (\<lambda>_ _. 0), e_ioperm = (\<lambda>_ _ _ _. None),
     e_access = (\<lambda>_ _ _. False), e_open_lock = (\<lambda>_ _. Inl ENOENT), e_flock = (\<lambda>_ _ _. None),
     e_read = (\<lambda>_ _. Open_failed ENOENT), e_write = (\<lambda>_ _ _. Wopen_failed ENOENT),
     e_listdir = (\<lambda>_ _. Inr []), e_glob = (\<lambda>_ _. None), e_lstat = (\<lambda>_ _. Inl ENOENT),
     e_open_device = (\<lambda>_ _. Inl ENOENT), e_sg_io = (\<lambda>_ _ _. Inl EIO), e_time = (\<lambda>_. 0),
     e_spawn = (\<lambda>_ _. Exited 0), e_ifindex = (\<lambda>_ _. 0), e_socket = (\<lambda>_. Inl EACCES),
     e_get_wol = (\<lambda>_ _ _. Inl ENODEV), e_set_wol = (\<lambda>_ _ _ _. Some ENODEV),
     e_fstat = (\<lambda>_ _. Inl EIO), e_read_fd = (\<lambda>_ _. File_data [] None), e_getpid = 1, e_readlink = (\<lambda>_ _. Inl ENOENT), e_realpath = (\<lambda>_ _. Inl ENOENT),
     e_i2c_funcs = (\<lambda>_ _. Inl EIO), e_i2c_slave = (\<lambda>_ _ _. None), e_smbus_read_byte = (\<lambda>_ _ _. Inl EIO),
     e_smbus_write_byte = (\<lambda>_ _ _ _. Some EIO), e_smbus_read_word = (\<lambda>_ _ _. Inl EIO),
     e_smbus_read_block = (\<lambda>_ _ _. Inl EIO), e_smbus_write_block = (\<lambda>_ _ _ _ _. Some EIO),
     e_cancelled = (\<lambda>_. False), e_geteuid = 0, e_gpio = null_gpio, e_sockets = null_sockets\<rparr>"

definition PATH_MAX :: nat where "PATH_MAX = 4096"

text \<open>\<^verbatim>\<open>snprintf\<close> into a \<^verbatim>\<open>PATH_MAX\<close> buffer without a test of its result.\<close>

definition clipped :: "string \<Rightarrow> string" where
  "clipped s = take (PATH_MAX - 1) s"

text \<open>\<^verbatim>\<open>override != NULL && override[0] != 0 ? override : dflt\<close>.\<close>

definition env_or :: "env \<Rightarrow> string \<Rightarrow> string \<Rightarrow> string" where
  "env_or E name dflt = (case e_getenv E name of Some v \<Rightarrow> if v = [] then dflt else v | None \<Rightarrow> dflt)"

end
