(* ===== verification/Super_IO.thy ===== *)
theory Super_IO
  imports Platform_IO
begin

text \<open>
  The Super I/O transport (\<^verbatim>\<open>superio/it86x.c\<close> and, for ARM64 builds,
  \<^verbatim>\<open>superio/it86x_unavailable.c\<close>): opening the IT8613 under the controller lock, indexed
  register access through the port pairs 0x2e/0x2f and 0xa35/0xa36, and closing it again.
  Which of the two files is linked is a build decision, so the callers take the transport as
  a record of operations; the locale \<open>superio_transport\<close> is what they rely on and both files
  are interpretations of it.
\<close>

unbundle bit_operations_syntax

section \<open>Data\<close>

abbreviation SIO_INDEX :: u16 where "SIO_INDEX \<equiv> 0x2e"
abbreviation SIO_DATA :: u16 where "SIO_DATA \<equiv> 0x2f"
abbreviation HWM_INDEX :: u16 where "HWM_INDEX \<equiv> 0xa35"
abbreviation HWM_DATA :: u16 where "HWM_DATA \<equiv> 0xa36"
abbreviation IT8613_ID :: u16 where "IT8613_ID \<equiv> 0x8613"

definition IT8613_LOCK :: string where
  "IT8613_LOCK = ''/run/ugreenctl-it8613.lock''"

text \<open>\<^verbatim>\<open>struct it86x_device\<close>; \<open>None\<close> is the file descriptor \<^verbatim>\<open>-1\<close>.\<close>

record it86x_device =
  ports_enabled :: bool
  config_open :: bool
  lock_fd :: "nat option"
  chip_id :: u16
  revision :: u8

definition it86x_cleared :: it86x_device where
  "it86x_cleared = \<lparr>ports_enabled = False, config_open = False, lock_fd = None, chip_id = 0, revision = 0\<rparr>"

text \<open>The six functions of \<^verbatim>\<open>superio/it86x.h\<close>.\<close>

record transport =
  t_open :: "(errno + it86x_device) io"
  t_close :: "it86x_device \<Rightarrow> unit io"
  t_hwm_read :: "u8 \<Rightarrow> u8 io"
  t_hwm_write :: "u8 \<Rightarrow> u8 \<Rightarrow> unit io"
  t_sio_read :: "u8 \<Rightarrow> u8 io"
  t_sio_write :: "u8 \<Rightarrow> u8 \<Rightarrow> unit io"

section \<open>superio/it86x.c\<close>

definition controller_owner_paths :: "string list" where
  "controller_owner_paths =
     [''/proc/it86'', ''/sys/module/ug_it86x_sio'', ''/sys/module/ug_it86x_cpufan'', ''/sys/module/it87'']"

text \<open>\<^verbatim>\<open>for (path = paths; *path != NULL; ++path) if (access(*path, F_OK) == 0) return *path;\<close>\<close>

fun first_accessible :: "env \<Rightarrow> string list \<Rightarrow> (string option) io" where
  "first_accessible E [] = ret None"
| "first_accessible E (p # ps) =
     do { found \<leftarrow> access E p F_OK; if found then ret (Some p) else first_accessible E ps }"

definition active_controller_owner :: "env \<Rightarrow> (string option) io" where
  "active_controller_owner E = first_accessible E controller_owner_paths"

definition sio_enter :: "unit io" where
  "sio_enter = do {
     outb 0x87 SIO_INDEX; outb 0x01 SIO_INDEX; outb 0x55 SIO_INDEX; outb 0x55 SIO_INDEX }"

definition sio_exit :: "unit io" where
  "sio_exit = do { outb 0x02 SIO_INDEX; outb 0x02 SIO_DATA }"

definition it86x_sio_read :: "env \<Rightarrow> u8 \<Rightarrow> u8 io" where
  "it86x_sio_read E reg = do { outb reg SIO_INDEX; inb E SIO_DATA }"

definition it86x_sio_write :: "u8 \<Rightarrow> u8 \<Rightarrow> unit io" where
  "it86x_sio_write reg v = do { outb reg SIO_INDEX; outb v SIO_DATA }"

definition it86x_hwm_read :: "env \<Rightarrow> u8 \<Rightarrow> u8 io" where
  "it86x_hwm_read E reg = do { outb reg HWM_INDEX; inb E HWM_DATA }"

definition it86x_hwm_write :: "u8 \<Rightarrow> u8 \<Rightarrow> unit io" where
  "it86x_hwm_write reg v = do { outb reg HWM_INDEX; outb v HWM_DATA }"

definition it86x_close :: "env \<Rightarrow> it86x_device \<Rightarrow> unit io" where
  "it86x_close E d = do {
     (if config_open d then sio_exit else ret ());
     (if ports_enabled d
      then do { _ \<leftarrow> ioperm E HWM_INDEX 2 False; _ \<leftarrow> ioperm E SIO_INDEX 2 False; ret () }
      else ret ());
     (case lock_fd d of Some fd \<Rightarrow> close_fd fd | None \<Rightarrow> ret ()) }"

text \<open>The identification half of \<^verbatim>\<open>it86x_open\<close>, once both port ranges are enabled: \<open>d\<close> holds
  the lock and has \<^verbatim>\<open>ports_enabled\<close> set.\<close>

definition it86x_identify :: "env \<Rightarrow> it86x_device \<Rightarrow> (errno + it86x_device) io" where
  "it86x_identify E d = do {
     sio_enter;
     hi \<leftarrow> it86x_sio_read E 0x20;
     lo \<leftarrow> it86x_sio_read E 0x21;
     rev \<leftarrow> it86x_sio_read E 0x22;
     let d = d\<lparr>config_open := True, chip_id := push_bit 8 (ucast hi) OR ucast lo,
               revision := rev AND 0x0f\<rparr>;
     it86x_sio_write 0x07 0x04;
     active \<leftarrow> it86x_sio_read E 0x30;
     (if active AND 0x01 = 0 then do { it86x_close E d; fail ENODEV }
      else if chip_id d \<noteq> IT8613_ID then do { it86x_close E d; fail ENODEV }
      else ok d) }"

definition it86x_open :: "env \<Rightarrow> (errno + it86x_device) io" where
  "it86x_open E = do {
     owner \<leftarrow> active_controller_owner E;
     (if owner \<noteq> None then fail EBUSY
      else do {
        r \<leftarrow> open_lock E IT8613_LOCK;
        (case r of Inl e \<Rightarrow> fail e
         | Inr fd \<Rightarrow> do {
             let d = it86x_cleared\<lparr>lock_fd := Some fd\<rparr>;
             l \<leftarrow> flock E fd False;
             (case l of Some e \<Rightarrow> do { it86x_close E d; fail e }
              | None \<Rightarrow> do {
                  p \<leftarrow> ioperm E SIO_INDEX 2 True;
                  (case p of Some e \<Rightarrow> do { it86x_close E d; fail e }
                   | None \<Rightarrow> do {
                       q \<leftarrow> ioperm E HWM_INDEX 2 True;
                       (case q of Some e \<Rightarrow> do {
                            _ \<leftarrow> ioperm E SIO_INDEX 2 False; it86x_close E d; fail e }
                        | None \<Rightarrow> it86x_identify E (d\<lparr>ports_enabled := True\<rparr>)) }) }) }) }) }"

definition it86x :: "env \<Rightarrow> transport" where
  "it86x E = \<lparr>t_open = it86x_open E, t_close = it86x_close E,
     t_hwm_read = it86x_hwm_read E, t_hwm_write = it86x_hwm_write,
     t_sio_read = it86x_sio_read E, t_sio_write = it86x_sio_write\<rparr>"

section \<open>superio/it86x_unavailable.c\<close>

definition it86x_unavailable :: transport where
  "it86x_unavailable = \<lparr>t_open = fail ENOTSUP, t_close = (\<lambda>_. ret ()),
     t_hwm_read = (\<lambda>_. ret 0xff), t_hwm_write = (\<lambda>_ _. ret ()),
     t_sio_read = (\<lambda>_. ret 0xff), t_sio_write = (\<lambda>_ _. ret ())\<rparr>"

section \<open>The port discipline\<close>

text \<open>
  A monitor over the history: what the process holds (the lock file, the exclusive lock, the
  two port ranges) and where the chip's configuration mode stands (the number of key bytes
  87 01 55 55 received; 4 is configuration mode, in which \<open>m_idx\<close> is the selected
  register).  A step that the discipline forbids has no next state: port access without the
  lock and the permission, register access outside configuration mode, giving up the lock or
  a permission while configuration mode is still open.
\<close>

record monitor =
  m_fd :: "nat option"
  m_locked :: bool
  m_sio :: bool
  m_hwm :: bool
  m_cfg :: nat
  m_idx :: u8

definition mon_idle :: monitor where
  "mon_idle = \<lparr>m_fd = None, m_locked = False, m_sio = False, m_hwm = False, m_cfg = 0, m_idx = 0\<rparr>"

definition config_key :: "u8 list" where
  "config_key = [0x87, 0x01, 0x55, 0x55]"

fun mon_step :: "event \<Rightarrow> monitor \<Rightarrow> monitor option" where
  "mon_step (Open_lock path r) m =
     (case r of Inl _ \<Rightarrow> Some m
      | Inr fd \<Rightarrow> if m_fd m = None then Some (m\<lparr>m_fd := Some fd\<rparr>) else None)"
| "mon_step (Flock fd nonblock r) m =
     (case r of Some _ \<Rightarrow> Some m
      | None \<Rightarrow> if m_fd m = Some fd then Some (m\<lparr>m_locked := True\<rparr>) else None)"
| "mon_step (Close_fd fd) m =
     (if m_fd m = Some fd \<and> \<not> m_sio m \<and> \<not> m_hwm m \<and> m_cfg m = 0
      then Some (m\<lparr>m_fd := None, m_locked := False\<rparr>) else None)"
| "mon_step (Ioperm p n on r) m =
     (if on then
        (if \<not> m_locked m then None
         else if r \<noteq> None then Some m
         else if p = SIO_INDEX then Some (m\<lparr>m_sio := True\<rparr>)
         else if p = HWM_INDEX then Some (m\<lparr>m_hwm := True\<rparr>) else None)
      else if m_cfg m \<noteq> 0 then None
      else if p = SIO_INDEX then Some (m\<lparr>m_sio := False\<rparr>)
      else if p = HWM_INDEX then Some (m\<lparr>m_hwm := False\<rparr>) else None)"
| "mon_step (Outb p v) m =
     (if \<not> m_locked m then None
      else if p = SIO_INDEX then
        (if \<not> m_sio m then None
         else if m_cfg m = 4 then Some (m\<lparr>m_idx := v\<rparr>)
         else if m_cfg m < 4 \<and> v = config_key ! m_cfg m then Some (m\<lparr>m_cfg := Suc (m_cfg m)\<rparr>)
         else None)
      else if p = SIO_DATA then
        (if \<not> m_sio m \<or> m_cfg m \<noteq> 4 then None
         else if m_idx m = 0x02 \<and> v = 0x02 then Some (m\<lparr>m_cfg := 0, m_idx := 0\<rparr>)
         else Some m)
      else if p = HWM_INDEX \<or> p = HWM_DATA then (if m_hwm m then Some m else None)
      else None)"
| "mon_step (Inb p v) m =
     (if \<not> m_locked m then None
      else if p = SIO_DATA then (if m_sio m \<and> m_cfg m = 4 then Some m else None)
      else if p = HWM_DATA then (if m_hwm m then Some m else None)
      else None)"
| "mon_step _ m = Some m"

definition mon_run :: "trace \<Rightarrow> monitor option" where
  "mon_run h = foldl (\<lambda>m e. Option.bind m (mon_step e)) (Some mon_idle) h"

lemma mon_run_Nil [simp]: "mon_run [] = Some mon_idle"
  by (simp add: mon_run_def)

primrec mon_from :: "trace \<Rightarrow> monitor \<Rightarrow> monitor option" where
  "mon_from [] m = Some m"
| "mon_from (e # es) m = Option.bind (mon_step e m) (mon_from es)"

lemma foldl_mon_from:
  "foldl (\<lambda>m e. Option.bind m (mon_step e)) x es = Option.bind x (mon_from es)"
proof (induction es arbitrary: x)
  case Nil
  then show ?case by (cases x) auto
next
  case (Cons e es)
  then show ?case by (cases x) auto
qed

lemma mon_run_append [simp]: "mon_run (h @ es) = Option.bind (mon_run h) (mon_from es)"
  unfolding mon_run_def foldl_append by (rule foldl_mon_from)

text \<open>Nothing held: the state between two operations.\<close>

definition sio_idle :: "trace \<Rightarrow> bool" where
  "sio_idle h \<longleftrightarrow> mon_run h = Some mon_idle"

text \<open>The device is open: lock and both permissions held, chip in configuration mode.\<close>

definition mon_open :: "nat \<Rightarrow> u8 \<Rightarrow> monitor" where
  "mon_open fd i = \<lparr>m_fd = Some fd, m_locked = True, m_sio = True, m_hwm = True, m_cfg = 4, m_idx = i\<rparr>"

definition sio_active :: "it86x_device \<Rightarrow> trace \<Rightarrow> bool" where
  "sio_active d h \<longleftrightarrow> ports_enabled d \<and> config_open d \<and>
     (\<exists>fd i. lock_fd d = Some fd \<and> mon_run h = Some (mon_open fd i))"

lemmas mon_defs = mon_idle_def mon_open_def config_key_def it86x_cleared_def

section \<open>The interface the callers rely on\<close>

locale superio_transport =
  fixes T :: transport
    and idle :: "trace \<Rightarrow> bool"
    and active :: "it86x_device \<Rightarrow> trace \<Rightarrow> bool"
  assumes open_spec: "idle h \<Longrightarrow>
      wp (t_open T) (\<lambda>r h'. case r of Inl e \<Rightarrow> idle h' | Inr d \<Rightarrow> active d h') h"
    and close_spec: "active d h \<Longrightarrow> wp (t_close T d) (\<lambda>_ h'. idle h') h"
    and hwm_read_spec: "active d h \<Longrightarrow> wp (t_hwm_read T r) (\<lambda>_ h'. active d h') h"
    and hwm_write_spec: "active d h \<Longrightarrow> wp (t_hwm_write T r v) (\<lambda>_ h'. active d h') h"
    and sio_read_spec: "active d h \<Longrightarrow> r \<noteq> 0x02 \<Longrightarrow> wp (t_sio_read T r) (\<lambda>_ h'. active d h') h"
    and sio_write_spec: "active d h \<Longrightarrow> r \<noteq> 0x02 \<Longrightarrow> wp (t_sio_write T r v) (\<lambda>_ h'. active d h') h"
begin

lemmas access_specs = hwm_read_spec hwm_write_spec sio_read_spec sio_write_spec

text \<open>The shape every client has: open, work on the open device, close on every path.\<close>

lemma session_idle:
  assumes "idle h"
    and body: "\<And>d g. active d g \<Longrightarrow> wp (body d) (\<lambda>_ g'. idle g') g"
  shows "wp (bindE (t_open T) body) (\<lambda>_ h'. idle h') h"
  by (simp add: wp_bindE)
    (rule wp_mono [OF open_spec [OF assms(1)]], auto split: sum.splits intro: body)

lemma close_then_return: "active d h \<Longrightarrow> wp (t_close T d) (\<lambda>_. wp (ret x) (\<lambda>_ h'. idle h')) h"
  by (simp add: wp_simps close_spec)

end

section \<open>Both providers\<close>

lemma first_accessible_idle:
  "sio_idle h \<Longrightarrow> wp (first_accessible E ps) (\<lambda>_ h'. sio_idle h') h"
  by (induction ps arbitrary: h) (auto simp: calls sio_idle_def intro!: wp_intros)

lemma sio_close_spec: "sio_active d h \<Longrightarrow> wp (it86x_close E d) (\<lambda>_ h'. sio_idle h') h"
  unfolding it86x_close_def sio_exit_def calls
  by (intro wp_intros) (auto simp: sio_active_def sio_idle_def mon_defs)

lemma sio_read_active:
  "sio_active d h \<Longrightarrow> wp (it86x_sio_read E r) (\<lambda>_ h'. sio_active d h') h"
  unfolding it86x_sio_read_def calls
  by (intro wp_intros) (auto simp: sio_active_def mon_defs)

lemma sio_write_active:
  "sio_active d h \<Longrightarrow> r \<noteq> 0x02 \<Longrightarrow> wp (it86x_sio_write r v) (\<lambda>_ h'. sio_active d h') h"
  unfolding it86x_sio_write_def calls
  by (intro wp_intros) (auto simp: sio_active_def mon_defs)

lemma hwm_read_active:
  "sio_active d h \<Longrightarrow> wp (it86x_hwm_read E r) (\<lambda>_ h'. sio_active d h') h"
  unfolding it86x_hwm_read_def calls
  by (intro wp_intros) (auto simp: sio_active_def mon_defs)

lemma hwm_write_active:
  "sio_active d h \<Longrightarrow> wp (it86x_hwm_write r v) (\<lambda>_ h'. sio_active d h') h"
  unfolding it86x_hwm_write_def calls
  by (intro wp_intros) (auto simp: sio_active_def mon_defs)

lemma it86x_identify_spec:
  assumes "mon_run h = Some ((mon_open fd i)\<lparr>m_cfg := 0\<rparr>)" "lock_fd d = Some fd" "ports_enabled d"
  shows "wp (it86x_identify E d)
           (\<lambda>r h'. case r of Inl e \<Rightarrow> sio_idle h' | Inr d' \<Rightarrow> sio_active d' h' \<and> chip_id d' = IT8613_ID) h"
  unfolding it86x_identify_def sio_enter_def it86x_sio_read_def it86x_sio_write_def
    it86x_close_def sio_exit_def calls
  by (intro wp_intros) (use assms in \<open>auto simp: sio_active_def sio_idle_def mon_defs\<close>)

lemma it86x_open_strong_spec:
  assumes "sio_idle h"
  shows "wp (it86x_open E)
           (\<lambda>r h'. case r of Inl e \<Rightarrow> sio_idle h' | Inr d \<Rightarrow> sio_active d h' \<and> chip_id d = IT8613_ID) h"
  unfolding it86x_open_def active_controller_owner_def
proof (rule wp_bindI, rule wp_mono [OF first_accessible_idle [OF assms]], goal_cases)
  case (1 owner g)
  then have "mon_run g = Some mon_idle" by (simp add: sio_idle_def)
  then show ?case
    unfolding it86x_close_def calls
    by (intro wp_intros it86x_identify_spec [where i = 0])
      (auto simp: sio_idle_def mon_defs)
qed

interpretation x86: superio_transport "it86x E" sio_idle sio_active for E
proof unfold_locales
  fix h assume "sio_idle h"
  from it86x_open_strong_spec [OF this, of E]
  show "wp (t_open (it86x E)) (\<lambda>r h'. case r of Inl e \<Rightarrow> sio_idle h' | Inr d \<Rightarrow> sio_active d h') h"
    by (auto simp: it86x_def intro: wp_mono split: sum.splits)
qed (auto simp: it86x_def sio_close_spec sio_read_active sio_write_active hwm_read_active hwm_write_active)

interpretation arm: superio_transport it86x_unavailable idle "\<lambda>d h. False" for idle
  by unfold_locales (auto simp: it86x_unavailable_def wp_simps)

section \<open>An index/data register file\<close>

text \<open>
  How the chip's registers answer, for the theorems that say an operation succeeds: the index
  port selects a register, the data port reads and writes it.  \<open>regs_from\<close> replays a history;
  \<open>register_file\<close> says that reading the data port returns what was last written to the
  selected register.
\<close>

fun regs_step :: "u16 \<Rightarrow> u16 \<Rightarrow> event \<Rightarrow> u8 \<times> (u8 \<Rightarrow> u8) \<Rightarrow> u8 \<times> (u8 \<Rightarrow> u8)" where
  "regs_step ip dp (Outb p v) (i, r) =
     (if p = ip then (v, r) else if p = dp then (i, r(i := v)) else (i, r))"
| "regs_step ip dp _ s = s"

definition regs_from :: "u16 \<Rightarrow> u16 \<Rightarrow> (u8 \<Rightarrow> u8) \<Rightarrow> trace \<Rightarrow> u8 \<times> (u8 \<Rightarrow> u8)" where
  "regs_from ip dp base h = fold (regs_step ip dp) h (0, base)"

lemma regs_from_append [simp]:
  "regs_from ip dp base (h @ es) = fold (regs_step ip dp) es (regs_from ip dp base h)"
  by (simp add: regs_from_def)

definition register_file :: "env \<Rightarrow> u16 \<Rightarrow> u16 \<Rightarrow> (u8 \<Rightarrow> u8) \<Rightarrow> bool" where
  "register_file E ip dp base \<longleftrightarrow>
     (\<forall>h. e_inb E h dp = snd (regs_from ip dp base h) (fst (regs_from ip dp base h)))"

text \<open>A machine on which opening the chip works: no owner, the lock and the ports are granted,
  and the configuration registers are a register file that identifies an active IT8613.\<close>

definition sio_ready :: "env \<Rightarrow> (u8 \<Rightarrow> u8) \<Rightarrow> bool" where
  "sio_ready E base \<longleftrightarrow>
     (\<forall>h. \<forall>p \<in> set controller_owner_paths. \<not> e_access E h p F_OK) \<and>
     (\<forall>h. e_open_lock E h IT8613_LOCK = Inr 3) \<and> (\<forall>h. e_flock E h 3 False = None) \<and>
     (\<forall>h p n on. e_ioperm E h p n on = None) \<and>
     register_file E SIO_INDEX SIO_DATA base"

abbreviation sio_regs :: "(u8 \<Rightarrow> u8) \<Rightarrow> trace \<Rightarrow> u8 \<Rightarrow> u8" where
  "sio_regs base h \<equiv> snd (regs_from SIO_INDEX SIO_DATA base h)"

definition it8613_present :: "(u8 \<Rightarrow> u8) \<Rightarrow> bool" where
  "it8613_present r \<longleftrightarrow> r 0x20 = 0x86 \<and> r 0x21 = 0x13 \<and> r 0x30 AND 1 \<noteq> 0"

lemma sio_read_regs:
  assumes "register_file E SIO_INDEX SIO_DATA base"
  shows "wp (it86x_sio_read E reg)
           (\<lambda>v h'. v = sio_regs base h reg \<and> sio_regs base h' = sio_regs base h) h"
  using assms unfolding it86x_sio_read_def register_file_def
  by (cases "regs_from SIO_INDEX SIO_DATA base h") (simp add: calls wp_simps)

lemma sio_write_regs:
  "wp (it86x_sio_write reg v) (\<lambda>_ h'. sio_regs base h' = (sio_regs base h)(reg := v)) h"
  unfolding it86x_sio_write_def
  by (cases "regs_from SIO_INDEX SIO_DATA base h") (simp add: calls wp_simps)

lemma sio_enter_regs: "wp sio_enter (\<lambda>_ h'. sio_regs base h' = sio_regs base h) h"
  unfolding sio_enter_def
  by (cases "regs_from SIO_INDEX SIO_DATA base h") (simp add: calls wp_simps)

lemma it86x_close_regs:
  "config_open d \<Longrightarrow> wp (it86x_close E d) (\<lambda>_ h'. sio_regs base h' = (sio_regs base h)(0x02 := 0x02)) h"
  unfolding it86x_close_def sio_exit_def
  by (cases "regs_from SIO_INDEX SIO_DATA base h")
    (auto simp: calls wp_simps split: option.splits)

lemma no_owner_regs:
  assumes "\<forall>h. \<forall>p \<in> set ps. \<not> e_access E h p F_OK"
  shows "wp (first_accessible E ps) (\<lambda>ow h'. ow = None \<and> sio_regs base h' = sio_regs base h) h"
  using assms
proof (induction ps arbitrary: h)
  case (Cons p ps)
  let ?g = "h @ [Access p F_OK (e_access E h p F_OK)]"
  have "sio_regs base ?g = sio_regs base h"
    by (cases "regs_from SIO_INDEX SIO_DATA base h") simp
  moreover have "wp (first_accessible E ps) (\<lambda>ow h'. ow = None \<and> sio_regs base h' = sio_regs base ?g) ?g"
    by (rule Cons.IH) (use Cons.prems in simp)
  ultimately show ?case using Cons.prems by (simp add: calls wp_simps)
qed (simp add: wp_simps)

lemma it86x_identify_ready:
  assumes rf: "register_file E SIO_INDEX SIO_DATA base" and p: "it8613_present (sio_regs base h)"
  shows "wp (it86x_identify E d)
           (\<lambda>r h'. \<exists>d'. r = Inr d' \<and> config_open d' \<and>
              sio_regs base h' = (sio_regs base h)(0x07 := 0x04)) h"
  unfolding it86x_identify_def
  apply (rule wp_bindI, rule wp_mono [OF sio_enter_regs [where base = base]])
  apply (rule wp_bindI, rule wp_mono [OF sio_read_regs [OF rf]])
  apply (rule wp_bindI, rule wp_mono [OF sio_read_regs [OF rf]])
  apply (rule wp_bindI, rule wp_mono [OF sio_read_regs [OF rf]])
  apply (rule wp_LetI, rule wp_bindI, rule wp_mono [OF sio_write_regs [where base = base]])
  apply (rule wp_bindI, rule wp_mono [OF sio_read_regs [OF rf]])
  using p apply (auto simp: it8613_present_def wp_simps)
  done

lemma it86x_open_ready:
  assumes ready: "sio_ready E base" and p: "it8613_present (sio_regs base h)"
  shows "wp (it86x_open E)
           (\<lambda>r h'. \<exists>d. r = Inr d \<and> config_open d \<and>
              sio_regs base h' = (sio_regs base h)(0x07 := 0x04)) h"
proof -
  have own: "wp (active_controller_owner E) (\<lambda>ow g. ow = None \<and> sio_regs base g = sio_regs base h) h"
    unfolding active_controller_owner_def
    by (rule no_owner_regs) (use ready in \<open>simp add: sio_ready_def\<close>)
  have rest: "wp (it86x_identify E d) (\<lambda>r h'. \<exists>d'. r = Inr d' \<and> config_open d' \<and>
        sio_regs base h' = (sio_regs base h)(0x07 := 0x04)) g'"
    if "sio_regs base g' = sio_regs base h" for g' d
    using it86x_identify_ready [of E base g' d] ready p that by (simp add: sio_ready_def)
  show ?thesis
    unfolding it86x_open_def
    apply (rule wp_bindI, rule wp_mono [OF own])
    using ready apply (auto simp: sio_ready_def calls wp_simps intro!: rest)
    done
qed

end
