(* ===== verification/AC_Recovery.thy ===== *)
theory AC_Recovery
  imports Super_IO
begin

text \<open>
  The AC-power recovery policy (\<^verbatim>\<open>power/it8613_power.c\<close>): two bits of register 0xf4 and one
  of 0xf2 of the Super I/O chip encode what the machine does when mains power returns.  Where
  C leaves the order of two register reads inside one expression unspecified, the model reads
  0xf2 first.
\<close>

section \<open>Data and operations\<close>

datatype startup_policy = STARTUP_UNKNOWN | STARTUP_ON | STARTUP_OFF | STARTUP_RESTORE

definition decode_policy :: "u8 \<Rightarrow> u8 \<Rightarrow> startup_policy" where
  "decode_policy f2 f4 =
     (let s = (drop_bit 3 f2 AND 0x4) OR (drop_bit 5 f4 AND 0x3) in
      if s = 1 then STARTUP_ON else if s = 3 then STARTUP_OFF
      else if s = 7 then STARTUP_RESTORE else STARTUP_UNKNOWN)"

text \<open>The \<^verbatim>\<open>switch (policy)\<close> of \<^verbatim>\<open>it8613_set_startup_policy\<close>; \<open>None\<close> is its default branch.\<close>

definition encode_policy :: "startup_policy \<Rightarrow> u8 \<Rightarrow> u8 \<Rightarrow> (u8 \<times> u8) option" where
  "encode_policy policy f2 f4 =
     (case policy of
        STARTUP_ON \<Rightarrow> Some (f2 AND NOT 0x20, (f4 OR 0x20) AND NOT 0x40)
      | STARTUP_OFF \<Rightarrow> Some (f2 AND NOT 0x20, f4 OR 0x60)
      | STARTUP_RESTORE \<Rightarrow> Some (f2 OR 0x20, f4 OR 0x60)
      | STARTUP_UNKNOWN \<Rightarrow> None)"

definition it8613_read_startup_policy :: "transport \<Rightarrow> bool \<Rightarrow> (errno + startup_policy) io" where
  "it8613_read_startup_policy T force = bindE (t_open T) (\<lambda>d. do {
     f2 \<leftarrow> t_sio_read T 0xf2;
     f4 \<leftarrow> t_sio_read T 0xf4;
     t_close T d;
     ok (decode_policy f2 f4) })"

text \<open>Write both registers, then check them; the second read happens only if the first matched.\<close>

definition write_policy_registers ::
    "transport \<Rightarrow> it86x_device \<Rightarrow> startup_policy \<Rightarrow> u8 \<Rightarrow> u8 \<Rightarrow> (errno + unit) io" where
  "write_policy_registers T d policy f2 f4 = do {
     t_sio_write T 0xf2 f2;
     t_sio_write T 0xf4 f4;
     a \<leftarrow> t_sio_read T 0xf2;
     (if a \<noteq> f2 then do { t_close T d; fail EIO }
      else do {
        b \<leftarrow> t_sio_read T 0xf4;
        (if b \<noteq> f4 \<or> decode_policy f2 f4 \<noteq> policy then do { t_close T d; fail EIO }
         else do { t_close T d; ok () }) }) }"

definition it8613_set_startup_policy :: "transport \<Rightarrow> bool \<Rightarrow> startup_policy \<Rightarrow> (errno + unit) io" where
  "it8613_set_startup_policy T force policy = bindE (t_open T) (\<lambda>d. do {
     f2 \<leftarrow> t_sio_read T 0xf2;
     f4 \<leftarrow> t_sio_read T 0xf4;
     (case encode_policy policy f2 f4 of
        None \<Rightarrow> do { t_close T d; fail EINVAL }
      | Some r \<Rightarrow> write_policy_registers T d policy (fst r) (snd r)) })"

section \<open>The register encoding\<close>

text \<open>Bit by bit: only bit 5 of 0xf2 and bits 5 and 6 of 0xf4 matter.\<close>

lemma decode_bits:
  "drop_bit 3 (f2 :: u8) AND 4 = (if bit f2 5 then 4 else 0)"
  "drop_bit 5 (f4 :: u8) AND 3 = (if bit f4 5 then 1 else 0) OR (if bit f4 6 then 2 else 0)"
  by (rule bit_word_eqI; auto simp: bit_simps numeral_eq_Suc less_Suc_eq)+

lemma decode_policy_bits:
  "decode_policy f2 f4 =
     (if bit f4 5 then
        (if bit f4 6 then (if bit f2 5 then STARTUP_RESTORE else STARTUP_OFF)
         else (if bit f2 5 then STARTUP_UNKNOWN else STARTUP_ON))
      else STARTUP_UNKNOWN)"
  unfolding decode_policy_def decode_bits by (simp add: Let_def)

text \<open>
  For each of the three policies the new register values computed from any old
  values decode to exactly that policy, and no bit other than bit 5 of 0xf2 and bits 5 and 6
  of 0xf4 changes; the unknown policy is refused.
\<close>

theorem startup_policy_encoding:
  "(encode_policy p x2 x4 = None \<longleftrightarrow> p = STARTUP_UNKNOWN) \<and>
   (\<forall>a b. encode_policy p x2 x4 = Some (a, b) \<longrightarrow>
      decode_policy a b = p \<and> a AND NOT 0x20 = x2 AND NOT 0x20 \<and> b AND NOT 0x60 = x4 AND NOT 0x60)"
proof (cases p)
  case STARTUP_ON
  have "((x4 OR 0x20) AND NOT 0x40) AND NOT 0x60 = x4 AND NOT (0x60 :: u8)"
    by (rule bit_word_eqI) (auto simp: bit_simps numeral_eq_Suc less_Suc_eq)
  with STARTUP_ON show ?thesis
    by (auto simp: encode_policy_def decode_policy_bits bit_simps)
next
  case STARTUP_OFF
  then show ?thesis
    by (auto simp: encode_policy_def decode_policy_bits bit_simps bit.conj_disj_distrib2)
next
  case STARTUP_RESTORE
  then show ?thesis
    by (auto simp: encode_policy_def decode_policy_bits bit_simps bit.conj_disj_distrib2)
qed (simp add: encode_policy_def)

theorem startup_policy_encoding_witness:
  "encode_policy STARTUP_OFF 0xff 0x00 = Some (0xdf, 0x60) \<and> decode_policy 0xdf 0x60 = STARTUP_OFF"
  using startup_policy_encoding [of STARTUP_OFF 255 0] by (auto simp: encode_policy_def)

lemma encode_policy_decode:
  "encode_policy p f2 f4 = Some (a, b) \<Longrightarrow> decode_policy a b = p"
  by (cases p) (auto simp: encode_policy_def decode_policy_bits bit_simps)

section \<open>The transport is left idle\<close>

context superio_transport begin

lemma read_startup_policy_idle:
  "idle h \<Longrightarrow> wp (it8613_read_startup_policy T force) (\<lambda>_ h'. idle h') h"
  unfolding it8613_read_startup_policy_def
  by (erule session_idle) (auto intro!: wp_intros wp_mono [OF sio_read_spec] close_then_return)

lemma write_policy_registers_idle:
  "active d h \<Longrightarrow> wp (write_policy_registers T d p f2 f4) (\<lambda>_ h'. idle h') h"
  unfolding write_policy_registers_def
  by (intro wp_intros; rule wp_mono [OF sio_write_spec]; simp?)+
    (auto intro!: wp_intros wp_mono [OF sio_read_spec] close_then_return)

lemma set_startup_policy_idle:
  "idle h \<Longrightarrow> wp (it8613_set_startup_policy T force p) (\<lambda>_ h'. idle h') h"
  unfolding it8613_set_startup_policy_def
  by (erule session_idle)
    (auto intro!: wp_intros wp_mono [OF sio_read_spec] close_then_return write_policy_registers_idle)

end

section \<open>Setting a policy on a working chip\<close>

lemma transport_it86x [simp]:
  "t_open (it86x E) = it86x_open E" "t_close (it86x E) = it86x_close E"
  "t_sio_read (it86x E) = it86x_sio_read E" "t_sio_write (it86x E) = it86x_sio_write"
  "t_hwm_read (it86x E) = it86x_hwm_read E" "t_hwm_write (it86x E) = it86x_hwm_write"
  by (simp_all add: it86x_def)

lemma present_upd [simp]:
  "it8613_present (r(i := v)) = it8613_present r" if "i \<noteq> 0x20" "i \<noteq> 0x21" "i \<noteq> 0x30"
  using that by (simp add: it8613_present_def)

lemma read_startup_policy_ready:
  assumes "sio_ready E base" "it8613_present (sio_regs base h)"
  shows "wp (it8613_read_startup_policy (it86x E) force)
           (\<lambda>r h'. r = Inr (decode_policy (sio_regs base h 0xf2) (sio_regs base h 0xf4))) h"
proof -
  have rf: "register_file E SIO_INDEX SIO_DATA base" using assms by (simp add: sio_ready_def)
  show ?thesis
    unfolding it8613_read_startup_policy_def transport_it86x
    by (rule wp_bindEI, rule wp_mono [OF it86x_open_ready [OF assms]])
      (auto intro!: wp_bindI wp_mono [OF sio_read_regs [OF rf]] simp: wp_simps)
qed

lemma write_policy_registers_ready:
  assumes rf: "register_file E SIO_INDEX SIO_DATA base" and d: "config_open d"
    and p: "decode_policy f2 f4 = p"
  shows "wp (write_policy_registers (it86x E) d p f2 f4)
           (\<lambda>r h'. r = Inr () \<and>
              sio_regs base h' = (sio_regs base h)(0xf2 := f2, 0xf4 := f4, 0x02 := 0x02)) h"
  unfolding write_policy_registers_def transport_it86x
  apply (rule wp_bindI, rule wp_mono [OF sio_write_regs [where base = base]])
  apply (rule wp_bindI, rule wp_mono [OF sio_write_regs [where base = base]])
  apply (rule wp_bindI, rule wp_mono [OF sio_read_regs [OF rf]])
  apply (rule wp_ifI, simp)
  apply (rule wp_bindI, rule wp_mono [OF sio_read_regs [OF rf]])
  apply (rule wp_ifI, simp add: p)
  apply (rule wp_bindI, rule wp_mono [OF it86x_close_regs [OF d, where base = base]])
  apply (simp add: wp_simps)
  done

lemma set_startup_policy_ready:
  assumes "sio_ready E base" "it8613_present (sio_regs base h)" "p \<noteq> STARTUP_UNKNOWN"
  shows "wp (it8613_set_startup_policy (it86x E) force p)
           (\<lambda>r h'. r = Inr () \<and> it8613_present (sio_regs base h') \<and>
              decode_policy (sio_regs base h' 0xf2) (sio_regs base h' 0xf4) = p) h"
proof -
  have rf: "register_file E SIO_INDEX SIO_DATA base" using assms by (simp add: sio_ready_def)
  have w: "wp (case encode_policy p f2 f4 of None \<Rightarrow> do { it86x_close E d; fail EINVAL }
        | Some r \<Rightarrow> write_policy_registers (it86x E) d p (fst r) (snd r))
      (\<lambda>r h'. r = Inr () \<and> it8613_present (sio_regs base h') \<and>
              decode_policy (sio_regs base h' 0xf2) (sio_regs base h' 0xf4) = p) g"
    if "config_open d" "it8613_present (sio_regs base g)" for d g f2 f4
  proof (cases "encode_policy p f2 f4")
    case None
    with assms(3) show ?thesis by (cases p) (auto simp: encode_policy_def)
  next
    case (Some r)
    then have "decode_policy (fst r) (snd r) = p"
      by (intro encode_policy_decode) simp
    with that Some show ?thesis
      by simp (rule wp_mono [OF write_policy_registers_ready [OF rf]], auto)
  qed
  show ?thesis
    unfolding it8613_set_startup_policy_def transport_it86x
    apply (rule wp_bindEI, rule wp_mono [OF it86x_open_ready [OF assms(1,2)]])
    using assms(2) apply (auto intro!: wp_bindI wp_mono [OF sio_read_regs [OF rf]] w)
    done
qed

text \<open>
  On a machine whose chip answers as a register file, setting a policy succeeds and
  reading it afterwards returns the policy that was set.
\<close>

theorem startup_policy_set_then_read:
  assumes "sio_ready E base" "it8613_present (sio_regs base h)" "p \<noteq> STARTUP_UNKNOWN"
  shows "fst (run_state (do { r \<leftarrow> it8613_set_startup_policy (it86x E) force p;
                              q \<leftarrow> it8613_read_startup_policy (it86x E) force';
                              ret (r, q) }) h) = (Inr (), Inr p)"
proof -
  have "wp (do { r \<leftarrow> it8613_set_startup_policy (it86x E) force p;
                 q \<leftarrow> it8613_read_startup_policy (it86x E) force'; ret (r, q) })
          (\<lambda>x _. x = (Inr (), Inr p)) h"
    apply (rule wp_bindI, rule wp_mono [OF set_startup_policy_ready [OF assms]])
    apply (rule wp_bindI, rule wp_mono [OF read_startup_policy_ready [OF assms(1)]])
     apply (auto simp: wp_simps)
    done
  then show ?thesis by (auto simp: wp_def split: prod.splits)
qed

text \<open>A chip that identifies as an active IT8613, on a machine that grants everything.\<close>

definition example_regs :: "u8 \<Rightarrow> u8" where
  "example_regs r = (if r = 0x20 then 0x86 else if r = 0x21 then 0x13 else if r = 0x30 then 1 else 0)"

definition example_env :: env where
  "example_env = null_env\<lparr>
     e_inb := (\<lambda>h p. if p = SIO_DATA
        then snd (regs_from SIO_INDEX SIO_DATA example_regs h) (fst (regs_from SIO_INDEX SIO_DATA example_regs h))
        else snd (regs_from HWM_INDEX HWM_DATA (\<lambda>_. 0) h) (fst (regs_from HWM_INDEX HWM_DATA (\<lambda>_. 0) h))),
     e_open_lock := (\<lambda>_ _. Inr 3), e_time := (\<lambda>_. 1000)\<rparr>"

lemma example_ready: "sio_ready example_env example_regs" "it8613_present (sio_regs example_regs [])"
  by (simp_all add: sio_ready_def example_env_def register_file_def it8613_present_def regs_from_def
      example_regs_def)

theorem startup_policy_set_then_read_witness:
  "fst (run_state (do { r \<leftarrow> it8613_set_startup_policy (it86x example_env) True STARTUP_RESTORE;
                        q \<leftarrow> it8613_read_startup_policy (it86x example_env) False;
                        ret (r, q) }) []) = (Inr (), Inr STARTUP_RESTORE)"
  by (rule startup_policy_set_then_read [OF example_ready]) simp

end
