(* ===== verification/Fan_Direct.thy ===== *)
theory Fan_Direct
  imports AC_Recovery
begin

text \<open>
  The direct IT8613 fan backend (\<^verbatim>\<open>fan/it8613_direct.c\<close>), used when no \<^verbatim>\<open>it87\<close> hwmon node
  exists: a channel is a control, a duty and two tachometer registers of the
  hardware monitor.  A channel list is the C array with its count; the empty string stands for
  a missing or empty channel name.
\<close>

section \<open>Data\<close>

definition UGREENCTL_MAX_FANS :: nat where "UGREENCTL_MAX_FANS = 8"
definition IT8613_DIRECT_MIN_MANUAL_PWM :: u8 where "IT8613_DIRECT_MIN_MANUAL_PWM = 40"

text \<open>\<^verbatim>\<open>struct ugreenctl_fan_status\<close> of \<^verbatim>\<open>include/ugreenctl.h\<close>.\<close>

record fan_status =
  fan_id :: string
  fan_pwm :: u8
  pwm_known :: bool
  manual :: bool
  mode_known :: bool
  tachometer :: u16
  rpm :: u64

record it8613_direct_channel =
  dc_id :: string
  control_register :: u8
  duty_register :: u8
  tachometer_low_register :: u8
  tachometer_high_register :: u8
  pwm_supported :: bool

section \<open>Operations\<close>

definition direct_validate_mapping :: "it8613_direct_channel list \<Rightarrow> errno option" where
  "direct_validate_mapping channels =
     (if channels = [] \<or> length channels > UGREENCTL_MAX_FANS then Some EINVAL
      else if \<exists>c \<in> set channels. dc_id c = [] then Some EINVAL
      else None)"

text \<open>Both all-ones encodings and zero are invalid tachometer readings.\<close>

definition direct_rpm :: "u16 \<Rightarrow> u64" where
  "direct_rpm t = (if t = 0 \<or> t = 0x0fff \<or> t = 0xffff then 0 else 675000 div ucast t)"

definition direct_read_channel :: "transport \<Rightarrow> it8613_direct_channel \<Rightarrow> fan_status io" where
  "direct_read_channel T c = do {
     hi \<leftarrow> t_hwm_read T (tachometer_high_register c);
     lo \<leftarrow> t_hwm_read T (tachometer_low_register c);
     let t = (push_bit 8 (ucast hi) OR ucast lo :: u16);
     let fan = \<lparr>fan_id = take 15 (dc_id c), fan_pwm = 0, pwm_known = False, manual = False,
                mode_known = False, tachometer = t, rpm = direct_rpm t\<rparr>;
     (if pwm_supported c
      then do {
        control \<leftarrow> t_hwm_read T (control_register c);
        duty \<leftarrow> t_hwm_read T (duty_register c);
        let man = (control AND 0x80 = 0);
        ret (fan\<lparr>fan_pwm := duty, pwm_known := True, manual := man, mode_known := man\<rparr>) }
      else ret fan) }"

definition direct_set_channel_manual_pwm ::
    "transport \<Rightarrow> u8 \<Rightarrow> it8613_direct_channel \<Rightarrow> (errno + unit) io" where
  "direct_set_channel_manual_pwm T pwm c = do {
     control \<leftarrow> t_hwm_read T (control_register c);
     t_hwm_write T (control_register c) (control AND NOT 0x80);
     readback \<leftarrow> t_hwm_read T (control_register c);
     (if readback AND 0x80 \<noteq> 0 then fail EIO
      else do {
        t_hwm_write T (duty_register c) pwm;
        readback \<leftarrow> t_hwm_read T (duty_register c);
        (if readback \<noteq> pwm then fail EIO else ok ()) }) }"

definition it8613_direct_read_fans ::
    "transport \<Rightarrow> it8613_direct_channel list \<Rightarrow> (errno + fan_status list) io" where
  "it8613_direct_read_fans T channels =
     (case direct_validate_mapping channels of Some e \<Rightarrow> fail e
      | None \<Rightarrow> bindE (t_open T) (\<lambda>d. do {
          fans \<leftarrow> each (direct_read_channel T) channels;
          t_close T d;
          ok fans }))"

definition it8613_direct_set_manual_pwm ::
    "transport \<Rightarrow> it8613_direct_channel list \<Rightarrow> u8 \<Rightarrow> (errno + unit) io" where
  "it8613_direct_set_manual_pwm T channels pwm =
     (case direct_validate_mapping channels of Some e \<Rightarrow> fail e
      | None \<Rightarrow>
          if pwm < IT8613_DIRECT_MIN_MANUAL_PWM then fail EPERM
          else if \<exists>c \<in> set channels. \<not> pwm_supported c then fail EOPNOTSUPP
          else bindE (t_open T) (\<lambda>d. do {
            r \<leftarrow> each_ok (direct_set_channel_manual_pwm T pwm) channels;
            t_close T d;
            (case r of Inl e \<Rightarrow> fail e | Inr _ \<Rightarrow> ok ()) }))"

section \<open>The transport is left idle\<close>

context superio_transport begin

lemma direct_read_channel_active:
  "active d h \<Longrightarrow> wp (direct_read_channel T c) (\<lambda>_ h'. active d h') h"
  unfolding direct_read_channel_def
  by (auto intro!: wp_intros wp_mono [OF hwm_read_spec])

lemma direct_set_channel_active:
  "active d h \<Longrightarrow> wp (direct_set_channel_manual_pwm T pwm c) (\<lambda>_ h'. active d h') h"
  unfolding direct_set_channel_manual_pwm_def
  by (auto intro!: wp_intros wp_mono [OF hwm_read_spec] wp_mono [OF hwm_write_spec])

lemma direct_read_fans_idle:
  assumes "idle h"
  shows "wp (it8613_direct_read_fans T channels) (\<lambda>_ h'. idle h') h"
proof -
  have loop: "wp (each (direct_read_channel T) channels) (\<lambda>_ g'. active d g') g" if "active d g" for d g
    by (rule wp_mono [OF wp_each [where I = "active d" and R = "\<lambda>_ _. True"]])
      (auto simp: that direct_read_channel_active)
  show ?thesis
    unfolding it8613_direct_read_fans_def
    by (rule wp_optionI, rule session_idle [OF assms])
      (auto simp: assms intro!: wp_intros wp_mono [OF loop] close_then_return)
qed

lemma direct_set_manual_pwm_idle:
  assumes "idle h"
  shows "wp (it8613_direct_set_manual_pwm T channels pwm) (\<lambda>_ h'. idle h') h"
proof -
  have loop: "wp (each_ok (direct_set_channel_manual_pwm T pwm) channels) (\<lambda>_ g'. active d g') g"
    if "active d g" for d g
    by (rule wp_mono [OF wp_each_ok [where I = "active d" and J = "active d" and R = "\<lambda>_ _. True"]])
      (auto simp: that split: sum.splits intro!: wp_mono [OF direct_set_channel_active])
  show ?thesis
    unfolding it8613_direct_set_manual_pwm_def
    by (intro wp_optionI wp_ifI; (rule session_idle [OF assms])?)
      (auto simp: assms wp_simps split: sum.splits intro!: wp_bindI wp_mono [OF loop] wp_mono [OF close_spec])
qed

end

section \<open>What can be written to the hardware monitor\<close>

text \<open>The register writes in a history: index and data port decoded, from selected index \<open>i\<close>.\<close>

fun hwm_log :: "u8 \<Rightarrow> trace \<Rightarrow> (u8 \<times> u8) list" where
  "hwm_log i [] = []"
| "hwm_log i (e # es) =
     (case e of
        Outb p v \<Rightarrow> if p = HWM_INDEX then hwm_log v es
                    else if p = HWM_DATA then (i, v) # hwm_log i es else hwm_log i es
      | _ \<Rightarrow> hwm_log i es)"

definition hwm_writes_ok :: "(u8 \<times> u8 \<Rightarrow> bool) \<Rightarrow> trace \<Rightarrow> bool" where
  "hwm_writes_ok A es \<longleftrightarrow> (\<forall>i. list_all A (hwm_log i es))"

lemma hwm_log_append: "\<exists>j. hwm_log i (es @ fs) = hwm_log i es @ hwm_log j fs"
  by (induction es arbitrary: i) (auto split: event.splits)

interpretation hwm_writes: segments "hwm_writes_ok A" for A
proof unfold_locales
  fix es fs :: trace
  assume es: "hwm_writes_ok A es" and fs: "hwm_writes_ok A fs"
  show "hwm_writes_ok A (es @ fs)"
    unfolding hwm_writes_ok_def
  proof
    fix i
    obtain j where "hwm_log i (es @ fs) = hwm_log i es @ hwm_log j fs"
      using hwm_log_append by blast
    with es fs show "list_all A (hwm_log i (es @ fs))" by (simp add: hwm_writes_ok_def)
  qed
qed (simp add: hwm_writes_ok_def)

lemma appends_hwm_read: "appends (hwm_writes_ok A) (it86x_hwm_read E r)"
  by (auto simp: it86x_hwm_read_def calls appends_def hwm_writes_ok_def)

lemma appends_hwm_write: "A (r, v) \<Longrightarrow> appends (hwm_writes_ok A) (it86x_hwm_write r v)"
  by (auto simp: it86x_hwm_write_def calls appends_def hwm_writes_ok_def)

lemma appends_close: "appends (hwm_writes_ok A) (it86x_close E d)"
  unfolding it86x_close_def sio_exit_def calls
  by (intro hwm_writes.intros appends_cases appends_prim) (simp_all add: hwm_writes_ok_def)

lemma appends_owner: "appends (hwm_writes_ok A) (first_accessible E ps)"
proof (induction ps)
  case (Cons p ps)
  then show ?case
    unfolding first_accessible.simps calls
    by (intro hwm_writes.intros appends_cases appends_prim) (simp add: hwm_writes_ok_def)
qed (simp add: hwm_writes.return)

lemma appends_open: "appends (hwm_writes_ok A) (it86x_open E)"
  unfolding it86x_open_def it86x_identify_def active_controller_owner_def sio_enter_def
    it86x_sio_read_def it86x_sio_write_def calls
  by (intro hwm_writes.intros appends_cases appends_prim appends_owner appends_close)
    (simp_all add: hwm_writes_ok_def)

text \<open>What the manual-PWM transaction may write: a channel's control register with the
  automatic bit clear, or a channel's duty register with the requested duty.\<close>

definition direct_write_allowed :: "it8613_direct_channel list \<Rightarrow> u8 \<Rightarrow> u8 \<times> u8 \<Rightarrow> bool" where
  "direct_write_allowed channels pwm w \<longleftrightarrow>
     (\<exists>c \<in> set channels. fst w = control_register c \<and> snd w AND 0x80 = 0 \<or>
                          fst w = duty_register c \<and> snd w = pwm)"

lemma and_not_and [simp]: "(x AND NOT y) AND (y :: 'a::len word) = 0"
  by (rule bit_word_eqI) (auto simp: bit_simps)

lemma clear_manual_bit [simp]: "(x AND - 129) AND 128 = (0 :: u8)"
  using and_not_and [of x 128] by simp

lemma appends_set_channel:
  "c \<in> set channels \<Longrightarrow>
   appends (hwm_writes_ok (direct_write_allowed channels pwm)) (direct_set_channel_manual_pwm (it86x E) pwm c)"
  unfolding direct_set_channel_manual_pwm_def transport_it86x
  by (intro hwm_writes.intros appends_cases appends_hwm_read appends_hwm_write)
    (auto simp: direct_write_allowed_def)

text \<open>
  \<^bold>\<open>C9.\<close>  Whatever the hardware answers, a manual-PWM request writes nothing to the hardware
  monitor except, for the requested channels, a control register with the automatic bit
  cleared and a duty register with the requested duty; if the duty is below 40 or a channel is
  read-only, the machine is not touched at all.
\<close>

theorem direct_set_manual_pwm_writes:
  "\<exists>es. snd (run_state (it8613_direct_set_manual_pwm (it86x E) channels pwm) h) = h @ es \<and>
        hwm_writes_ok (direct_write_allowed channels pwm) es \<and>
        (pwm < 40 \<or> \<not> list_all pwm_supported channels \<longrightarrow> es = [])"
proof (cases "pwm < 40 \<or> \<not> list_all pwm_supported channels")
  case True
  then have "snd (run_state (it8613_direct_set_manual_pwm (it86x E) channels pwm) h) = h"
    by (auto simp: it8613_direct_set_manual_pwm_def IT8613_DIRECT_MIN_MANUAL_PWM_def list_all_iff
        split: option.splits)
  then show ?thesis by (simp add: hwm_writes_ok_def)
next
  case False
  have "appends (hwm_writes_ok (direct_write_allowed channels pwm))
      (it8613_direct_set_manual_pwm (it86x E) channels pwm)"
    unfolding it8613_direct_set_manual_pwm_def transport_it86x
    by (intro hwm_writes.intros appends_cases appends_open appends_close appends_set_channel)
  with False show ?thesis by (auto simp: appends_def)
qed

theorem direct_set_manual_pwm_writes_witness:
  "(39 :: u8) < 40 \<and>
   snd (run_state (it8613_direct_set_manual_pwm (it86x example_env)
     [\<lparr>dc_id = ''sys'', control_register = 0x17, duty_register = 0x73, tachometer_low_register = 0x0f,
       tachometer_high_register = 0x1a, pwm_supported = True\<rparr>] 39) []) = []"
  using direct_set_manual_pwm_writes [of example_env _ 39 "[]"] by fastforce

section \<open>Setting a duty on a working chip\<close>

abbreviation hwm_regs :: "(u8 \<Rightarrow> u8) \<Rightarrow> trace \<Rightarrow> u8 \<Rightarrow> u8" where
  "hwm_regs base h \<equiv> snd (regs_from HWM_INDEX HWM_DATA base h)"

lemma hwm_read_regs:
  assumes "register_file E HWM_INDEX HWM_DATA base"
  shows "wp (it86x_hwm_read E reg)
           (\<lambda>v h'. v = hwm_regs base h reg \<and> hwm_regs base h' = hwm_regs base h \<and>
              sio_regs b h' = sio_regs b h) h"
  using assms unfolding it86x_hwm_read_def register_file_def
  by (cases "regs_from HWM_INDEX HWM_DATA base h"; cases "regs_from SIO_INDEX SIO_DATA b h")
    (simp add: calls wp_simps)

lemma hwm_write_regs:
  "wp (it86x_hwm_write reg v)
     (\<lambda>_ h'. hwm_regs base h' = (hwm_regs base h)(reg := v) \<and> sio_regs b h' = sio_regs b h) h"
  unfolding it86x_hwm_write_def
  by (cases "regs_from HWM_INDEX HWM_DATA base h"; cases "regs_from SIO_INDEX SIO_DATA b h")
    (simp add: calls wp_simps)

text \<open>Everything outside the hardware monitor leaves its registers alone.\<close>

definition hwm_silent :: "trace \<Rightarrow> bool" where
  "hwm_silent es \<longleftrightarrow> list_all (\<lambda>e. case e of Outb p v \<Rightarrow> p \<noteq> HWM_INDEX \<and> p \<noteq> HWM_DATA | _ \<Rightarrow> True) es"

lemma regs_step_silent:
  "(case e of Outb p v \<Rightarrow> p \<noteq> HWM_INDEX \<and> p \<noteq> HWM_DATA | _ \<Rightarrow> True) \<Longrightarrow>
   regs_step HWM_INDEX HWM_DATA e s = s"
  by (cases e; cases s) auto

lemma regs_silent: "hwm_silent es \<Longrightarrow> fold (regs_step HWM_INDEX HWM_DATA) es s = s"
  by (induction es arbitrary: s) (auto simp: hwm_silent_def regs_step_silent)

lemma silent_calls:
  "appends hwm_silent (it86x_open E)" "appends hwm_silent (it86x_close E d)"
proof -
  have own: "appends hwm_silent (first_accessible E ps)" for ps
    unfolding hwm_silent_def by (induction ps) (auto simp: calls intro!: emits_intros)
  show close: "appends hwm_silent (it86x_close E d)" for d
    using emits_intros unfolding hwm_silent_def it86x_close_def sio_exit_def calls
    by (intro emits_intros) auto
  show "appends hwm_silent (it86x_open E)"
    using own close unfolding hwm_silent_def it86x_open_def it86x_identify_def
      active_controller_owner_def sio_enter_def it86x_sio_read_def it86x_sio_write_def calls
    by (intro emits_intros) auto
qed

lemma silent_regs:
  assumes "appends hwm_silent m"
  shows "wp m (\<lambda>_ h'. hwm_regs base h' = hwm_regs base h) h"
  by (rule wp_mono [OF appends_wp [OF assms]]) (auto simp: regs_silent)

text \<open>The effect of one channel's transaction on the register file.\<close>

lemma set_channel_ready:
  assumes rf: "register_file E HWM_INDEX HWM_DATA base" and ne: "control_register c \<noteq> duty_register c"
  shows "wp (direct_set_channel_manual_pwm (it86x E) pwm c)
     (\<lambda>r h'. r = Inr () \<and> sio_regs b h' = sio_regs b h \<and>
        hwm_regs base h' = (hwm_regs base h)
          (control_register c := hwm_regs base h (control_register c) AND NOT 0x80,
           duty_register c := pwm)) h"
  unfolding direct_set_channel_manual_pwm_def transport_it86x
  apply (rule wp_bindI, rule wp_mono [OF hwm_read_regs [OF rf, where b = b]])
  apply (rule wp_bindI, rule wp_mono [OF hwm_write_regs [where base = base and b = b]])
  apply (rule wp_bindI, rule wp_mono [OF hwm_read_regs [OF rf, where b = b]])
  apply (rule wp_ifI, simp)
  apply (rule wp_bindI, rule wp_mono [OF hwm_write_regs [where base = base and b = b]])
  apply (rule wp_bindI, rule wp_mono [OF hwm_read_regs [OF rf, where b = b]])
  using ne apply (auto simp: wp_simps)
  done

definition duty_set :: "u8 \<Rightarrow> (u8 \<Rightarrow> u8) \<Rightarrow> it8613_direct_channel \<Rightarrow> bool" where
  "duty_set pwm r c \<longleftrightarrow> r (control_register c) AND 0x80 = 0 \<and> r (duty_register c) = pwm"

text \<open>No control register of the list doubles as a duty register.\<close>

definition registers_separate :: "it8613_direct_channel list \<Rightarrow> bool" where
  "registers_separate cs \<longleftrightarrow>
     (\<forall>c \<in> set cs. \<forall>c' \<in> set cs. control_register c \<noteq> duty_register c')"

lemma set_channels_ready:
  assumes rf: "register_file E HWM_INDEX HWM_DATA base"
    and "registers_separate all" "set cs \<subseteq> set all" "\<forall>c \<in> set seen. c \<in> set all"
    and "\<forall>c \<in> set seen. duty_set pwm (hwm_regs base h) c"
  shows "wp (each_ok (direct_set_channel_manual_pwm (it86x E) pwm) cs)
     (\<lambda>r h'. (\<exists>us. r = Inr us) \<and> sio_regs b h' = sio_regs b h \<and>
        (\<forall>c \<in> set seen \<union> set cs. duty_set pwm (hwm_regs base h') c)) h"
  using assms(3-)
proof (induction cs arbitrary: h seen)
  case Nil
  then show ?case by (simp add: wp_simps)
next
  case (Cons c cs)
  have sep: "control_register x \<noteq> duty_register y" if "x \<in> set all" "y \<in> set all" for x y
    using that assms(2) by (simp add: registers_separate_def)
  have c: "c \<in> set all" using Cons.prems by simp
  have step: "\<forall>x \<in> set (c # seen). duty_set pwm (hwm_regs base g) x"
    if "hwm_regs base g = (hwm_regs base h)
          (control_register c := hwm_regs base h (control_register c) AND NOT 0x80,
           duty_register c := pwm)" for g
    using that Cons.prems sep [OF c c] sep [OF c] sep [OF _ c]
    by (auto simp: duty_set_def) (metis (full_types))+
  have first: "wp (direct_set_channel_manual_pwm (it86x E) pwm c)
      (\<lambda>r g. r = Inr () \<and> sio_regs b g = sio_regs b h \<and>
         (\<forall>x \<in> set (c # seen). duty_set pwm (hwm_regs base g) x)) h"
    by (rule wp_mono [OF set_channel_ready [OF rf sep [OF c c], where b = b]])
      (use step in blast)
  have rest: "wp (each_ok (direct_set_channel_manual_pwm (it86x E) pwm) cs)
      (\<lambda>r h'. (\<exists>us. r = Inr us) \<and> sio_regs b h' = sio_regs b g \<and>
         (\<forall>c \<in> set (c # seen) \<union> set cs. duty_set pwm (hwm_regs base h') c)) g"
    if "\<forall>x \<in> set (c # seen). duty_set pwm (hwm_regs base g) x" for g
    by (rule Cons.IH) (use Cons.prems c that in auto)
  show ?case
    unfolding each_ok.simps
    by (rule wp_bindEI, rule wp_mono [OF first])
      (auto simp: wp_simps simp del: set_simps intro!: wp_mono [OF rest], auto)
qed

text \<open>Reading a channel back.\<close>

lemma read_channel_ready:
  assumes rf: "register_file E HWM_INDEX HWM_DATA base" and "pwm_supported c"
    and "duty_set pwm (hwm_regs base h) c"
  shows "wp (direct_read_channel (it86x E) c)
     (\<lambda>f h'. hwm_regs base h' = hwm_regs base h \<and>
        pwm_known f \<and> fan_pwm f = pwm \<and> mode_known f \<and> manual f \<and> fan_id f = take 15 (dc_id c)) h"
  unfolding direct_read_channel_def transport_it86x
  apply (rule wp_bindI, rule wp_mono [OF hwm_read_regs [OF rf]])
  apply (rule wp_bindI, rule wp_mono [OF hwm_read_regs [OF rf]])
  apply (rule wp_LetI, rule wp_LetI, rule wp_ifI)
   apply (rule wp_bindI, rule wp_mono [OF hwm_read_regs [OF rf]])
   apply (rule wp_bindI, rule wp_mono [OF hwm_read_regs [OF rf]])
  using assms apply (auto simp: wp_simps duty_set_def)
  done

definition fan_shows :: "u8 \<Rightarrow> it8613_direct_channel \<Rightarrow> fan_status \<Rightarrow> bool" where
  "fan_shows pwm c f \<longleftrightarrow>
     pwm_known f \<and> fan_pwm f = pwm \<and> mode_known f \<and> manual f \<and> fan_id f = take 15 (dc_id c)"

lemma read_fans_ready:
  assumes ready: "sio_ready E sbase" "it8613_present (sio_regs sbase h)"
    and rf: "register_file E HWM_INDEX HWM_DATA base"
    and v: "direct_validate_mapping cs = None" "list_all pwm_supported cs"
    and d: "\<forall>c \<in> set cs. duty_set pwm (hwm_regs base h) c"
  shows "wp (it8613_direct_read_fans (it86x E) cs)
     (\<lambda>r _. \<exists>fs. r = Inr fs \<and> list_all2 (fan_shows pwm) cs fs) h"
proof -
  let ?I = "\<lambda>g. hwm_regs base g = hwm_regs base h"
  have op: "wp (it86x_open E) (\<lambda>r g. (\<exists>d. r = Inr d) \<and> ?I g) h"
    by (rule wp_mono [OF wp_conj [OF it86x_open_ready [OF ready] silent_regs [OF silent_calls(1)]]]) auto
  have loop: "wp (each (direct_read_channel (it86x E)) cs) (\<lambda>fs g'. ?I g' \<and> list_all2 (fan_shows pwm) cs fs) g"
    if "?I g" for g
    by (rule wp_each)
      (use that d v in \<open>auto simp: fan_shows_def list_all_iff intro!: wp_mono [OF read_channel_ready [OF rf]]\<close>)
  show ?thesis
    unfolding it8613_direct_read_fans_def transport_it86x v option.case
    by (rule wp_bindEI, rule wp_mono [OF op]) (auto simp: wp_simps intro!: wp_mono [OF loop])
qed

lemma set_manual_pwm_ready:
  assumes ready: "sio_ready E sbase" "it8613_present (sio_regs sbase h)"
    and rf: "register_file E HWM_INDEX HWM_DATA base"
    and v: "direct_validate_mapping cs = None" "list_all pwm_supported cs" "registers_separate cs"
    and pwm: "40 \<le> pwm"
  shows "wp (it8613_direct_set_manual_pwm (it86x E) cs pwm)
     (\<lambda>r g. r = Inr () \<and> it8613_present (sio_regs sbase g) \<and>
        (\<forall>c \<in> set cs. duty_set pwm (hwm_regs base g) c)) h"
proof -
  have op: "wp (it86x_open E) (\<lambda>r g. \<exists>d. r = Inr d \<and> config_open d \<and> it8613_present (sio_regs sbase g)) h"
    by (rule wp_mono [OF it86x_open_ready [OF ready]]) (use ready(2) in auto)
  have close: "wp (it86x_close E d) (\<lambda>_ g'. it8613_present (sio_regs sbase g') \<and>
        (\<forall>c \<in> set cs. duty_set pwm (hwm_regs base g') c)) g"
    if "config_open d" "it8613_present (sio_regs sbase g)" "\<forall>c \<in> set cs. duty_set pwm (hwm_regs base g) c" for d g
    by (rule wp_mono [OF wp_conj [OF it86x_close_regs [OF that(1), where base = sbase]
            silent_regs [OF silent_calls(2), where base = base]]]) (use that in auto)
  have loop: "wp (each_ok (direct_set_channel_manual_pwm (it86x E) pwm) cs)
      (\<lambda>r g'. (\<exists>us. r = Inr us) \<and> it8613_present (sio_regs sbase g') \<and>
        (\<forall>c \<in> set cs. duty_set pwm (hwm_regs base g') c)) g" if "it8613_present (sio_regs sbase g)" for g
    by (rule wp_mono [OF set_channels_ready [OF rf v(3), where seen = "[]" and b = sbase]])
      (use that in auto)
  have "\<not> pwm < IT8613_DIRECT_MIN_MANUAL_PWM" "\<not> (\<exists>c \<in> set cs. \<not> pwm_supported c)"
    using pwm v by (auto simp: IT8613_DIRECT_MIN_MANUAL_PWM_def list_all_iff)
  then show ?thesis
    unfolding it8613_direct_set_manual_pwm_def transport_it86x v option.case
    by simp (rule wp_bindEI, rule wp_mono [OF op],
      auto simp: wp_simps intro!: wp_mono [OF loop] wp_mono [OF close])
qed

text \<open>
  On a machine whose chip answers as a register file, setting a duty of at least 40 on
  writable channels succeeds, and reading the fans afterwards reports every one of those
  channels in manual mode with exactly that duty.
\<close>

theorem direct_set_then_read:
  assumes "sio_ready E sbase" "it8613_present (sio_regs sbase h)"
    and "register_file E HWM_INDEX HWM_DATA base"
    and "direct_validate_mapping cs = None" "list_all pwm_supported cs" "registers_separate cs"
    and "40 \<le> pwm"
  shows "\<exists>fs. fst (run_state (do { r \<leftarrow> it8613_direct_set_manual_pwm (it86x E) cs pwm;
                                  q \<leftarrow> it8613_direct_read_fans (it86x E) cs;
                                  ret (r, q) }) h) = (Inr (), Inr fs) \<and> list_all2 (fan_shows pwm) cs fs"
proof -
  have "wp (do { r \<leftarrow> it8613_direct_set_manual_pwm (it86x E) cs pwm;
                 q \<leftarrow> it8613_direct_read_fans (it86x E) cs; ret (r, q) })
          (\<lambda>x _. \<exists>fs. x = (Inr (), Inr fs) \<and> list_all2 (fan_shows pwm) cs fs) h"
    apply (rule wp_bindI, rule wp_mono [OF set_manual_pwm_ready [OF assms]])
    apply (rule wp_bindI, rule wp_mono [OF read_fans_ready [OF assms(1) _ assms(3-5)]])
      apply (auto simp: wp_simps)
    done
  then show ?thesis by (auto simp: wp_def split: prod.splits)
qed

definition example_channels :: "it8613_direct_channel list" where
  "example_channels =
     [\<lparr>dc_id = ''sys1'', control_register = 0x16, duty_register = 0x6b, tachometer_low_register = 0x0e,
       tachometer_high_register = 0x19, pwm_supported = True\<rparr>,
      \<lparr>dc_id = ''sys2'', control_register = 0x17, duty_register = 0x73, tachometer_low_register = 0x0f,
       tachometer_high_register = 0x1a, pwm_supported = True\<rparr>]"

theorem direct_set_then_read_witness:
  "\<exists>fs. fst (run_state (do { r \<leftarrow> it8613_direct_set_manual_pwm (it86x example_env) example_channels 120;
                            q \<leftarrow> it8613_direct_read_fans (it86x example_env) example_channels;
                            ret (r, q) }) []) = (Inr (), Inr fs) \<and> list_all2 (fan_shows 120) example_channels fs"
  by (rule direct_set_then_read [OF example_ready, where base = "\<lambda>_. 0"])
    (simp_all add: register_file_def example_env_def example_channels_def direct_validate_mapping_def
      registers_separate_def UGREENCTL_MAX_FANS_def)

end
