(* ===== verification/Fan_Hwmon.thy ===== *)
theory Fan_Hwmon
  imports Fan_Direct
begin

text \<open>
  The preferred fan backend (\<^verbatim>\<open>fan/it8613_hwmon.c\<close>): the sysfs files of the Linux
  \<^verbatim>\<open>it87\<close> driver.  The directory of the one hwmon node named \<^verbatim>\<open>it8613\<close> is looked up under
  the same process lock the direct backend takes; a duty is written only after the channel
  was switched to manual, and every write is read back.

  A \<^verbatim>\<open>readdir\<close> loop takes the names the directory holds when it is opened, and a file is read
  by one \<^verbatim>\<open>read\<close> call: what it delivers is up to the machine, so short reads are covered.
\<close>

section \<open>Data\<close>

definition IT8613_HWMON_NAME :: string where "IT8613_HWMON_NAME = ''it8613''"
definition IT8613_MIN_MANUAL_PWM :: u8 where "IT8613_MIN_MANUAL_PWM = 40"
definition IT8613_HWMON_READBACK_RETRY_MS :: nat where "IT8613_HWMON_READBACK_RETRY_MS = 2000"

record it8613_hwmon_channel =
  hc_id :: string
  pwm_index :: u32
  fan_index :: u32

record it8613_hwmon_device =
  hd_path :: string
  hd_lock_fd :: nat

section \<open>Finding the node\<close>

definition hwmon_root :: "env \<Rightarrow> string" where
  "hwmon_root E = env_or E ''UGREENCTL_HWMON_ROOT'' ''/sys/class/hwmon''"

definition lock_path :: "env \<Rightarrow> string" where
  "lock_path E = env_or E ''UGREENCTL_IT8613_LOCK'' ''/run/ugreenctl-it8613.lock''"

definition incompatible_owner_paths :: "string list" where
  "incompatible_owner_paths = [''/proc/it86'', ''/sys/module/ug_it86x_sio'', ''/sys/module/ug_it86x_cpufan'']"

definition incompatible_controller_owner :: "env \<Rightarrow> (string option) io" where
  "incompatible_controller_owner E = first_accessible E incompatible_owner_paths"

definition is_hwmon_directory_name :: "string \<Rightarrow> bool" where
  "is_hwmon_directory_name name \<longleftrightarrow>
     starts_with ''hwmon'' name \<and> drop 5 name \<noteq> [] \<and> list_all isdigit (drop 5 name)"

definition build_path :: "string \<Rightarrow> string \<Rightarrow> errno + string" where
  "build_path directory name =
     (let p = directory @ ''/'' @ name in if length p \<ge> PATH_MAX then Inl ENAMETOOLONG else Inr p)"

text \<open>What \<^verbatim>\<open>read_text_file\<close> leaves in a buffer of \<open>n\<close> bytes.\<close>

definition text_of_read :: "nat \<Rightarrow> file_read \<Rightarrow> errno + string" where
  "text_of_read n r =
     (case r of Open_failed e \<Rightarrow> Inl e
      | File_data s err \<Rightarrow>
          (case err of Some e \<Rightarrow> if s = [] then Inl e else Inr (c_str (rstrip isspace (take (n - 1) s)))
           | None \<Rightarrow> Inr (c_str (rstrip isspace (take (n - 1) s)))))"

definition read_text_file :: "env \<Rightarrow> string \<Rightarrow> nat \<Rightarrow> (errno + string) io" where
  "read_text_file E path n =
     (if n < 2 then fail EINVAL else do { r \<leftarrow> read_file E path; ret (text_of_read n r) })"

definition parse_unsigned :: "string \<Rightarrow> errno + u64" where
  "parse_unsigned buffer =
     (let (v, end, erange) = strtoul10 buffer in
      if erange \<or> buffer = [] \<or> end \<noteq> [] then Inl EINVAL else Inr v)"

definition read_unsigned_file :: "env \<Rightarrow> string \<Rightarrow> (errno + u64) io" where
  "read_unsigned_file E path = bindE (read_text_file E path 64) (\<lambda>b. ret (parse_unsigned b))"

text \<open>The loop over the directory; \<open>found\<close> is the node already seen.\<close>

fun scan_hwmon :: "env \<Rightarrow> string \<Rightarrow> string option \<Rightarrow> string list \<Rightarrow> (errno + string) io" where
  "scan_hwmon E root found [] = (case found of None \<Rightarrow> fail ENODEV | Some p \<Rightarrow> ok p)"
| "scan_hwmon E root found (entry # entries) =
     (if \<not> is_hwmon_directory_name entry then scan_hwmon E root found entries
      else (case build_path root entry of Inl e \<Rightarrow> fail e
        | Inr candidate \<Rightarrow>
            (case build_path candidate ''name'' of Inl e \<Rightarrow> fail e
             | Inr name_path \<Rightarrow> do {
                 name \<leftarrow> read_text_file E name_path 64;
                 (if name \<noteq> Inr IT8613_HWMON_NAME then scan_hwmon E root found entries
                  else if found \<noteq> None then fail EEXIST
                  else scan_hwmon E root (Some candidate) entries) })))"

definition find_it8613_hwmon :: "env \<Rightarrow> (errno + string) io" where
  "find_it8613_hwmon E =
     bindE (list_dir E (hwmon_root E)) (\<lambda>entries. scan_hwmon E (hwmon_root E) None entries)"

section \<open>Opening and closing\<close>

definition it8613_hwmon_open :: "env \<Rightarrow> (errno + it8613_hwmon_device) io" where
  "it8613_hwmon_open E = do {
     owner \<leftarrow> incompatible_controller_owner E;
     (if owner \<noteq> None then fail EBUSY
      else bindE (open_lock E (lock_path E)) (\<lambda>fd. do {
        l \<leftarrow> flock E fd False;
        (case l of Some e \<Rightarrow> do { close_fd fd; fail e }
         | None \<Rightarrow> do {
             r \<leftarrow> find_it8613_hwmon E;
             (case r of Inl e \<Rightarrow> do { close_fd fd; fail e }
              | Inr path \<Rightarrow> ok \<lparr>hd_path = path, hd_lock_fd = fd\<rparr>) }) })) }"

definition it8613_hwmon_close :: "it8613_hwmon_device \<Rightarrow> unit io" where
  "it8613_hwmon_close d = close_fd (hd_lock_fd d)"

section \<open>Channels\<close>

text \<open>\<^verbatim>\<open>format\<close> is one \<^verbatim>\<open>%u\<close> between \<open>pre\<close> and \<open>post\<close>.\<close>

definition channel_node_path ::
    "it8613_hwmon_device \<Rightarrow> string \<Rightarrow> string \<Rightarrow> u32 \<Rightarrow> errno + string" where
  "channel_node_path d pre post index =
     (let name = pre @ dec (unat index) @ post in
      if length name \<ge> 32 then Inl EINVAL else build_path (hd_path d) name)"

definition hwmon_tachometer :: "u64 \<Rightarrow> u16" where
  "hwmon_tachometer r =
     (if r = 0 then 0
      else (let t = 675000 div r in if t > 65535 then 65535 else ucast t))"

definition hwmon_read_channel ::
    "env \<Rightarrow> it8613_hwmon_device \<Rightarrow> it8613_hwmon_channel \<Rightarrow> (errno + fan_status) io" where
  "hwmon_read_channel E d c =
     bindE (ret (channel_node_path d ''pwm'' [] (pwm_index c))) (\<lambda>path.
     bindE (read_unsigned_file E path) (\<lambda>pwm.
     if pwm > 255 then fail ERANGE
     else
       bindE (ret (channel_node_path d ''pwm'' ''_enable'' (pwm_index c))) (\<lambda>path.
       bindE (read_unsigned_file E path) (\<lambda>enable.
       bindE (ret (channel_node_path d ''fan'' ''_input'' (fan_index c))) (\<lambda>path.
       bindE (read_unsigned_file E path) (\<lambda>v.
       ok \<lparr>fan_id = take 15 (hc_id c), fan_pwm = ucast pwm, pwm_known = True, manual = (enable = 1),
           mode_known = (enable = 1), tachometer = hwmon_tachometer v, rpm = v\<rparr>))))))"

definition write_unsigned_file :: "env \<Rightarrow> string \<Rightarrow> u32 \<Rightarrow> (errno + unit) io" where
  "write_unsigned_file E path v =
     (let buffer = dec (unat v) @ [CHR 0x0A] in
      if length buffer \<ge> 32 then fail EINVAL
      else do {
        r \<leftarrow> write_file E path buffer;
        (case r of Wopen_failed e \<Rightarrow> fail e
         | Write_failed e \<Rightarrow> fail e
         | Written n \<Rightarrow> if n \<noteq> length buffer then fail EIO else ok ()) })"

definition wait_for_hwmon_readback :: "unit io" where
  "wait_for_hwmon_readback = sleep_ms IT8613_HWMON_READBACK_RETRY_MS"

definition write_and_verify :: "env \<Rightarrow> string \<Rightarrow> u32 \<Rightarrow> (errno + unit) io" where
  "write_and_verify E path expected =
     bindE (write_unsigned_file E path expected) (\<lambda>_.
     bindE (read_unsigned_file E path) (\<lambda>actual.
     if actual \<noteq> ucast expected then do {
       wait_for_hwmon_readback;
       bindE (read_unsigned_file E path) (\<lambda>actual.
         if actual \<noteq> ucast expected then fail EIO else ok ()) }
     else ok ()))"

definition hwmon_set_channel_manual_pwm ::
    "env \<Rightarrow> it8613_hwmon_device \<Rightarrow> u8 \<Rightarrow> it8613_hwmon_channel \<Rightarrow> (errno + unit) io" where
  "hwmon_set_channel_manual_pwm E d pwm c =
     bindE (ret (channel_node_path d ''pwm'' ''_enable'' (pwm_index c))) (\<lambda>path.
     bindE (write_and_verify E path 1) (\<lambda>_.
     bindE (ret (channel_node_path d ''pwm'' [] (pwm_index c))) (\<lambda>path.
     write_and_verify E path (ucast pwm))))"

section \<open>The backend's two entry points\<close>

definition hwmon_mapping_ok :: "it8613_hwmon_channel list \<Rightarrow> bool" where
  "hwmon_mapping_ok channels \<longleftrightarrow> channels \<noteq> [] \<and> length channels \<le> UGREENCTL_MAX_FANS"

definition it8613_hwmon_read_fans ::
    "env \<Rightarrow> it8613_hwmon_channel list \<Rightarrow> (errno + fan_status list) io" where
  "it8613_hwmon_read_fans E channels =
     (if \<not> hwmon_mapping_ok channels then fail EINVAL
      else bindE (it8613_hwmon_open E) (\<lambda>d. do {
        r \<leftarrow> each_ok (hwmon_read_channel E d) channels;
        it8613_hwmon_close d;
        ret r }))"

definition it8613_hwmon_set_manual_pwm ::
    "env \<Rightarrow> it8613_hwmon_channel list \<Rightarrow> u8 \<Rightarrow> (errno + unit) io" where
  "it8613_hwmon_set_manual_pwm E channels pwm =
     (if \<not> hwmon_mapping_ok channels then fail EINVAL
      else if pwm < IT8613_MIN_MANUAL_PWM then fail EPERM
      else bindE (it8613_hwmon_open E) (\<lambda>d. do {
        r \<leftarrow> each_ok (hwmon_set_channel_manual_pwm E d pwm) channels;
        it8613_hwmon_close d;
        (case r of Inl e \<Rightarrow> fail e | Inr _ \<Rightarrow> ok ()) }))"

section \<open>The process lock is released\<close>

lemma bindE_return: "bindE (State_Monad.return x) f = (case x of Inl e \<Rightarrow> fail e | Inr y \<Rightarrow> f y)"
  by (simp add: bindE_def)

lemma dec_1: "dec (Suc 0) = ''1''"
  by code_simp

text \<open>File accesses do not concern the port discipline of \<open>Super_IO\<close>.\<close>

definition neutral :: "event \<Rightarrow> bool" where
  "neutral e \<longleftrightarrow> (case e of Access _ _ _ \<Rightarrow> True | Read_file _ _ \<Rightarrow> True | Write_file _ _ _ \<Rightarrow> True
     | List_dir _ _ \<Rightarrow> True | Sleep_ms _ \<Rightarrow> True | _ \<Rightarrow> False)"

lemma neutral_mon: "list_all neutral es \<Longrightarrow> mon_from es m = Some m"
proof (induction es)
  case (Cons e es)
  then show ?case by (cases e) (auto simp: neutral_def)
qed simp

lemma neutral_wp:
  assumes "emits neutral m" "mon_run h = Some x"
  shows "wp m (\<lambda>_ h'. mon_run h' = Some x) h"
  by (rule wp_mono [OF appends_wp [OF assms(1)]]) (use assms(2) in \<open>auto simp: neutral_mon\<close>)

lemma appends_case_file_write [emits_intros]:
  "(\<And>e. r = Wopen_failed e \<Longrightarrow> appends P (f e)) \<Longrightarrow> (\<And>e. r = Write_failed e \<Longrightarrow> appends P (g e)) \<Longrightarrow>
   (\<And>n. r = Written n \<Longrightarrow> appends P (k n)) \<Longrightarrow>
   appends P (case r of Wopen_failed e \<Rightarrow> f e | Write_failed e \<Rightarrow> g e | Written n \<Rightarrow> k n)"
  by (cases r) auto

lemma emits_read_text [emits_intros]:
  "(\<And>r. A (Read_file p r)) \<Longrightarrow> emits A (read_text_file E p n)"
  unfolding read_text_file_def calls by (intro emits_intros)

lemma emits_read_unsigned [emits_intros]:
  "(\<And>r. A (Read_file p r)) \<Longrightarrow> emits A (read_unsigned_file E p)"
  unfolding read_unsigned_file_def by (intro emits_intros)

lemma emits_write_and_verify [emits_intros]:
  "(\<And>r. A (Read_file p r)) \<Longrightarrow> (\<And>r. A (Write_file p (dec (unat v) @ [CHR 0x0A]) r)) \<Longrightarrow>
   A (Sleep_ms 2000) \<Longrightarrow> emits A (write_and_verify E p v)"
  unfolding write_and_verify_def write_unsigned_file_def wait_for_hwmon_readback_def
    sleep_ms_def write_file_def IT8613_HWMON_READBACK_RETRY_MS_def
  by (intro emits_intros)

lemma emits_scan_hwmon [emits_intros]:
  assumes "\<And>p r. A (Read_file p r)"
  shows "emits A (scan_hwmon E root found names)"
proof (induction names arbitrary: found)
  case (Cons n names)
  show ?case unfolding scan_hwmon.simps by (intro emits_intros Cons assms)
qed (auto intro!: emits_intros)

lemma emits_find_hwmon [emits_intros]:
  "(\<And>p r. A (Read_file p r)) \<Longrightarrow> (\<And>p r. A (List_dir p r)) \<Longrightarrow> emits A (find_it8613_hwmon E)"
  unfolding find_it8613_hwmon_def list_dir_def by (intro emits_intros)

lemma emits_first_accessible [emits_intros]:
  "(\<And>p m r. A (Access p m r)) \<Longrightarrow> emits A (first_accessible E ps)"
  by (induction ps) (auto simp: calls intro!: emits_intros)

lemma emits_read_channel [emits_intros]:
  "(\<And>p r. A (Read_file p r)) \<Longrightarrow> emits A (hwmon_read_channel E d c)"
  unfolding hwmon_read_channel_def by (intro emits_intros)

lemma emits_set_channel [emits_intros]:
  "(\<And>p r. A (Read_file p r)) \<Longrightarrow> A (Sleep_ms 2000) \<Longrightarrow>
   (\<And>p r. channel_node_path d ''pwm'' ''_enable'' (pwm_index c) = Inr p \<Longrightarrow>
      A (Write_file p (''1'' @ [CHR 0x0A]) r)) \<Longrightarrow>
   (\<And>p r. channel_node_path d ''pwm'' [] (pwm_index c) = Inr p \<Longrightarrow>
      A (Write_file p (dec (unat pwm) @ [CHR 0x0A]) r)) \<Longrightarrow>
   emits A (hwmon_set_channel_manual_pwm E d pwm c)"
  unfolding hwmon_set_channel_manual_pwm_def bindE_return
  by (intro emits_intros) (simp_all add: dec_1)

text \<open>The session of both entry points.\<close>

definition hwmon_held :: "it8613_hwmon_device \<Rightarrow> trace \<Rightarrow> bool" where
  "hwmon_held d h \<longleftrightarrow> mon_run h = Some (mon_idle\<lparr>m_fd := Some (hd_lock_fd d), m_locked := True\<rparr>)"

lemma hwmon_open_held:
  assumes "sio_idle h"
  shows "wp (it8613_hwmon_open E) (\<lambda>r h'. case r of Inl e \<Rightarrow> sio_idle h' | Inr d \<Rightarrow> hwmon_held d h') h"
proof -
  have own: "wp (incompatible_controller_owner E) (\<lambda>_ g. mon_run g = Some mon_idle) h"
    unfolding incompatible_controller_owner_def
    by (rule neutral_wp) (use assms in \<open>auto simp: sio_idle_def neutral_def intro!: emits_intros\<close>)
  have find: "wp (find_it8613_hwmon E) (\<lambda>_ g'. mon_run g' = mon_run g) g"
    if "mon_run g = Some m" for g m
    unfolding that by (rule neutral_wp [OF emits_find_hwmon that]) (auto simp: neutral_def)
  show ?thesis
    unfolding it8613_hwmon_open_def
    apply (rule wp_bindI, rule wp_mono [OF own])
    apply (auto simp: calls sio_idle_def intro!: wp_intros wp_mono [OF find])
    apply (auto simp: mon_defs hwmon_held_def sio_idle_def)
    done
qed

lemma hwmon_session_idle:
  assumes "sio_idle h" and body: "\<And>d. emits neutral (body d)"
  shows "wp (bindE (it8613_hwmon_open E) (\<lambda>d. do { r \<leftarrow> body d; it8613_hwmon_close d; ret (k r) }))
           (\<lambda>_ h'. sio_idle h') h"
proof -
  have work: "wp (body d) (\<lambda>_ g'. hwmon_held d g') g" if "hwmon_held d g" for d g
    using that unfolding hwmon_held_def by (rule neutral_wp [OF body])
  have close: "wp (it8613_hwmon_close d) (\<lambda>_ g'. sio_idle g') g" if "hwmon_held d g" for d g
    using that by (simp add: it8613_hwmon_close_def calls wp_simps hwmon_held_def sio_idle_def mon_defs)
  have tail: "wp (do { r \<leftarrow> body d; it8613_hwmon_close d; ret (k r) }) (\<lambda>_ g'. sio_idle g') g"
    if "hwmon_held d g" for d g
    by (rule wp_bindI, rule wp_mono [OF work [OF that]], rule wp_bindI)
      (simp add: wp_return close)
  show ?thesis
    by (rule wp_bindEI, rule wp_mono [OF hwmon_open_held [OF assms(1)]])
      (auto split: sum.splits intro: tail)
qed

lemma hwmon_read_fans_idle:
  "sio_idle h \<Longrightarrow> wp (it8613_hwmon_read_fans E cs) (\<lambda>_ h'. sio_idle h') h"
  unfolding it8613_hwmon_read_fans_def
  by (intro wp_ifI, simp add: wp_simps, erule hwmon_session_idle [where k = "\<lambda>r. r"])
    (auto simp: neutral_def intro!: emits_intros)

lemma set_result: "(case r of Inl e \<Rightarrow> fail e | Inr _ \<Rightarrow> ok ()) = ret (case r of Inl e \<Rightarrow> Inl e | Inr _ \<Rightarrow> Inr ())"
  by (simp split: sum.splits)

lemma hwmon_set_manual_pwm_idle:
  "sio_idle h \<Longrightarrow> wp (it8613_hwmon_set_manual_pwm E cs pwm) (\<lambda>_ h'. sio_idle h') h"
  unfolding it8613_hwmon_set_manual_pwm_def set_result
  by (intro wp_ifI, simp add: wp_simps, simp add: wp_simps, erule hwmon_session_idle)
    (auto simp: neutral_def intro!: emits_intros)

section \<open>The lookup finds the one node\<close>

text \<open>The specification: the directory entries whose \<^verbatim>\<open>name\<close> file says \<^verbatim>\<open>it8613\<close>.\<close>

definition it8613_nodes :: "(string \<Rightarrow> file_read) \<Rightarrow> string \<Rightarrow> string list \<Rightarrow> string list" where
  "it8613_nodes files root names =
     filter (\<lambda>n. is_hwmon_directory_name n \<and>
       text_of_read 64 (files (root @ ''/'' @ n @ ''/name'')) = Inr IT8613_HWMON_NAME) names"

definition select_one :: "string list \<Rightarrow> errno + string" where
  "select_one ns = (case ns of [] \<Rightarrow> Inl ENODEV | [n] \<Rightarrow> Inr n | _ \<Rightarrow> Inl EEXIST)"

lemma scan_hwmon_spec:
  assumes files: "\<And>h p. e_read E h p = files p"
    and short: "\<forall>n \<in> set names. length root + length n + 6 < PATH_MAX"
  shows "wp (scan_hwmon E root found names)
           (\<lambda>r _. r = select_one ((case found of None \<Rightarrow> [] | Some p \<Rightarrow> [p]) @
                        map (\<lambda>n. root @ ''/'' @ n) (it8613_nodes files root names))) h"
  using short
proof (induction names arbitrary: found h)
  case Nil
  show ?case by (cases found) (auto simp: it8613_nodes_def select_one_def wp_simps)
next
  case (Cons n names)
  let ?here = "text_of_read 64 (files (root @ ''/'' @ n @ ''/name'')) = Inr IT8613_HWMON_NAME"
  have short: "length root + length n + 6 < PATH_MAX" using Cons.prems by simp
  have IH: "wp (scan_hwmon E root f names) (\<lambda>r _. r = select_one ((case f of None \<Rightarrow> [] | Some p \<Rightarrow> [p]) @
                map (\<lambda>n. root @ ''/'' @ n) (it8613_nodes files root names))) g" for f g
    by (rule Cons.IH) (use Cons.prems in simp)
  have skip: "it8613_nodes files root (n # names) = it8613_nodes files root names"
    if "\<not> (is_hwmon_directory_name n \<and> ?here)"
    using that by (auto simp: it8613_nodes_def)
  show ?case
  proof (cases "is_hwmon_directory_name n \<and> ?here")
    case False
    then show ?thesis unfolding skip [OF False]
      using short IH by (auto simp: build_path_def read_text_file_def files calls wp_simps)
  next
    case True
    then have "it8613_nodes files root (n # names) = n # it8613_nodes files root names"
      by (simp add: it8613_nodes_def)
    with True short IH [of "Some (root @ ''/'' @ n)"] show ?thesis
      by (cases found) (auto simp: build_path_def read_text_file_def files calls wp_simps
        select_one_def split: list.splits)
  qed
qed

text \<open>
  If the directory can be listed and its files do not change during the lookup, the
  lookup returns the one entry \<^verbatim>\<open>hwmon<number>\<close> whose name file says \<^verbatim>\<open>it8613\<close>, fails with
  \<^verbatim>\<open>ENODEV\<close> when there is none and with \<^verbatim>\<open>EEXIST\<close> when there are several.
\<close>

theorem find_it8613_hwmon_unique:
  assumes "\<And>h p. e_read E h p = files p"
    and "e_listdir E h (hwmon_root E) = Inr names"
    and "\<forall>n \<in> set names. length (hwmon_root E) + length n + 6 < PATH_MAX"
  shows "fst (run_state (find_it8613_hwmon E) h) =
           (case it8613_nodes files (hwmon_root E) names of
              [] \<Rightarrow> Inl ENODEV | [n] \<Rightarrow> Inr (hwmon_root E @ ''/'' @ n) | _ \<Rightarrow> Inl EEXIST)"
proof -
  have "wp (find_it8613_hwmon E) (\<lambda>r _. r = select_one (map (\<lambda>n. hwmon_root E @ ''/'' @ n)
      (it8613_nodes files (hwmon_root E) names))) h"
    unfolding find_it8613_hwmon_def calls
    using assms(2) scan_hwmon_spec [OF assms(1) assms(3), where found = None] by (simp add: wp_simps)
  then show ?thesis
    by (auto simp: wp_def select_one_def split: prod.splits list.splits)
qed

definition example_hwmon_file :: "string \<Rightarrow> file_read" where
  "example_hwmon_file p =
     (if p = ''/sys/class/hwmon/hwmon4/name'' then File_data (''it8613'' @ [CHR 0x0A]) None
      else if p = ''/sys/class/hwmon/hwmon0/name'' then File_data (''acpitz'' @ [CHR 0x0A]) None
      else Open_failed ENOENT)"

definition example_hwmon_env :: env where
  "example_hwmon_env = example_env\<lparr>
     e_listdir := (\<lambda>_ _. Inr [''.'', ''..'', ''hwmon0'', ''hwmon4'', ''hwmonX'']),
     e_read := (\<lambda>_. example_hwmon_file)\<rparr>"

theorem find_it8613_hwmon_unique_witness:
  "fst (run_state (find_it8613_hwmon example_hwmon_env) []) = Inr ''/sys/class/hwmon/hwmon4''"
proof -
  have root: "hwmon_root example_hwmon_env = ''/sys/class/hwmon''"
    by (simp add: hwmon_root_def example_hwmon_env_def example_env_def env_or_def)
  have nodes: "it8613_nodes example_hwmon_file ''/sys/class/hwmon'' [''.'', ''..'', ''hwmon0'', ''hwmon4'', ''hwmonX''] = [''hwmon4'']"
    by code_simp
  show ?thesis
    using find_it8613_hwmon_unique [of example_hwmon_env example_hwmon_file "[]"
        "[''.'', ''..'', ''hwmon0'', ''hwmon4'', ''hwmonX'']"] nodes
    unfolding root by (simp add: example_hwmon_env_def PATH_MAX_def)
qed

section \<open>What can be written, and when\<close>

text \<open>The files a request may write: the two nodes of a requested channel, under an entry of
  the hwmon directory.  No port is written.\<close>

definition hwmon_event_allowed :: "string \<Rightarrow> it8613_hwmon_channel list \<Rightarrow> u8 \<Rightarrow> event \<Rightarrow> bool" where
  "hwmon_event_allowed root channels pwm e \<longleftrightarrow>
     (case e of
        Write_file p s _ \<Rightarrow>
          (\<exists>n c. is_hwmon_directory_name n \<and> c \<in> set channels \<and>
             (p = root @ ''/'' @ n @ ''/pwm'' @ dec (unat (pwm_index c)) @ ''_enable'' \<and> s = ''1'' @ [CHR 0x0A] \<or>
              p = root @ ''/'' @ n @ ''/pwm'' @ dec (unat (pwm_index c)) \<and> s = dec (unat pwm) @ [CHR 0x0A]))
      | Outb _ _ \<Rightarrow> False
      | _ \<Rightarrow> True)"

definition hwmon_node :: "string \<Rightarrow> string \<Rightarrow> bool" where
  "hwmon_node root p \<longleftrightarrow> (\<exists>n. is_hwmon_directory_name n \<and> p = root @ ''/'' @ n)"

lemma scan_hwmon_node:
  assumes "\<And>p. found = Some p \<Longrightarrow> hwmon_node root p"
  shows "wp (scan_hwmon E root found names) (\<lambda>r _. \<forall>p. r = Inr p \<longrightarrow> hwmon_node root p) h"
  using assms
proof (induction names arbitrary: found h)
  case Nil
  then show ?case by (auto simp: wp_simps split: option.splits)
next
  case (Cons n names)
  have rest: "wp (scan_hwmon E root found names) (\<lambda>r _. \<forall>p. r = Inr p \<longrightarrow> hwmon_node root p) g" for g
    by (rule Cons.IH) (rule Cons.prems)
  have new: "wp (scan_hwmon E root (Some c) names) (\<lambda>r _. \<forall>p. r = Inr p \<longrightarrow> hwmon_node root p) g"
    if "is_hwmon_directory_name n" "build_path root n = Inr c" for g c
    by (rule Cons.IH) (use that in \<open>auto simp: hwmon_node_def build_path_def Let_def split: if_splits\<close>)
  show ?case
    unfolding scan_hwmon.simps read_text_file_def calls
    by (intro wp_intros rest new) auto
qed

lemma hwmon_open_node:
  "wp (it8613_hwmon_open E) (\<lambda>r _. \<forall>d. r = Inr d \<longrightarrow> hwmon_node (hwmon_root E) (hd_path d)) h"
proof -
  have find: "wp (find_it8613_hwmon E) (\<lambda>r _. \<forall>p. r = Inr p \<longrightarrow> hwmon_node (hwmon_root E) p) g" for g
    unfolding find_it8613_hwmon_def calls by (intro wp_intros scan_hwmon_node) auto
  show ?thesis
    unfolding it8613_hwmon_open_def open_lock_def flock_def close_fd_def
    by (rule wp_bindI, rule wp_mono [OF wp_True])
      (intro wp_intros wp_mono [OF find]; auto)
qed

lemma channel_path:
  "channel_node_path d pre post i = Inr p \<Longrightarrow> p = hd_path d @ ''/'' @ pre @ dec (unat i) @ post"
  by (auto simp: channel_node_path_def build_path_def Let_def split: if_splits)

lemma emits_hwmon_open [emits_intros]:
  "(\<And>p m r. A (Access p m r)) \<Longrightarrow> (\<And>p r. A (Open_lock p r)) \<Longrightarrow> (\<And>fd b r. A (Flock fd b r)) \<Longrightarrow>
   (\<And>fd. A (Close_fd fd)) \<Longrightarrow> (\<And>p r. A (Read_file p r)) \<Longrightarrow> (\<And>p r. A (List_dir p r)) \<Longrightarrow>
   emits A (it8613_hwmon_open E)"
  unfolding it8613_hwmon_open_def incompatible_controller_owner_def open_lock_def flock_def close_fd_def
  by (intro emits_intros)

lemma set_channel_allowed:
  assumes "hwmon_node root (hd_path d)" "c \<in> set channels"
  shows "emits (hwmon_event_allowed root channels pwm) (hwmon_set_channel_manual_pwm E d pwm c)"
  using assms
  by (intro emits_set_channel) (auto simp: hwmon_event_allowed_def hwmon_node_def dest!: channel_path, blast+)

text \<open>
  Whatever the machine answers, a manual-PWM request through hwmon writes no port and
  no file except, for a requested channel and under an entry \<^verbatim>\<open>hwmon<number>\<close> of the hwmon
  directory, \<^verbatim>\<open>pwmN_enable\<close> with 1 and \<^verbatim>\<open>pwmN\<close> with the requested duty; below duty 40 nothing
  happens at all.
\<close>

theorem hwmon_set_manual_pwm_writes:
  "\<exists>es. snd (run_state (it8613_hwmon_set_manual_pwm E channels pwm) h) = h @ es \<and>
        list_all (hwmon_event_allowed (hwmon_root E) channels pwm) es \<and> (pwm < 40 \<longrightarrow> es = [])"
proof (cases "pwm < 40 \<or> \<not> hwmon_mapping_ok channels")
  case True
  then have "snd (run_state (it8613_hwmon_set_manual_pwm E channels pwm) h) = h"
    by (auto simp: it8613_hwmon_set_manual_pwm_def IT8613_MIN_MANUAL_PWM_def)
  then show ?thesis by simp
next
  case False
  let ?A = "hwmon_event_allowed (hwmon_root E) channels pwm"
  have op: "wp (it8613_hwmon_open E)
      (\<lambda>r g. extends ?A h g \<and> (\<forall>d. r = Inr d \<longrightarrow> hwmon_node (hwmon_root E) (hd_path d))) h"
    by (rule wp_conj [OF emits_extends hwmon_open_node])
      (auto simp: hwmon_event_allowed_def intro!: emits_hwmon_open)
  have body: "emits ?A (do { r \<leftarrow> each_ok (hwmon_set_channel_manual_pwm E d pwm) channels;
        it8613_hwmon_close d; (case r of Inl e \<Rightarrow> fail e | Inr _ \<Rightarrow> ok ()) })"
    if "hwmon_node (hwmon_root E) (hd_path d)" for d
    unfolding it8613_hwmon_close_def close_fd_def
    by (intro emits_intros set_channel_allowed that) (auto simp: hwmon_event_allowed_def)
  have "wp (it8613_hwmon_set_manual_pwm E channels pwm) (\<lambda>_ g. extends ?A h g) h"
    unfolding it8613_hwmon_set_manual_pwm_def
    by (intro wp_ifI wp_bindEI wp_mono [OF op])
      (auto simp: wp_simps split: sum.splits intro!: emits_extends body simp del: wp_bind)
  with False show ?thesis by (auto simp: wp_def extends_def split: prod.splits)
qed

theorem hwmon_set_manual_pwm_writes_witness:
  "(39 :: u8) < 40 \<and>
   snd (run_state (it8613_hwmon_set_manual_pwm example_hwmon_env
     [\<lparr>hc_id = ''sys'', pwm_index = 3, fan_index = 3\<rparr>] 39) []) = []"
  using hwmon_set_manual_pwm_writes [of example_hwmon_env _ 39 "[]"] by fastforce

section \<open>Success means the hardware confirmed it\<close>

definition value_of_read :: "file_read \<Rightarrow> errno + u64" where
  "value_of_read r = (case text_of_read 64 r of Inl e \<Rightarrow> Inl e | Inr b \<Rightarrow> parse_unsigned b)"

text \<open>A complete write of \<open>v\<close> followed by a read of the same file that returned \<open>v\<close>, at once or
  after the two-second wait.\<close>

definition confirmed :: "string \<Rightarrow> u32 \<Rightarrow> trace \<Rightarrow> bool" where
  "confirmed path v es \<longleftrightarrow>
     (\<exists>r. value_of_read r = Inr (ucast v) \<and>
       (let s = dec (unat v) @ [CHR 0x0A]; w = Write_file path s (Written (length s)) in
        es = [w, Read_file path r] \<or>
        (\<exists>r'. es = [w, Read_file path r', Sleep_ms 2000, Read_file path r])))"

lemma read_unsigned_wp:
  "(\<And>r. Q (value_of_read r) (h @ [Read_file p r])) \<Longrightarrow> wp (read_unsigned_file E p) Q h"
  unfolding read_unsigned_file_def read_text_file_def calls value_of_read_def
  by (cases "text_of_read 64 (e_read E h p)"; drule meta_spec [of _ "e_read E h p"])
    (simp_all add: wp_simps)

lemma write_unsigned_wp:
  assumes "\<And>s r e. Q (Inl e) (h @ [Write_file p s r])" "\<And>e. Q (Inl e) h"
    and "let s = dec (unat v) @ [CHR 0x0A] in Q (Inr ()) (h @ [Write_file p s (Written (length s))])"
  shows "wp (write_unsigned_file E p v) Q h"
  unfolding write_unsigned_file_def calls
  using assms by (auto simp: wp_simps Let_def split: file_write.splits)

lemma write_and_verify_confirms:
  "wp (write_and_verify E p v) (\<lambda>r h'. (\<exists>es. h' = h @ es) \<and>
      (\<forall>u. r = Inr u \<longrightarrow> (\<exists>es. h' = h @ es \<and> confirmed p v es))) h"
  unfolding write_and_verify_def wait_for_hwmon_readback_def sleep_ms_def IT8613_HWMON_READBACK_RETRY_MS_def
  by (auto intro!: wp_bindEI write_unsigned_wp read_unsigned_wp wp_ifI wp_bindI wp_primI wp_returnI
      simp: Let_def confirmed_def split: sum.splits)

text \<open>The whole transaction of one channel: manual mode confirmed, then the duty confirmed.\<close>

definition channel_confirmed :: "string \<Rightarrow> u8 \<Rightarrow> it8613_hwmon_channel \<Rightarrow> trace \<Rightarrow> bool" where
  "channel_confirmed node pwm c h \<longleftrightarrow>
     (\<exists>a e1 e2 b. h = a @ e1 @ e2 @ b \<and>
        confirmed (node @ ''/pwm'' @ dec (unat (pwm_index c)) @ ''_enable'') 1 e1 \<and>
        confirmed (node @ ''/pwm'' @ dec (unat (pwm_index c))) (ucast pwm) e2)"

lemma channel_confirmed_append: "channel_confirmed node pwm c h \<Longrightarrow> channel_confirmed node pwm c (h @ es)"
  unfolding channel_confirmed_def by (metis append.assoc)

lemma set_channel_confirms:
  "wp (hwmon_set_channel_manual_pwm E d pwm c) (\<lambda>r g'. (\<exists>es. g' = g @ es) \<and>
      (\<forall>u. r = Inr u \<longrightarrow> channel_confirmed (hd_path d) pwm c g')) g"
  unfolding hwmon_set_channel_manual_pwm_def bindE_return
proof (intro wp_sumI, simp add: wp_simps, rule wp_bindEI, rule wp_mono [OF write_and_verify_confirms], goal_cases)
  case (1 p r h1)
  show ?case
  proof (cases r)
    case (Inr u)
    with 1 obtain e1 where e1: "h1 = g @ e1" "confirmed p 1 e1" by auto
    show ?thesis
    proof (cases "channel_node_path d ''pwm'' [] (pwm_index c)")
      case (Inr q)
      show ?thesis
        by (simp add: \<open>r = Inr u\<close> Inr, rule wp_mono [OF write_and_verify_confirms])
          (use 1(1) e1 Inr in \<open>auto simp: channel_confirmed_def dest!: channel_path\<close>,
           metis append.assoc append_Nil2)
    qed (use Inr e1 in \<open>simp add: wp_simps\<close>)
  qed (use 1 in simp)
qed


definition example_sysfs :: "string \<Rightarrow> file_read" where
  "example_sysfs p =
     (if p = ''/sys/class/hwmon/hwmon4/pwm3_enable'' then File_data (''1'' @ [CHR 0x0A]) None
      else if p = ''/sys/class/hwmon/hwmon4/pwm3'' then File_data (''120'' @ [CHR 0x0A]) None
      else example_hwmon_file p)"

definition example_sysfs_env :: env where
  "example_sysfs_env = example_hwmon_env\<lparr>
     e_read := (\<lambda>_. example_sysfs), e_write := (\<lambda>_ _ s. Written (length s))\<rparr>"


end
