(* ===== verification/Fan_Models.thy ===== *)
theory Fan_Models
  imports Fan_Hwmon
begin

text \<open>
  The model-specific fan routes (\<^verbatim>\<open>fan/it8613_fan.c\<close> for the DXP4800 Plus/Pro and one
  \<^verbatim>\<open>fan/it8613_<model>.c\<close> per other model): which hwmon channels and which chip registers
  belong to a fan target, and the fallback from hwmon to direct register access.  Every file
  has its own tables and its own copy of the two functions; the model keeps them apart in the
  same way.  \<open>E\<close> is the machine, \<open>T\<close> the Super I/O transport of the build.
\<close>

section \<open>The fallback both kinds of route have\<close>

text \<open>\<^verbatim>\<open>if (result != -ENODEV) return result;\<close> between the two backends.\<close>

definition read_with_fallback ::
    "env \<Rightarrow> transport \<Rightarrow> it8613_hwmon_channel list \<Rightarrow> it8613_direct_channel list \<Rightarrow>
     (errno + fan_status list) io" where
  "read_with_fallback E T channels direct_channels = do {
     r \<leftarrow> it8613_hwmon_read_fans E channels;
     (if r \<noteq> Inl ENODEV then ret r else it8613_direct_read_fans T direct_channels) }"

definition set_with_fallback ::
    "env \<Rightarrow> transport \<Rightarrow> it8613_hwmon_channel list \<Rightarrow> it8613_direct_channel list \<Rightarrow> u8 \<Rightarrow>
     (errno + unit) io" where
  "set_with_fallback E T channels direct_channels pwm = do {
     r \<leftarrow> it8613_hwmon_set_manual_pwm E channels pwm;
     (if r \<noteq> Inl ENODEV then ret r else it8613_direct_set_manual_pwm T direct_channels pwm) }"

text \<open>The same with the \<^verbatim>\<open>--force\<close> check in front of the direct write.\<close>

definition set_with_forced_fallback ::
    "env \<Rightarrow> transport \<Rightarrow> bool \<Rightarrow> it8613_hwmon_channel list \<Rightarrow> it8613_direct_channel list \<Rightarrow> u8 \<Rightarrow>
     (errno + unit) io" where
  "set_with_forced_fallback E T force channels direct_channels pwm = do {
     r \<leftarrow> it8613_hwmon_set_manual_pwm E channels pwm;
     (if r \<noteq> Inl ENODEV then ret r
      else if \<not> force then fail EPERM
      else it8613_direct_set_manual_pwm T direct_channels pwm) }"

abbreviation hwmon_channel :: "string \<Rightarrow> u32 \<Rightarrow> u32 \<Rightarrow> it8613_hwmon_channel" where
  "hwmon_channel i p f \<equiv> \<lparr>hc_id = i, pwm_index = p, fan_index = f\<rparr>"

abbreviation direct_channel :: "string \<Rightarrow> u8 \<Rightarrow> u8 \<Rightarrow> u8 \<Rightarrow> u8 \<Rightarrow> bool \<Rightarrow> it8613_direct_channel" where
  "direct_channel i c d l h s \<equiv> \<lparr>dc_id = i, control_register = c, duty_register = d,
     tachometer_low_register = l, tachometer_high_register = h, pwm_supported = s\<rparr>"

section \<open>DXP4800 Plus and DXP4800 Pro\<close>

definition fan_channels :: "it8613_hwmon_channel list" where
  "fan_channels = [hwmon_channel ''cpu'' 2 2, hwmon_channel ''sys'' 3 3]"

definition fan_direct_channels :: "it8613_direct_channel list" where
  "fan_direct_channels =
     [direct_channel ''cpu'' 0x16 0x6b 0x0e 0x19 True, direct_channel ''sys'' 0x17 0x73 0x0f 0x1a True]"

definition it8613_read_fans :: "env \<Rightarrow> transport \<Rightarrow> bool \<Rightarrow> (errno + fan_status list) io" where
  "it8613_read_fans E T force = read_with_fallback E T fan_channels fan_direct_channels"

definition it8613_set_fan_pwm :: "env \<Rightarrow> transport \<Rightarrow> bool \<Rightarrow> string \<Rightarrow> u8 \<Rightarrow> (errno + unit) io" where
  "it8613_set_fan_pwm E T force target pwm =
     (if target = ''cpu''
      then set_with_forced_fallback E T force [fan_channels ! 0] [fan_direct_channels ! 0] pwm
      else if target = ''sys''
      then set_with_forced_fallback E T force [fan_channels ! 1] [fan_direct_channels ! 1] pwm
      else fail EINVAL)"

section \<open>Single-fan models\<close>

definition dx4600_channel :: it8613_hwmon_channel where
  "dx4600_channel = hwmon_channel ''sys'' 3 3"

definition dx4600_direct_channel :: it8613_direct_channel where
  "dx4600_direct_channel = direct_channel ''sys'' 0x17 0x73 0x0f 0x1a True"

definition it8613_dx4600_read_fan :: "env \<Rightarrow> transport \<Rightarrow> (errno + fan_status list) io" where
  "it8613_dx4600_read_fan E T = read_with_fallback E T [dx4600_channel] [dx4600_direct_channel]"

definition it8613_dx4600_set_fan_pwm :: "env \<Rightarrow> transport \<Rightarrow> string \<Rightarrow> u8 \<Rightarrow> (errno + unit) io" where
  "it8613_dx4600_set_fan_pwm E T target pwm =
     (if target \<noteq> ''sys'' then fail EINVAL
      else set_with_fallback E T [dx4600_channel] [dx4600_direct_channel] pwm)"

definition dxp4800_channel :: it8613_hwmon_channel where
  "dxp4800_channel = hwmon_channel ''sys'' 3 3"

definition dxp4800_direct_channel :: it8613_direct_channel where
  "dxp4800_direct_channel = direct_channel ''sys'' 0x17 0x73 0x0f 0x1a True"

definition it8613_dxp4800_read_fan :: "env \<Rightarrow> transport \<Rightarrow> (errno + fan_status list) io" where
  "it8613_dxp4800_read_fan E T = read_with_fallback E T [dxp4800_channel] [dxp4800_direct_channel]"

definition it8613_dxp4800_set_fan_pwm :: "env \<Rightarrow> transport \<Rightarrow> string \<Rightarrow> u8 \<Rightarrow> (errno + unit) io" where
  "it8613_dxp4800_set_fan_pwm E T target pwm =
     (if target \<noteq> ''sys'' then fail EINVAL
      else set_with_fallback E T [dxp4800_channel] [dxp4800_direct_channel] pwm)"

definition dxp4800s_channel :: it8613_hwmon_channel where
  "dxp4800s_channel = hwmon_channel ''sys'' 3 3"

definition dxp4800s_direct_channel :: it8613_direct_channel where
  "dxp4800s_direct_channel = direct_channel ''sys'' 0x17 0x73 0x0f 0x1a True"

definition it8613_dxp4800s_read_fan :: "env \<Rightarrow> transport \<Rightarrow> (errno + fan_status list) io" where
  "it8613_dxp4800s_read_fan E T = read_with_fallback E T [dxp4800s_channel] [dxp4800s_direct_channel]"

definition it8613_dxp4800s_set_fan_pwm :: "env \<Rightarrow> transport \<Rightarrow> string \<Rightarrow> u8 \<Rightarrow> (errno + unit) io" where
  "it8613_dxp4800s_set_fan_pwm E T target pwm =
     (if target \<noteq> ''sys'' then fail EINVAL
      else set_with_fallback E T [dxp4800s_channel] [dxp4800s_direct_channel] pwm)"

section \<open>DXP480T Plus\<close>

definition dxp480t_status_channels :: "it8613_hwmon_channel list" where
  "dxp480t_status_channels =
     [hwmon_channel ''cpu'' 3 3, hwmon_channel ''sys1'' 2 2, hwmon_channel ''sys2'' 4 4]"

definition dxp480t_system_write_channels :: "it8613_hwmon_channel list" where
  "dxp480t_system_write_channels = [hwmon_channel ''sys1'' 2 2, hwmon_channel ''sys2'' 4 4]"

definition dxp480t_direct_status_channels :: "it8613_direct_channel list" where
  "dxp480t_direct_status_channels =
     [direct_channel ''cpu'' 0x17 0x73 0x0f 0x1a True, direct_channel ''sys1'' 0x16 0x6b 0x0e 0x19 True,
      direct_channel ''sys2'' 0x1e 0x7b 0x80 0x81 True]"

definition dxp480t_direct_system_write_channels :: "it8613_direct_channel list" where
  "dxp480t_direct_system_write_channels =
     [direct_channel ''sys1'' 0x16 0x6b 0x0e 0x19 True, direct_channel ''sys2'' 0x1e 0x7b 0x80 0x81 True]"

definition it8613_dxp480t_read_fans :: "env \<Rightarrow> transport \<Rightarrow> (errno + fan_status list) io" where
  "it8613_dxp480t_read_fans E T =
     read_with_fallback E T dxp480t_status_channels dxp480t_direct_status_channels"

definition it8613_dxp480t_set_fan_pwm :: "env \<Rightarrow> transport \<Rightarrow> bool \<Rightarrow> string \<Rightarrow> u8 \<Rightarrow> (errno + unit) io" where
  "it8613_dxp480t_set_fan_pwm E T force target pwm =
     (if target \<noteq> ''cpu'' \<and> target \<noteq> ''all'' then fail EINVAL
      else if target = ''cpu''
      then set_with_forced_fallback E T force [dxp480t_status_channels ! 0]
             [dxp480t_direct_status_channels ! 0] pwm
      else set_with_forced_fallback E T force dxp480t_system_write_channels
             dxp480t_direct_system_write_channels pwm)"

section \<open>The DXP6800 family\<close>

definition dxp6800_status_channels :: "it8613_hwmon_channel list" where
  "dxp6800_status_channels =
     [hwmon_channel ''cpu'' 2 2, hwmon_channel ''sys1'' 3 3, hwmon_channel ''sys2'' 4 4]"

definition dxp6800_system_write_channels :: "it8613_hwmon_channel list" where
  "dxp6800_system_write_channels = [hwmon_channel ''sys1'' 3 3, hwmon_channel ''sys2'' 4 4]"

definition dxp6800_direct_status_channels :: "it8613_direct_channel list" where
  "dxp6800_direct_status_channels =
     [direct_channel ''cpu'' 0x16 0x6b 0x0e 0x19 True, direct_channel ''sys1'' 0x17 0x73 0x0f 0x1a True,
      direct_channel ''sys2'' 0x1e 0x7b 0x80 0x81 True]"

definition it8613_dxp6800_read_fans :: "env \<Rightarrow> transport \<Rightarrow> (errno + fan_status list) io" where
  "it8613_dxp6800_read_fans E T = read_with_fallback E T dxp6800_status_channels dxp6800_direct_status_channels"

definition it8613_dxp6800_set_fan_pwm :: "env \<Rightarrow> transport \<Rightarrow> bool \<Rightarrow> string \<Rightarrow> u8 \<Rightarrow> (errno + unit) io" where
  "it8613_dxp6800_set_fan_pwm E T force target pwm =
     (if target = ''cpu''
      then set_with_forced_fallback E T force (take 1 dxp6800_status_channels)
             (take 1 dxp6800_direct_status_channels) pwm
      else if target = ''sys''
      then set_with_forced_fallback E T force dxp6800_system_write_channels
             (take 2 (drop 1 dxp6800_direct_status_channels)) pwm
      else fail EINVAL)"

definition dxp6800plus_status_channels :: "it8613_hwmon_channel list" where
  "dxp6800plus_status_channels =
     [hwmon_channel ''cpu'' 2 2, hwmon_channel ''sys1'' 3 3, hwmon_channel ''sys2'' 4 4]"

definition dxp6800plus_system_write_channels :: "it8613_hwmon_channel list" where
  "dxp6800plus_system_write_channels = [hwmon_channel ''sys1'' 3 3, hwmon_channel ''sys2'' 4 4]"

definition dxp6800plus_direct_status_channels :: "it8613_direct_channel list" where
  "dxp6800plus_direct_status_channels =
     [direct_channel ''cpu'' 0x16 0x6b 0x0e 0x19 True, direct_channel ''sys1'' 0x17 0x73 0x0f 0x1a True,
      direct_channel ''sys2'' 0x1e 0x7b 0x80 0x81 True]"

definition it8613_dxp6800plus_read_fans :: "env \<Rightarrow> transport \<Rightarrow> (errno + fan_status list) io" where
  "it8613_dxp6800plus_read_fans E T = read_with_fallback E T dxp6800plus_status_channels dxp6800plus_direct_status_channels"

definition it8613_dxp6800plus_set_fan_pwm :: "env \<Rightarrow> transport \<Rightarrow> bool \<Rightarrow> string \<Rightarrow> u8 \<Rightarrow> (errno + unit) io" where
  "it8613_dxp6800plus_set_fan_pwm E T force target pwm =
     (if target = ''cpu''
      then set_with_forced_fallback E T force (take 1 dxp6800plus_status_channels)
             (take 1 dxp6800plus_direct_status_channels) pwm
      else if target = ''sys''
      then set_with_forced_fallback E T force dxp6800plus_system_write_channels
             (take 2 (drop 1 dxp6800plus_direct_status_channels)) pwm
      else fail EINVAL)"

definition dxp6800pro_status_channels :: "it8613_hwmon_channel list" where
  "dxp6800pro_status_channels =
     [hwmon_channel ''cpu'' 2 2, hwmon_channel ''sys1'' 3 3, hwmon_channel ''sys2'' 4 4]"

definition dxp6800pro_system_write_channels :: "it8613_hwmon_channel list" where
  "dxp6800pro_system_write_channels = [hwmon_channel ''sys1'' 3 3, hwmon_channel ''sys2'' 4 4]"

definition dxp6800pro_direct_status_channels :: "it8613_direct_channel list" where
  "dxp6800pro_direct_status_channels =
     [direct_channel ''cpu'' 0x16 0x6b 0x0e 0x19 True, direct_channel ''sys1'' 0x17 0x73 0x0f 0x1a True,
      direct_channel ''sys2'' 0x1e 0x7b 0x80 0x81 True]"

definition it8613_dxp6800pro_read_fans :: "env \<Rightarrow> transport \<Rightarrow> (errno + fan_status list) io" where
  "it8613_dxp6800pro_read_fans E T = read_with_fallback E T dxp6800pro_status_channels dxp6800pro_direct_status_channels"

definition it8613_dxp6800pro_set_fan_pwm :: "env \<Rightarrow> transport \<Rightarrow> bool \<Rightarrow> string \<Rightarrow> u8 \<Rightarrow> (errno + unit) io" where
  "it8613_dxp6800pro_set_fan_pwm E T force target pwm =
     (if target = ''cpu''
      then set_with_forced_fallback E T force (take 1 dxp6800pro_status_channels)
             (take 1 dxp6800pro_direct_status_channels) pwm
      else if target = ''sys''
      then set_with_forced_fallback E T force dxp6800pro_system_write_channels
             (take 2 (drop 1 dxp6800pro_direct_status_channels)) pwm
      else fail EINVAL)"

section \<open>The contract of a fan route\<close>

definition no_port_write :: "event \<Rightarrow> bool" where
  "no_port_write e \<longleftrightarrow> (case e of Outb _ _ \<Rightarrow> False | _ \<Rightarrow> True)"

lemma no_port_hwm: "list_all no_port_write es \<Longrightarrow> hwm_writes_ok A es"
proof -
  have "list_all no_port_write es \<Longrightarrow> hwm_log i es = []" for i
    by (induction es arbitrary: i) (auto simp: no_port_write_def split: event.splits)
  then show "list_all no_port_write es \<Longrightarrow> hwm_writes_ok A es" by (simp add: hwm_writes_ok_def)
qed

lemma hwmon_set_no_ports: "emits no_port_write (it8613_hwmon_set_manual_pwm E cs pwm)"
  unfolding it8613_hwmon_set_manual_pwm_def it8613_hwmon_close_def close_fd_def
  by (intro emits_intros) (auto simp: no_port_write_def)

lemma hwmon_set_floor:
  "pwm < 40 \<Longrightarrow> cs \<noteq> [] \<Longrightarrow> length cs \<le> 8 \<Longrightarrow>
   run_state (it8613_hwmon_set_manual_pwm E cs pwm) h = (Inl EPERM, h)"
  by (simp add: it8613_hwmon_set_manual_pwm_def hwmon_mapping_ok_def UGREENCTL_MAX_FANS_def
      IT8613_MIN_MANUAL_PWM_def)

lemma direct_set_registers:
  "appends (hwm_writes_ok (direct_write_allowed cs pwm)) (it8613_direct_set_manual_pwm (it86x E) cs pwm)"
  unfolding it8613_direct_set_manual_pwm_def transport_it86x
  by (intro hwm_writes.intros appends_cases appends_open appends_close appends_set_channel)

lemma direct_write_allowed_mono:
  "direct_write_allowed cs pwm w \<Longrightarrow> set cs \<subseteq> set ds \<Longrightarrow> direct_write_allowed ds pwm w"
  unfolding direct_write_allowed_def by blast

lemma hwm_writes_ok_mono: "hwm_writes_ok A es \<Longrightarrow> (\<And>w. A w \<Longrightarrow> B w) \<Longrightarrow> hwm_writes_ok B es"
  unfolding hwm_writes_ok_def by (metis list_all_iff)

text \<open>
  What the plugins rely on: a duty below 40 is refused before anything is touched, chip
  registers other than the channels' control and duty registers are never written, and the
  lock and the ports are given back.
\<close>

abbreviation duty_registers :: "u8 set" where
  "duty_registers \<equiv> {0x6b, 0x73, 0x7b}"

locale fan_route =
  fixes set_fan :: "string \<Rightarrow> u8 \<Rightarrow> (errno + unit) io"
    and channels :: "it8613_direct_channel list"
  assumes floor: "pwm < 40 \<Longrightarrow> \<exists>e. run_state (set_fan target pwm) h = (Inl e, h)"
    and registers: "appends (hwm_writes_ok (direct_write_allowed channels pwm)) (set_fan target pwm)"
    and restores: "sio_idle h \<Longrightarrow> wp (set_fan target pwm) (\<lambda>_ h'. sio_idle h') h"
    and separate: "c \<in> set channels \<Longrightarrow> control_register c \<notin> duty_registers"
begin

text \<open>A write to a duty register always carries at least 40.\<close>

lemma duty_floor:
  "appends (hwm_writes_ok (\<lambda>w. fst w \<in> duty_registers \<longrightarrow> 40 \<le> snd w)) (set_fan target pwm)"
proof (cases "pwm < 40")
  case True
  have "snd (run_state (set_fan target pwm) h) = h" for h
    using floor [OF True, of target h] by auto
  then show ?thesis by (simp add: appends_def hwm_writes.nil)
next
  case False
  have "fst w \<in> duty_registers \<longrightarrow> 40 \<le> snd w" if "direct_write_allowed channels pwm w" for w
    using that separate False unfolding direct_write_allowed_def by (metis linorder_not_less)
  then show ?thesis by (intro appends_mono [OF registers], elim hwm_writes_ok_mono)
qed

end

section \<open>Every model's route meets it\<close>

lemma forced_fallback_route:
  assumes "cs \<noteq> []" "length cs \<le> 8"
  shows "pwm < 40 \<Longrightarrow> run_state (set_with_forced_fallback E T force cs ds pwm) h = (Inl EPERM, h)"
    and "set ds \<subseteq> set es \<Longrightarrow> appends (hwm_writes_ok (direct_write_allowed es pwm))
           (set_with_forced_fallback E (it86x E) force cs ds pwm)"
    and "sio_idle h \<Longrightarrow> wp (set_with_forced_fallback E (it86x E) force cs ds pwm) (\<lambda>_ h'. sio_idle h') h"
    and "emits no_port_write (set_with_forced_fallback E T False cs ds pwm)"
proof -
  show "run_state (set_with_forced_fallback E T force cs ds pwm) h = (Inl EPERM, h)" if "pwm < 40"
    using that assms by (simp add: set_with_forced_fallback_def hwmon_set_floor)
  show "appends (hwm_writes_ok (direct_write_allowed es pwm))
      (set_with_forced_fallback E (it86x E) force cs ds pwm)" if "set ds \<subseteq> set es"
    unfolding set_with_forced_fallback_def
    by (intro hwm_writes.intros appends_cases appends_mono [OF hwmon_set_no_ports no_port_hwm]
        appends_mono [OF direct_set_registers])
      (assumption, erule hwm_writes_ok_mono, erule direct_write_allowed_mono [OF _ that])
  show "wp (set_with_forced_fallback E (it86x E) force cs ds pwm) (\<lambda>_ h'. sio_idle h') h" if "sio_idle h"
    unfolding set_with_forced_fallback_def
    by (rule wp_bindI, rule wp_mono [OF hwmon_set_manual_pwm_idle [OF that]])
      (auto intro!: wp_ifI wp_returnI x86.direct_set_manual_pwm_idle)
  show "emits no_port_write (set_with_forced_fallback E T False cs ds pwm)"
    unfolding set_with_forced_fallback_def by (auto intro!: emits_intros hwmon_set_no_ports)
qed

lemma fallback_is_forced: "set_with_fallback E T cs ds pwm = set_with_forced_fallback E T True cs ds pwm"
  by (simp add: set_with_fallback_def set_with_forced_fallback_def)

lemmas route_facts = forced_fallback_route hwm_writes.return events.return fallback_is_forced wp_returnI

lemmas model_tables =
  fan_channels_def fan_direct_channels_def
  dx4600_channel_def dx4600_direct_channel_def dxp4800_channel_def dxp4800_direct_channel_def
  dxp4800s_channel_def dxp4800s_direct_channel_def
  dxp480t_status_channels_def dxp480t_system_write_channels_def
  dxp480t_direct_status_channels_def dxp480t_direct_system_write_channels_def
  dxp6800_status_channels_def dxp6800_system_write_channels_def dxp6800_direct_status_channels_def
  dxp6800plus_status_channels_def dxp6800plus_system_write_channels_def dxp6800plus_direct_status_channels_def
  dxp6800pro_status_channels_def dxp6800pro_system_write_channels_def dxp6800pro_direct_status_channels_def

interpretation plus_route: fan_route "it8613_set_fan_pwm E (it86x E) force" fan_direct_channels for E force
  by unfold_locales
    (auto simp: it8613_set_fan_pwm_def model_tables route_facts)

interpretation dx4600_route: fan_route "it8613_dx4600_set_fan_pwm E (it86x E)" "[dx4600_direct_channel]" for E
  by unfold_locales
    (auto simp: it8613_dx4600_set_fan_pwm_def model_tables route_facts)

interpretation dxp4800_route: fan_route "it8613_dxp4800_set_fan_pwm E (it86x E)" "[dxp4800_direct_channel]" for E
  by unfold_locales
    (auto simp: it8613_dxp4800_set_fan_pwm_def model_tables route_facts)

interpretation dxp4800s_route: fan_route "it8613_dxp4800s_set_fan_pwm E (it86x E)" "[dxp4800s_direct_channel]" for E
  by unfold_locales
    (auto simp: it8613_dxp4800s_set_fan_pwm_def model_tables route_facts)

interpretation dxp480t_route: fan_route "it8613_dxp480t_set_fan_pwm E (it86x E) force" dxp480t_direct_status_channels for E force
  by unfold_locales
    (auto simp: it8613_dxp480t_set_fan_pwm_def model_tables route_facts)

interpretation dxp6800_route: fan_route "it8613_dxp6800_set_fan_pwm E (it86x E) force" dxp6800_direct_status_channels for E force
  by unfold_locales
    (auto simp: it8613_dxp6800_set_fan_pwm_def model_tables route_facts)

interpretation dxp6800plus_route: fan_route "it8613_dxp6800plus_set_fan_pwm E (it86x E) force" dxp6800plus_direct_status_channels for E force
  by unfold_locales
    (auto simp: it8613_dxp6800plus_set_fan_pwm_def model_tables route_facts)

interpretation dxp6800pro_route: fan_route "it8613_dxp6800pro_set_fan_pwm E (it86x E) force" dxp6800pro_direct_status_channels for E force
  by unfold_locales
    (auto simp: it8613_dxp6800pro_set_fan_pwm_def model_tables route_facts)

end
