(* ===== verification/Wake_On_Lan.thy ===== *)
theory Wake_On_Lan
  imports Platform_IO "HOL-Library.List_Lexorder" "HOL-Library.Char_ord" "HOL-Library.Product_Lexorder"
begin

text \<open>
  Wake-on-LAN (\<^verbatim>\<open>network/wol.c\<close> and the per-model tables \<^verbatim>\<open>network/wol_<model>.c\<close>): the choice
  of the interfaces, reading their common policy, and setting it with a read-back.  The order
  of strings from the library (by character code, as \<^verbatim>\<open>strcmp\<close>) sorts the discovered interfaces.
\<close>

unbundle bit_operations_syntax

section \<open>Data\<close>

datatype wol_policy = WOL_UNKNOWN | WOL_OFF | WOL_ON

definition IFNAMSIZ :: nat where "IFNAMSIZ = 16"

definition WOL_MAX_RUNTIME_INTERFACES :: nat where "WOL_MAX_RUNTIME_INTERFACES = 8"

definition WAKE_MAGIC :: u32 where "WAKE_MAGIC = 0x20"

record runtime_interface =
  ri_name :: string
  pci_slot :: string

section \<open>Choosing the interfaces\<close>

text \<open>What the lines of a device's \<^verbatim>\<open>uevent\<close> file have shown so far: a PCI class of Ethernet, a slot.\<close>

definition uevent_line :: "bool \<times> string option \<Rightarrow> string \<Rightarrow> bool \<times> string option" where
  "uevent_line found l =
     (case found of (is_pci_ethernet, slot) \<Rightarrow>
        if starts_with ''PCI_CLASS='' l then
          (let (pci_class, rest, range) = strtoul16 (drop 10 l) in
           (is_pci_ethernet \<or> (\<not> range \<and> rest \<noteq> drop 10 l \<and> drop_bit 8 pci_class = 0x0200), slot))
        else if starts_with ''PCI_SLOT_NAME='' l then
          (let s = cut_eol (drop 14 l) in
           if 0 < length s \<and> length s < 32 then (is_pci_ethernet, Some s) else found)
        else found)"

definition uevent_slot :: "file_read \<Rightarrow> string option" where
  "uevent_slot r =
     (case r of Open_failed _ \<Rightarrow> None
      | File_data s e \<Rightarrow>
          (case foldl uevent_line (False, None) (map c_str (fgets_lines 255 (e \<noteq> None) s)) of
             (True, slot) \<Rightarrow> slot | (False, _) \<Rightarrow> None))"

definition uevent_path :: "string \<Rightarrow> string" where
  "uevent_path name = ''/sys/class/net/'' @ name @ ''/device/uevent''"

definition read_pci_ethernet_interface :: "env \<Rightarrow> string \<Rightarrow> (runtime_interface option) io" where
  "read_pci_ethernet_interface E name =
     (if length (uevent_path name) \<ge> 512 then ret None
      else do {
        r \<leftarrow> read_file E (uevent_path name);
        ret (map_option (\<lambda>s. \<lparr>ri_name = take (IFNAMSIZ - 1) name, pci_slot = s\<rparr>) (uevent_slot r)) })"

fun mapped_interfaces_are_present_and_physical :: "env \<Rightarrow> string list \<Rightarrow> bool io" where
  "mapped_interfaces_are_present_and_physical E [] = ret True"
| "mapped_interfaces_are_present_and_physical E (i # is) = do {
     n \<leftarrow> if_nametoindex E i;
     (if n = 0 then ret False
      else do {
        c \<leftarrow> read_pci_ethernet_interface E i;
        (case c of None \<Rightarrow> ret False | Some _ \<Rightarrow> mapped_interfaces_are_present_and_physical E is) }) }"

fun scan_candidates :: "env \<Rightarrow> runtime_interface list \<Rightarrow> string list \<Rightarrow> (errno + runtime_interface list) io" where
  "scan_candidates E found [] = ok found"
| "scan_candidates E found (n # ns) =
     (if starts_with ''.'' n \<or> length n \<ge> IFNAMSIZ then scan_candidates E found ns
      else do {
        c \<leftarrow> read_pci_ethernet_interface E n;
        (case c of None \<Rightarrow> scan_candidates E found ns
         | Some candidate \<Rightarrow>
             if length found \<ge> WOL_MAX_RUNTIME_INTERFACES then fail E2BIG
             else scan_candidates E (found @ [candidate]) ns) })"

definition by_slot :: "runtime_interface \<Rightarrow> string \<times> string" where
  "by_slot c = (pci_slot c, ri_name c)"

definition discover_renamed_interfaces :: "env \<Rightarrow> nat \<Rightarrow> (errno + string list) io" where
  "discover_renamed_interfaces E expected = do {
     d \<leftarrow> list_dir E ''/sys/class/net'';
     (case d of Inl e \<Rightarrow> fail e
      | Inr names \<Rightarrow>
          bindE (scan_candidates E [] names) (\<lambda>found.
            if length found \<noteq> expected then fail ENODEV
            else ok (map ri_name (sort_key by_slot found)))) }"

definition validate_interfaces :: "string list \<Rightarrow> errno option" where
  "validate_interfaces is =
     (if is = [] then Some ENODEV
      else if list_ex (\<lambda>i. i = [] \<or> length i \<ge> IFNAMSIZ) is then Some EINVAL else None)"

definition select_interfaces :: "env \<Rightarrow> string list \<Rightarrow> nat \<Rightarrow> (errno + string list) io" where
  "select_interfaces E firmware renamed =
     (case validate_interfaces firmware of Some e \<Rightarrow> fail e
      | None \<Rightarrow>
          if renamed = 0 \<or> renamed > WOL_MAX_RUNTIME_INTERFACES then fail EINVAL
          else do {
            present \<leftarrow> mapped_interfaces_are_present_and_physical E firmware;
            (if present then ok firmware else discover_renamed_interfaces E renamed) })"

section \<open>Reading and setting the policy\<close>

text \<open>The answer is \<^verbatim>\<open>wol->wolopts\<close>.\<close>

definition query_interface :: "env \<Rightarrow> nat \<Rightarrow> string \<Rightarrow> (errno + u32) io" where
  "query_interface E fd name = do {
     r \<leftarrow> get_wol E fd name;
     (case r of Inl e \<Rightarrow> fail e
      | Inr (supported, opts) \<Rightarrow>
          if supported AND WAKE_MAGIC = 0 then fail EOPNOTSUPP else ok opts) }"

definition opts_policy :: "u32 \<Rightarrow> wol_policy" where
  "opts_policy opts = (if opts AND WAKE_MAGIC \<noteq> 0 then WOL_ON else WOL_OFF)"

fun observe_policy :: "env \<Rightarrow> nat \<Rightarrow> wol_policy \<Rightarrow> string list \<Rightarrow> (errno + wol_policy) io" where
  "observe_policy E fd observed [] = ok observed"
| "observe_policy E fd observed (i # is) =
     bindE (query_interface E fd i) (\<lambda>opts.
       if observed = WOL_UNKNOWN then observe_policy E fd (opts_policy opts) is
       else if observed \<noteq> opts_policy opts then fail EUCLEAN
       else observe_policy E fd observed is)"

definition wol_read_policy_with_renamed_count :: "env \<Rightarrow> string list \<Rightarrow> nat \<Rightarrow> (errno + wol_policy) io" where
  "wol_read_policy_with_renamed_count E is renamed =
     (if length is > WOL_MAX_RUNTIME_INTERFACES \<or> renamed > WOL_MAX_RUNTIME_INTERFACES then fail E2BIG
      else bindE (select_interfaces E is renamed) (\<lambda>mapped.
        bindE (open_socket E) (\<lambda>fd. do {
          r \<leftarrow> observe_policy E fd WOL_UNKNOWN mapped;
          close_fd fd;
          ret r })))"

definition wol_read_policy :: "env \<Rightarrow> string list \<Rightarrow> (errno + wol_policy) io" where
  "wol_read_policy E is = wol_read_policy_with_renamed_count E is (length is)"

definition set_interface :: "env \<Rightarrow> nat \<Rightarrow> u32 \<Rightarrow> string \<Rightarrow> (errno + unit) io" where
  "set_interface E fd desired name = do {
     r \<leftarrow> set_wol E fd name desired;
     (case r of Some e \<Rightarrow> fail e | None \<Rightarrow> ok ()) }"

definition desired_opts :: "wol_policy \<Rightarrow> u32 option" where
  "desired_opts policy =
     (case policy of WOL_ON \<Rightarrow> Some WAKE_MAGIC | WOL_OFF \<Rightarrow> Some 0 | WOL_UNKNOWN \<Rightarrow> None)"

definition wol_set_policy_with_renamed_count ::
    "env \<Rightarrow> string list \<Rightarrow> nat \<Rightarrow> wol_policy \<Rightarrow> (errno + unit) io" where
  "wol_set_policy_with_renamed_count E is renamed policy =
     (case desired_opts policy of None \<Rightarrow> fail EINVAL
      | Some desired \<Rightarrow>
        if length is > WOL_MAX_RUNTIME_INTERFACES \<or> renamed > WOL_MAX_RUNTIME_INTERFACES then fail E2BIG
        else bindE (select_interfaces E is renamed) (\<lambda>mapped.
          bindE (open_socket E) (\<lambda>fd. do {
            r \<leftarrow> bindE (each_ok (query_interface E fd) mapped) (\<lambda>_. each_ok (set_interface E fd desired) mapped);
            close_fd fd;
            (case r of Inl e \<Rightarrow> fail e
             | Inr _ \<Rightarrow>
                 bindE (wol_read_policy E mapped) (\<lambda>observed.
                   if (if observed = WOL_ON then WAKE_MAGIC else 0) \<noteq> desired then fail EIO else ok ())) })))"

definition wol_set_policy :: "env \<Rightarrow> string list \<Rightarrow> wol_policy \<Rightarrow> (errno + unit) io" where
  "wol_set_policy E is policy = wol_set_policy_with_renamed_count E is (length is) policy"

section \<open>The model tables\<close>

definition wol_interfaces :: "string list" where
  "wol_interfaces = [''eth0'', ''eth1'']"

definition dx4600_read_wol_policy :: "env \<Rightarrow> (errno + wol_policy) io" where
  "dx4600_read_wol_policy E = wol_read_policy_with_renamed_count E wol_interfaces 2"

definition dx4600_set_wol_policy :: "env \<Rightarrow> wol_policy \<Rightarrow> (errno + unit) io" where
  "dx4600_set_wol_policy E policy = wol_set_policy_with_renamed_count E wol_interfaces 2 policy"

definition dxp480tplus_read_wol_policy :: "env \<Rightarrow> (errno + wol_policy) io" where
  "dxp480tplus_read_wol_policy E = wol_read_policy_with_renamed_count E wol_interfaces 1"

definition dxp480tplus_set_wol_policy :: "env \<Rightarrow> wol_policy \<Rightarrow> (errno + unit) io" where
  "dxp480tplus_set_wol_policy E policy = wol_set_policy_with_renamed_count E wol_interfaces 1 policy"

definition dxp4800_read_wol_policy :: "env \<Rightarrow> (errno + wol_policy) io" where
  "dxp4800_read_wol_policy E = wol_read_policy E wol_interfaces"

definition dxp4800_set_wol_policy :: "env \<Rightarrow> wol_policy \<Rightarrow> (errno + unit) io" where
  "dxp4800_set_wol_policy E policy = wol_set_policy E wol_interfaces policy"

definition dxp4800s_read_wol_policy :: "env \<Rightarrow> (errno + wol_policy) io" where
  "dxp4800s_read_wol_policy E = wol_read_policy E wol_interfaces"

definition dxp4800s_set_wol_policy :: "env \<Rightarrow> wol_policy \<Rightarrow> (errno + unit) io" where
  "dxp4800s_set_wol_policy E policy = wol_set_policy E wol_interfaces policy"

definition dxp4800plus_read_wol_policy :: "env \<Rightarrow> (errno + wol_policy) io" where
  "dxp4800plus_read_wol_policy E = wol_read_policy E wol_interfaces"

definition dxp4800plus_set_wol_policy :: "env \<Rightarrow> wol_policy \<Rightarrow> (errno + unit) io" where
  "dxp4800plus_set_wol_policy E policy = wol_set_policy E wol_interfaces policy"

definition dxp6800plus_read_wol_policy :: "env \<Rightarrow> (errno + wol_policy) io" where
  "dxp6800plus_read_wol_policy E = wol_read_policy E wol_interfaces"

definition dxp6800plus_set_wol_policy :: "env \<Rightarrow> wol_policy \<Rightarrow> (errno + unit) io" where
  "dxp6800plus_set_wol_policy E policy = wol_set_policy E wol_interfaces policy"

definition dxp6800pro_read_wol_policy :: "env \<Rightarrow> (errno + wol_policy) io" where
  "dxp6800pro_read_wol_policy E = wol_read_policy E wol_interfaces"

definition dxp6800pro_set_wol_policy :: "env \<Rightarrow> wol_policy \<Rightarrow> (errno + unit) io" where
  "dxp6800pro_set_wol_policy E policy = wol_set_policy E wol_interfaces policy"

section \<open>What is written, and on what evidence\<close>

text \<open>Evidence in a history: the device of an interface was read and is PCI Ethernet; an interface
  answered that it supports the magic packet; an interface reported a policy; an interface was set.\<close>

definition physical :: "trace \<Rightarrow> string \<Rightarrow> bool" where
  "physical es i \<longleftrightarrow> (\<exists>r. Read_file (uevent_path i) r \<in> set es \<and> uevent_slot r \<noteq> None)"

definition supports_magic :: "nat \<Rightarrow> string \<Rightarrow> trace \<Rightarrow> bool" where
  "supports_magic fd i es \<longleftrightarrow>
     (\<exists>supported opts. Get_wol fd i (Inr (supported, opts)) \<in> set es \<and> supported AND WAKE_MAGIC \<noteq> 0)"

definition reported :: "wol_policy \<Rightarrow> string \<Rightarrow> trace \<Rightarrow> bool" where
  "reported policy i es \<longleftrightarrow>
     (\<exists>fd supported opts. Get_wol fd i (Inr (supported, opts)) \<in> set es \<and> opts_policy opts = policy)"

definition no_wol_write :: "event \<Rightarrow> bool" where
  "no_wol_write e \<longleftrightarrow> (\<forall>fd i v r. e \<noteq> Set_wol fd i v r)"

lemma no_wol_write_simps [simp]:
  "no_wol_write (Read_file p f)" "no_wol_write (If_index i n)" "no_wol_write (List_dir p d)"
  "no_wol_write (Open_socket s)" "no_wol_write (Get_wol fd i w)" "no_wol_write (Close_fd fd)"
  "\<not> no_wol_write (Set_wol fd i v o')"
  by (simp_all add: no_wol_write_def)

lemma evidence_append:
  "physical es i \<Longrightarrow> physical (es @ fs) i" "physical fs i \<Longrightarrow> physical (es @ fs) i"
  "supports_magic fd i es \<Longrightarrow> supports_magic fd i (es @ fs)"
  "supports_magic fd i fs \<Longrightarrow> supports_magic fd i (es @ fs)"
  "reported p i es \<Longrightarrow> reported p i (es @ fs)" "reported p i fs \<Longrightarrow> reported p i (es @ fs)"
  "physical es i \<Longrightarrow> physical (e # es) i" "reported p i es \<Longrightarrow> reported p i (e # es)"
  unfolding physical_def supports_magic_def reported_def by auto

lemma read_pci_evidence:
  "seg (\<lambda>r es. list_all no_wol_write es \<and> (\<forall>c. r = Some c \<longrightarrow> physical es i \<and> ri_name c = take (IFNAMSIZ - 1) i))
     (read_pci_ethernet_interface E i)"
  unfolding read_pci_ethernet_interface_def calls
  by (intro seg_intros seg_bind [OF seg_prim [where P = "\<lambda>r es. es = [Read_file (uevent_path i) r]"]])
    (auto simp: physical_def)

lemma mapped_evidence:
  "seg (\<lambda>r es. list_all no_wol_write es \<and> (r \<longrightarrow> (\<forall>i \<in> set is. physical es i)))
     (mapped_interfaces_are_present_and_physical E is)"
proof (induction "is")
  case (Cons i "is")
  show ?case
    unfolding mapped_interfaces_are_present_and_physical.simps if_nametoindex_def
    by (rule seg_bind [OF seg_prim [where P = "\<lambda>r es. es = [If_index i r]"]], simp,
        intro seg_if seg_bind [OF read_pci_evidence] seg_case_option seg_return seg_mono [OF Cons.IH])
      (auto intro: evidence_append)
qed (auto intro!: seg_return)

lemma scan_evidence:
  "seg (\<lambda>r es. list_all no_wol_write es \<and>
       (\<forall>cs. r = Inr cs \<longrightarrow> (\<forall>c \<in> set cs. c \<in> set found \<or> physical es (ri_name c))))
     (scan_candidates E found ns)"
proof (induction ns arbitrary: found)
  case (Cons n ns)
  show ?case
    unfolding scan_candidates.simps
    by (intro seg_if seg_bind [OF read_pci_evidence] seg_case_option seg_return seg_mono [OF Cons.IH])
      (auto simp: IFNAMSIZ_def intro: evidence_append, metis evidence_append(1,2))
qed (auto intro!: seg_return)

lemma discover_evidence:
  "seg (\<lambda>r es. list_all no_wol_write es \<and>
       (\<forall>m. r = Inr m \<longrightarrow> length m = renamed \<and> (\<forall>i \<in> set m. physical es i)))
     (discover_renamed_interfaces E renamed)"
  unfolding discover_renamed_interfaces_def list_dir_def
  by (rule seg_bind [OF seg_prim [where P = "\<lambda>r es. es = [List_dir ''/sys/class/net'' r]"]], simp,
      intro seg_case_sum seg_bindE [OF scan_evidence] seg_if seg_return)
    (auto intro: evidence_append)

lemma select_evidence:
  "seg (\<lambda>r es. list_all no_wol_write es \<and>
       (\<forall>m. r = Inr m \<longrightarrow> m \<noteq> [] \<and> (m = is \<or> length m = renamed) \<and> (\<forall>i \<in> set m. physical es i)))
     (select_interfaces E is renamed)"
  unfolding select_interfaces_def
  by (intro seg_case_option seg_if seg_bind [OF mapped_evidence] seg_mono [OF discover_evidence] seg_return)
    (auto simp: validate_interfaces_def intro: evidence_append split: if_splits)

lemma query_evidence:
  "seg (\<lambda>r es. list_all no_wol_write es \<and>
       (\<forall>opts. r = Inr opts \<longrightarrow> supports_magic fd i es \<and> reported (opts_policy opts) i es))
     (query_interface E fd i)"
  unfolding query_interface_def get_wol_def
  by (rule seg_bind [OF seg_prim [where P = "\<lambda>r es. es = [Get_wol fd i r]"]], simp,
      intro seg_case_sum seg_case_prod seg_if seg_return)
    (auto simp: supports_magic_def reported_def)

lemma observe_evidence:
  "seg (\<lambda>r es. list_all no_wol_write es \<and>
       (\<forall>p. r = Inr p \<longrightarrow> (observed \<noteq> WOL_UNKNOWN \<longrightarrow> p = observed) \<and> (\<forall>i \<in> set is. reported p i es)))
     (observe_policy E fd observed is)"
proof (induction "is" arbitrary: observed)
  case (Cons i "is")
  have known: "opts_policy opts \<noteq> WOL_UNKNOWN" for opts by (simp add: opts_policy_def)
  show ?case
    unfolding observe_policy.simps
    by (intro seg_bindE [OF query_evidence] seg_if seg_return seg_mono [OF Cons.IH])
      (auto simp: known intro: evidence_append)
qed (auto intro!: seg_return)

lemma read_policy_evidence:
  "seg (\<lambda>r es. list_all no_wol_write es \<and>
       (\<forall>p. r = Inr p \<longrightarrow> (\<exists>m. m \<noteq> [] \<and> (m = is \<or> length m = renamed) \<and> (\<forall>i \<in> set m. reported p i es))))
     (wol_read_policy_with_renamed_count E is renamed)"
  unfolding wol_read_policy_with_renamed_count_def
  by (intro seg_if seg_bindE [OF select_evidence] seg_bindE [OF seg_open_socket] seg_bind [OF observe_evidence]
      seg_bind [OF seg_close_fd] seg_return) (auto, (metis evidence_append(5,6,8))+)

text \<open>Every write of a segment sets \<open>v\<close> on an interface of \<open>m\<close> through \<open>fd\<close>.\<close>

definition wol_writes_only :: "nat \<Rightarrow> string list \<Rightarrow> u32 \<Rightarrow> event \<Rightarrow> bool" where
  "wol_writes_only fd m v e \<longleftrightarrow> (\<forall>fd' i v' r. e = Set_wol fd' i v' r \<longrightarrow> fd' = fd \<and> i \<in> set m \<and> v' = v)"

lemma set_interface_writes:
  "i \<in> set m \<Longrightarrow>
   seg (\<lambda>r es. list_all (wol_writes_only fd m v) es \<and> (\<forall>u. r = Inr u \<longrightarrow> Set_wol fd i v None \<in> set es))
     (set_interface E fd v i)"
  unfolding set_interface_def set_wol_def
  by (rule seg_bind [OF seg_prim [where P = "\<lambda>r es. es = [Set_wol fd i v r]"]], simp,
      intro seg_case_option seg_return) (auto simp: wol_writes_only_def)

text \<open>A segment in which every write follows evidence about the whole group it belongs to.\<close>

definition wol_guarded :: "string list \<Rightarrow> nat \<Rightarrow> u32 \<Rightarrow> trace \<Rightarrow> bool" where
  "wol_guarded is renamed v es \<longleftrightarrow>
     (list_all no_wol_write es \<or>
      (\<exists>a b m fd. es = a @ b \<and> list_all no_wol_write a \<and> list_all (wol_writes_only fd m v) b \<and>
         (m = is \<or> length m = renamed) \<and> (\<forall>i \<in> set m. physical a i \<and> supports_magic fd i a)))"

text \<open>A segment that shows the change and its read-back.\<close>

definition wol_confirmed :: "string list \<Rightarrow> nat \<Rightarrow> u32 \<Rightarrow> wol_policy \<Rightarrow> trace \<Rightarrow> bool" where
  "wol_confirmed is renamed v policy es \<longleftrightarrow>
     (\<exists>a b m m' fd. es = a @ b \<and> m \<noteq> [] \<and> m' \<noteq> [] \<and> (m = is \<or> length m = renamed) \<and>
        (\<forall>i \<in> set m. Set_wol fd i v None \<in> set a) \<and> (m' = m \<or> length m' = length m) \<and>
        (\<forall>i \<in> set m'. reported policy i b))"

lemma no_writes_only: "list_all no_wol_write es \<Longrightarrow> list_all (wol_writes_only fd m v) es"
  unfolding list_all_iff no_wol_write_def wol_writes_only_def by blast

lemma change_evidence:
  "seg (\<lambda>r es. \<exists>a b. es = a @ b \<and> list_all no_wol_write a \<and> list_all (wol_writes_only fd m v) b \<and>
       (b = [] \<or> (\<forall>i \<in> set m. supports_magic fd i a)) \<and>
       (\<forall>ys. r = Inr ys \<longrightarrow> (\<forall>i \<in> set m. Set_wol fd i v None \<in> set b)))
     (bindE (each_ok (query_interface E fd) m) (\<lambda>_. each_ok (set_interface E fd v) m))"
proof -
  have q: "seg (\<lambda>r es. list_all no_wol_write es \<and> (\<forall>ys. r = Inr ys \<longrightarrow> (\<forall>i \<in> set m. supports_magic fd i es)))
      (each_ok (query_interface E fd) m)"
    by (rule seg_each_ok) (auto intro: evidence_append seg_mono [OF query_evidence])
  have s: "seg (\<lambda>r es. list_all (wol_writes_only fd m v) es \<and>
      (\<forall>ys. r = Inr ys \<longrightarrow> (\<forall>i \<in> set m. Set_wol fd i v None \<in> set es))) (each_ok (set_interface E fd v) m)"
    by (rule seg_each_ok, rule set_interface_writes) auto
  show ?thesis
  proof (rule seg_bindE [OF q], goal_cases)
    case (1 e es)
    then show ?case by (intro exI [of _ es] exI [of _ "[]"]) auto
  next
    case (2 x es)
    show ?case
    proof (rule seg_mono [OF s], goal_cases)
      case (1 r bs)
      with 2 show ?case by (intro exI [of _ es] exI [of _ bs]) auto
    qed
  qed
qed

lemma guarded_quiet: "list_all no_wol_write es \<Longrightarrow> wol_guarded is renamed v es"
  by (simp add: wol_guarded_def)

lemma guarded_change:
  assumes "list_all no_wol_write a" "list_all no_wol_write b" "list_all (wol_writes_only fd m v) c" "list_all no_wol_write d"
    and "c = [] \<or> (\<forall>i \<in> set m. supports_magic fd i b)" "\<forall>i \<in> set m. physical a i" "m = is \<or> length m = renamed"
  shows "wol_guarded is renamed v (a @ (b @ c) @ d)"
proof (cases "c = []")
  case True
  with assms show ?thesis by (auto intro: guarded_quiet)
next
  case False
  have "a @ (b @ c) @ d = (a @ b) @ (c @ d)" by simp
  moreover have "list_all no_wol_write (a @ b)" "list_all (wol_writes_only fd m v) (c @ d)"
    using assms by (auto intro: no_writes_only)
  moreover have "\<forall>i \<in> set m. physical (a @ b) i \<and> supports_magic fd i (a @ b)"
    using assms False by (auto intro: evidence_append)
  ultimately show ?thesis unfolding wol_guarded_def using assms(7) by blast
qed

lemma reported_known: "reported p i es \<Longrightarrow> p \<noteq> WOL_UNKNOWN"
  by (auto simp: reported_def opts_policy_def split: if_splits)

lemma observed_policy:
  assumes "desired_opts policy = Some v" "(if p = WOL_ON then WAKE_MAGIC else 0) = v" "p \<noteq> WOL_UNKNOWN"
  shows "p = policy"
  using assms by (cases p; cases policy) (auto simp: desired_opts_def WAKE_MAGIC_def)

text \<open>The transaction on the chosen group \<open>m\<close>: queries, writes, then the read-back.\<close>

definition wol_transaction :: "nat \<Rightarrow> string list \<Rightarrow> u32 \<Rightarrow> wol_policy \<Rightarrow> errno + unit \<Rightarrow> trace \<Rightarrow> bool" where
  "wol_transaction fd m v policy r es \<longleftrightarrow>
     (\<exists>b c d. es = (b @ c) @ d \<and> list_all no_wol_write b \<and> list_all (wol_writes_only fd m v) c \<and>
        list_all no_wol_write d \<and> (c = [] \<or> (\<forall>i \<in> set m. supports_magic fd i b)) \<and>
        (r = Inr () \<longrightarrow> (\<forall>i \<in> set m. Set_wol fd i v None \<in> set c) \<and>
           (\<exists>m'. m' \<noteq> [] \<and> (m' = m \<or> length m' = length m) \<and> (\<forall>i \<in> set m'. reported policy i d))))"

lemma read_back_evidence:
  assumes "desired_opts policy = Some v"
  shows "seg (\<lambda>r es. list_all no_wol_write es \<and> (r = Inr () \<longrightarrow>
       (\<exists>m'. m' \<noteq> [] \<and> (m' = m \<or> length m' = length m) \<and> (\<forall>i \<in> set m'. reported policy i es))))
     (bindE (wol_read_policy E m) (\<lambda>observed.
        if (if observed = WOL_ON then WAKE_MAGIC else 0) \<noteq> v then fail EIO else ok ()))"
  unfolding wol_read_policy_def
proof (rule seg_bindE [OF read_policy_evidence], goal_cases)
  case (2 p es)
  then obtain m' where m': "m' \<noteq> []" "m' = m \<or> length m' = length m" "\<forall>i \<in> set m'. reported p i es" by blast
  then have "reported p (hd m') es" by simp
  then have "p = policy" if "(if p = WOL_ON then WAKE_MAGIC else 0) = v"
    using observed_policy [OF assms that] reported_known by blast
  with 2 m' show ?case by (intro seg_if seg_return) auto
qed simp

lemma transaction_evidence:
  assumes "desired_opts policy = Some v"
  shows "seg (wol_transaction fd m v policy)
     (do { r \<leftarrow> bindE (each_ok (query_interface E fd) m) (\<lambda>_. each_ok (set_interface E fd v) m);
           close_fd fd;
           (case r of Inl e \<Rightarrow> fail e
            | Inr _ \<Rightarrow> bindE (wol_read_policy E m) (\<lambda>observed.
                if (if observed = WOL_ON then WAKE_MAGIC else 0) \<noteq> v then fail EIO else ok ())) })"
proof (rule seg_bind [OF change_evidence], elim exE conjE, rule seg_bind [OF seg_close_fd])
  fix r :: "errno + unit list" and es b c u es'
  assume *: "es = b @ c" "list_all no_wol_write b" "list_all (wol_writes_only fd m v) c"
    "c = [] \<or> (\<forall>i \<in> set m. supports_magic fd i b)" "\<forall>ys. r = Inr ys \<longrightarrow> (\<forall>i \<in> set m. Set_wol fd i v None \<in> set c)"
    and es': "es' = [Close_fd fd]"
  have step: "wol_transaction fd m v policy q (es @ es' @ d)"
    if "list_all no_wol_write d" "q = Inr () \<longrightarrow> (\<forall>i \<in> set m. Set_wol fd i v None \<in> set c) \<and>
      (\<exists>m'. m' \<noteq> [] \<and> (m' = m \<or> length m' = length m) \<and> (\<forall>i \<in> set m'. reported policy i d))" for q d
    unfolding wol_transaction_def using * es' that
    by (intro exI [of _ b] exI [of _ c] exI [of _ "es' @ d"]) (auto intro: evidence_append)
  show "seg (\<lambda>r' es''. wol_transaction fd m v policy r' (es @ es' @ es''))
      (case r of Inl e \<Rightarrow> fail e
       | Inr _ \<Rightarrow> bindE (wol_read_policy E m) (\<lambda>observed.
           if (if observed = WOL_ON then WAKE_MAGIC else 0) \<noteq> v then fail EIO else ok ()))"
    using *(5) by (cases r) (auto intro!: seg_return seg_mono [OF read_back_evidence [OF assms]] step)
qed

lemma wol_guarded_result:
  assumes "run_state (wol_set_policy_with_renamed_count E is renamed policy) h = (r, h')"
  shows "\<exists>es. h' = h @ es \<and>
    (case desired_opts policy of None \<Rightarrow> r = Inl EINVAL \<and> es = []
     | Some v \<Rightarrow> wol_guarded is renamed v es \<and> (r = Inr () \<longrightarrow> wol_confirmed is renamed v policy es))"
proof (cases "desired_opts policy")
  case None
  with assms show ?thesis by (simp add: wol_set_policy_with_renamed_count_def)
next
  case (Some v)
  have group: "wol_guarded is renamed v (a @ Open_socket s # es) \<and>
      (r = Inr () \<longrightarrow> wol_confirmed is renamed v policy (a @ Open_socket s # es))"
    if tr: "wol_transaction fd m v policy r es" "list_all no_wol_write a" "\<forall>i \<in> set m. physical a i" "m \<noteq> []"
      "m = is \<or> length m = renamed" for a s fd m r es
  proof -
    obtain b c d where t: "es = (b @ c) @ d" "list_all no_wol_write b" "list_all (wol_writes_only fd m v) c"
      "list_all no_wol_write d" "c = [] \<or> (\<forall>i \<in> set m. supports_magic fd i b)"
      "r = Inr () \<longrightarrow> (\<forall>i \<in> set m. Set_wol fd i v None \<in> set c) \<and>
         (\<exists>m'. m' \<noteq> [] \<and> (m' = m \<or> length m' = length m) \<and> (\<forall>i \<in> set m'. reported policy i d))"
      using tr(1) unfolding wol_transaction_def by blast
    have "wol_guarded is renamed v ((a @ [Open_socket s]) @ (b @ c) @ d)"
      by (rule guarded_change [OF _ t(2-5)]) (use tr(2-5) in \<open>auto intro: evidence_append(1)\<close>)
    moreover have "wol_confirmed is renamed v policy ((a @ Open_socket s # b @ c) @ d)" if r: "r = Inr ()"
    proof -
      obtain m' where "m' \<noteq> []" "m' = m \<or> length m' = length m" "\<forall>i \<in> set m'. reported policy i d"
        and "\<forall>i \<in> set m. Set_wol fd i v None \<in> set c"
        using t(6) r by blast
      with \<open>m \<noteq> []\<close> \<open>m = is \<or> length m = renamed\<close> show ?thesis
        unfolding wol_confirmed_def
        by (intro exI [of _ "a @ Open_socket s # b @ c"] exI [of _ d] exI [of _ m] exI [of _ m'] exI [of _ fd]) simp
    qed
    ultimately show ?thesis using t(1) by simp
  qed
  have "seg (\<lambda>r es. wol_guarded is renamed v es \<and> (r = Inr () \<longrightarrow> wol_confirmed is renamed v policy es))
      (wol_set_policy_with_renamed_count E is renamed policy)"
    unfolding wol_set_policy_with_renamed_count_def Some option.case
    by (intro seg_if seg_bindE [OF select_evidence] seg_bindE [OF seg_open_socket]
        seg_mono [OF transaction_evidence [OF Some]] seg_return) (auto intro: guarded_quiet dest: group)
  from segD [OF this assms] Some show ?thesis by auto
qed

text \<open>
  \<^bold>\<open>C39.\<close>  Whatever the kernel answers, setting the policy never writes before it knows the whole
  group: no interface is written unless every interface of its group was read as a physical PCI
  Ethernet device and answered that it supports the magic packet, and then only the requested
  options are written, only to that group.  If the call succeeds, every interface of the group
  accepted the write, and afterwards every interface of the group (or of one of the same size, if
  the names vanished in between) reported the requested policy.
\<close>

theorem wol_set_policy_guarded:
  assumes "run_state (wol_set_policy_with_renamed_count E is renamed policy) h = (r, h')"
  shows "\<exists>es. h' = h @ es \<and>
    (case desired_opts policy of None \<Rightarrow> r = Inl EINVAL \<and> es = []
     | Some v \<Rightarrow> wol_guarded is renamed v es \<and> (r = Inr () \<longrightarrow> wol_confirmed is renamed v policy es))"
  by (rule wol_guarded_result [OF assms])

section \<open>On working interfaces\<close>

text \<open>The options an interface has after a history, from the writes it accepted.\<close>

definition wol_step :: "event \<Rightarrow> (string \<Rightarrow> u32) \<Rightarrow> string \<Rightarrow> u32" where
  "wol_step e s = (case e of Set_wol _ i v None \<Rightarrow> s(i := v) | _ \<Rightarrow> s)"

definition wol_opts :: "(string \<Rightarrow> u32) \<Rightarrow> trace \<Rightarrow> string \<Rightarrow> u32" where
  "wol_opts base h = fold wol_step h base"

lemma wol_step_quiet: "no_wol_write e \<Longrightarrow> wol_step e s = s"
  by (cases e) (auto simp: wol_step_def)

lemma wol_opts_quiet [simp]: "list_all no_wol_write es \<Longrightarrow> wol_opts base (h @ es) = wol_opts base h"
  unfolding wol_opts_def by (induction es arbitrary: h rule: rev_induct) (auto simp: wol_step_quiet simp flip: append_assoc)

lemma wol_opts_write [simp]: "wol_opts base (h @ [Set_wol fd i v None]) = (wol_opts base h)(i := v)"
  by (simp add: wol_opts_def wol_step_def)

definition wol_working :: "env \<Rightarrow> (string \<Rightarrow> u32) \<Rightarrow> string list \<Rightarrow> bool" where
  "wol_working E base is \<longleftrightarrow>
     (\<forall>h. \<exists>fd. e_socket E h = Inr fd) \<and>
     (\<forall>h. \<forall>i \<in> set is. e_ifindex E h i \<noteq> 0 \<and> uevent_slot (e_read E h (uevent_path i)) \<noteq> None \<and>
        (\<forall>fd. \<exists>supported. e_get_wol E h fd i = Inr (supported, wol_opts base h i) \<and> supported AND WAKE_MAGIC \<noteq> 0) \<and>
        (\<forall>fd v. e_set_wol E h fd i v = None))"

abbreviation keeps_opts :: "(string \<Rightarrow> u32) \<Rightarrow> trace \<Rightarrow> trace \<Rightarrow> bool" where
  "keeps_opts base h h' \<equiv> wol_opts base h' = wol_opts base h"

lemma working_mapped:
  "wol_working E base is \<Longrightarrow> set js \<subseteq> set is \<Longrightarrow> \<forall>i \<in> set js. length i < IFNAMSIZ \<Longrightarrow>
   wp (mapped_interfaces_are_present_and_physical E js) (\<lambda>r h'. r \<and> keeps_opts base h h') h"
proof (induction js arbitrary: h)
  case (Cons j js)
  have len: "length (uevent_path j) < 512" using Cons.prems by (simp add: uevent_path_def IFNAMSIZ_def)
  have present: "e_ifindex E h j \<noteq> 0" "uevent_slot (e_read E h (uevent_path j)) \<noteq> None" for h
    using Cons.prems by (auto simp: wol_working_def)
  have rest: "wp (mapped_interfaces_are_present_and_physical E js) (\<lambda>r h'. r \<and> keeps_opts base g h') g" for g
    by (rule Cons.IH) (use Cons.prems in auto)
  show ?case
    using len present
    by (auto simp: wp_simps calls read_pci_ethernet_interface_def split: option.splits intro!: wp_mono [OF rest])
qed (simp add: wp_simps)

lemma working_select:
  assumes "wol_working E base is" "validate_interfaces is = None" "0 < renamed" "renamed \<le> WOL_MAX_RUNTIME_INTERFACES"
  shows "wp (select_interfaces E is renamed) (\<lambda>r h'. r = Inr is \<and> keeps_opts base h h') h"
proof -
  have "\<forall>i \<in> set is. length i < IFNAMSIZ"
    using assms(2) by (auto simp: validate_interfaces_def list_ex_iff not_le split: if_splits)
  note mapped = working_mapped [OF assms(1) subset_refl this]
  show ?thesis
    using assms(2-4) by (auto simp: select_interfaces_def wp_simps intro!: wp_mono [OF mapped])
qed

lemma working_query:
  assumes "wol_working E base is" "i \<in> set is"
  shows "wp (query_interface E fd i) (\<lambda>r h'. r = Inr (wol_opts base h i) \<and> keeps_opts base h h') h"
proof -
  obtain supported where "e_get_wol E h fd i = Inr (supported, wol_opts base h i)" "supported AND WAKE_MAGIC \<noteq> 0"
    using assms unfolding wol_working_def by blast
  then show ?thesis by (simp add: query_interface_def get_wol_def wp_simps)
qed

lemma working_queries:
  "wol_working E base is \<Longrightarrow> set js \<subseteq> set is \<Longrightarrow>
   wp (each_ok (query_interface E fd) js) (\<lambda>r h'. (\<exists>ys. r = Inr ys) \<and> keeps_opts base h h') h"
proof (induction js arbitrary: h)
  case (Cons j js)
  have rest: "wp (each_ok (query_interface E fd) js) (\<lambda>r h'. (\<exists>ys. r = Inr ys) \<and> keeps_opts base g h') g" for g
    by (rule Cons.IH) (use Cons.prems in auto)
  show ?case
    using Cons.prems
    by (auto simp: wp_simps intro!: wp_mono [OF working_query] wp_mono [OF rest])
qed (simp add: wp_simps)

lemma working_set:
  "wol_working E base is \<Longrightarrow> i \<in> set is \<Longrightarrow>
   wp (set_interface E fd v i) (\<lambda>r h'. r = Inr () \<and> wol_opts base h' = (wol_opts base h)(i := v)) h"
  by (simp add: wol_working_def set_interface_def set_wol_def wp_simps)

lemma working_sets:
  "wol_working E base is \<Longrightarrow> set js \<subseteq> set is \<Longrightarrow>
   wp (each_ok (set_interface E fd v) js)
     (\<lambda>r h'. (\<exists>ys. r = Inr ys) \<and> wol_opts base h' = (\<lambda>i. if i \<in> set js then v else wol_opts base h i)) h"
proof (induction js arbitrary: h)
  case (Cons j js)
  have rest: "wp (each_ok (set_interface E fd v) js)
      (\<lambda>r h'. (\<exists>ys. r = Inr ys) \<and> wol_opts base h' = (\<lambda>i. if i \<in> set js then v else wol_opts base g i)) g" for g
    by (rule Cons.IH) (use Cons.prems in auto)
  show ?case
    using Cons.prems by (auto simp: wp_simps fun_eq_iff intro!: wp_mono [OF working_set] wp_mono [OF rest])
qed (simp add: wp_simps)

lemma working_observe:
  "wol_working E base is \<Longrightarrow> set js \<subseteq> set is \<Longrightarrow> \<forall>i \<in> set js. opts_policy (wol_opts base h i) = p \<Longrightarrow>
   observed = p \<or> observed = WOL_UNKNOWN \<and> js \<noteq> [] \<Longrightarrow>
   wp (observe_policy E fd observed js) (\<lambda>r h'. r = Inr p \<and> keeps_opts base h h') h"
proof (induction js arbitrary: h observed p)
  case (Cons j js)
  let ?p = "opts_policy (wol_opts base h j)"
  have p: "p = ?p" "?p \<noteq> WOL_UNKNOWN" using Cons.prems by (auto simp: opts_policy_def split: if_splits)
  have rest: "wp (observe_policy E fd ?p js) (\<lambda>r h'. r = Inr ?p \<and> keeps_opts base h h') g" if g: "keeps_opts base h g" for g
  proof -
    have "\<forall>i \<in> set js. opts_policy (wol_opts base g i) = ?p"
      using Cons.prems(3) p(1) g by (metis list.set_intros(2))
    moreover have "set js \<subseteq> set is" using Cons.prems(2) by simp
    ultimately have "wp (observe_policy E fd ?p js) (\<lambda>r h'. r = Inr ?p \<and> keeps_opts base g h') g"
      using Cons.IH [OF Cons.prems(1)] by blast
    then show ?thesis by (simp only: g)
  qed
  show ?case
    using Cons.prems(1,2,4) p
    by (auto simp: wp_simps intro!: wp_mono [OF working_query [of E base "is"]] rest)
qed (auto simp: wp_simps)

lemma working_read:
  assumes w: "wol_working E base is" "validate_interfaces is = None" "length is \<le> WOL_MAX_RUNTIME_INTERFACES"
    and n: "0 < renamed" "renamed \<le> WOL_MAX_RUNTIME_INTERFACES"
    and p: "\<forall>i \<in> set is. opts_policy (wol_opts base h i) = p"
  shows "wp (wol_read_policy_with_renamed_count E is renamed) (\<lambda>r h'. r = Inr p \<and> keeps_opts base h h') h"
proof -
  have ne: "is \<noteq> []" using w(2) by (auto simp: validate_interfaces_def)
  obtain fd where fd: "\<And>g. e_socket E g = Inr (fd g)"
    using w(1) unfolding wol_working_def by metis
  show ?thesis
    unfolding wol_read_policy_with_renamed_count_def
    using w n p ne fd
    by (auto simp: wp_simps open_socket_def close_fd_def
        intro!: wp_mono [OF working_select [OF w(1,2) n]] wp_mono [OF working_observe [OF w(1) subset_refl, where p = p]])
qed

text \<open>
  On a machine whose firmware-named interfaces are present, physical and working, setting a
  policy succeeds, and reading it afterwards returns the policy that was set, whatever the options
  were before.
\<close>

theorem wol_set_then_read:
  assumes "wol_working E base is" "validate_interfaces is = None" "length is \<le> 8" "0 < renamed" "renamed \<le> 8"
    and "policy \<noteq> WOL_UNKNOWN"
  shows "fst (run_state (do { r \<leftarrow> wol_set_policy_with_renamed_count E is renamed policy;
                              q \<leftarrow> wol_read_policy_with_renamed_count E is renamed;
                              ret (r, q) }) h) = (Inr (), Inr policy)"
proof -
  obtain v where v: "desired_opts policy = Some v" "opts_policy v = policy" "(if policy = WOL_ON then WAKE_MAGIC else 0) = v"
    using assms(6) by (cases policy) (auto simp: desired_opts_def opts_policy_def WAKE_MAGIC_def)
  have ne: "is \<noteq> []" using assms(2) by (auto simp: validate_interfaces_def)
  obtain fd where fd: "\<And>g. e_socket E g = Inr (fd g)"
    using assms(1) unfolding wol_working_def by metis
  note eight = WOL_MAX_RUNTIME_INTERFACES_def
  note select = working_select [OF assms(1,2), of renamed, unfolded eight, OF assms(4,5)]
  note read = working_read [OF assms(1,2), unfolded eight, OF assms(3), where p = policy]
  have "wp (wol_set_policy_with_renamed_count E is renamed policy)
      (\<lambda>r h'. r = Inr () \<and> (\<forall>i \<in> set is. opts_policy (wol_opts base h' i) = policy)) h"
    unfolding wol_set_policy_with_renamed_count_def v(1) option.case wol_read_policy_def
    using assms(3,5) ne fd v(2,3)
    by (auto simp: wp_simps eight open_socket_def close_fd_def
        intro!: wp_mono [OF select] wp_mono [OF working_queries [OF assms(1) subset_refl]]
          wp_mono [OF working_sets [OF assms(1) subset_refl]] wp_mono [OF read])
  then have "wp (do { r \<leftarrow> wol_set_policy_with_renamed_count E is renamed policy;
                      q \<leftarrow> wol_read_policy_with_renamed_count E is renamed;
                      ret (r, q) }) (\<lambda>rq h'. rq = (Inr (), Inr policy)) h"
    unfolding wp_bind
    by (rule wp_mono) (auto simp: wp_simps intro!: wp_mono [OF read] assms)
  then show ?thesis by (simp add: wp_def case_prod_beta)
qed

definition example_wol_env :: env where
  "example_wol_env = null_env\<lparr>
     e_read := (\<lambda>_ _. File_data (''PCI_CLASS=20000'' @ [CHR 0x0A] @ ''PCI_SLOT_NAME=0000:01:00.0'' @ [CHR 0x0A]) None),
     e_ifindex := (\<lambda>_ _. 2), e_socket := (\<lambda>_. Inr 5),
     e_get_wol := (\<lambda>h _ i. Inr (0x2e, wol_opts (\<lambda>_. 0) h i)), e_set_wol := (\<lambda>_ _ _ _. None)\<rparr>"

lemma example_uevent: "uevent_slot (e_read example_wol_env h p) = Some ''0000:01:00.0''"
proof -
  have "uevent_slot (File_data (''PCI_CLASS=20000'' @ [CHR 0x0A] @ ''PCI_SLOT_NAME=0000:01:00.0'' @ [CHR 0x0A]) None) =
      Some ''0000:01:00.0''" by code_simp
  then show ?thesis by (simp add: example_wol_env_def)
qed

lemma example_wol_working: "wol_working example_wol_env (\<lambda>_. 0) wol_interfaces"
  using example_uevent by (simp add: wol_working_def) (simp add: example_wol_env_def WAKE_MAGIC_def)

theorem wol_set_then_read_witness:
  "fst (run_state (do { r \<leftarrow> wol_set_policy_with_renamed_count example_wol_env wol_interfaces 2 WOL_ON;
                        q \<leftarrow> wol_read_policy_with_renamed_count example_wol_env wol_interfaces 2;
                        ret (r, q) }) []) = (Inr (), Inr WOL_ON)"
  by (rule wol_set_then_read [OF example_wol_working])
    (simp_all add: validate_interfaces_def wol_interfaces_def IFNAMSIZ_def)

theorem wol_set_policy_guarded_witness:
  "\<exists>es. snd (run_state (wol_set_policy_with_renamed_count example_wol_env wol_interfaces 2 WOL_ON) []) = es \<and>
     wol_guarded wol_interfaces 2 WAKE_MAGIC es \<and> wol_confirmed wol_interfaces 2 WAKE_MAGIC WOL_ON es"
proof -
  let ?m = "wol_set_policy_with_renamed_count example_wol_env wol_interfaces 2 WOL_ON"
  have "fst (run_state ?m []) = Inr ()" by code_simp
  then obtain h' where "run_state ?m [] = (Inr (), h')" by (metis prod.collapse)
  from wol_set_policy_guarded [OF this] this show ?thesis by (simp add: desired_opts_def)
qed

end
