(* ===== verification/Model_Plugins.thy ===== *)
theory Model_Plugins
  imports Fan_Models Wake_On_Lan
begin

text \<open>
  The model plugins (\<^verbatim>\<open>models/*.c\<close>): each plugin decides which requests need \<^verbatim>\<open>--force\<close> and
  hands the rest to its fan route, to the Super I/O chip and to Wake-on-LAN.  A request is the flag
  \<^verbatim>\<open>request->force\<close>; an entry that is \<^verbatim>\<open>NULL\<close> is \<open>None\<close>.
\<close>

section \<open>The plugin interface\<close>

record plugin_status =
  st_controller :: string
  st_startup_policy :: startup_policy
  st_fans :: "fan_status list"
  st_wol_policy :: wol_policy

record model_plugin =
  mp_id :: string
  mp_display_name :: string
  mp_products :: "string list"
  mp_capabilities :: nat
  mp_controller_name :: string
  mp_read_status :: "bool \<Rightarrow> (errno + plugin_status) io"
  mp_read_fans :: "bool \<Rightarrow> (errno + fan_status list) io"
  mp_set_fan_pwm :: "bool \<Rightarrow> string \<Rightarrow> u8 \<Rightarrow> (errno + unit) io"
  mp_read_startup_policy :: "bool \<Rightarrow> (errno + startup_policy) io"
  mp_set_startup_policy :: "bool \<Rightarrow> startup_policy \<Rightarrow> (errno + unit) io"
  mp_set_wol_policy :: "(bool \<Rightarrow> wol_policy \<Rightarrow> (errno + unit) io) option"
  mp_read_wol_policy :: "(bool \<Rightarrow> (errno + wol_policy) io) option"

definition CAP_FAN :: nat where "CAP_FAN = 1"
definition CAP_POWER :: nat where "CAP_POWER = 4"
definition CAP_WOL :: nat where "CAP_WOL = 8"

text \<open>The combined status: the fans must be readable, a failing policy read leaves "unknown".\<close>

definition read_status ::
    "string \<Rightarrow> (errno + fan_status list) io \<Rightarrow> (errno + startup_policy) io \<Rightarrow> (errno + wol_policy) io \<Rightarrow>
     (errno + plugin_status) io" where
  "read_status controller fans startup wol =
     bindE fans (\<lambda>fs. do {
       s \<leftarrow> startup;
       w \<leftarrow> wol;
       ok \<lparr>st_controller = take 31 controller,
           st_startup_policy = (case s of Inl _ \<Rightarrow> STARTUP_UNKNOWN | Inr p \<Rightarrow> p),
           st_fans = fs,
           st_wol_policy = (case w of Inl _ \<Rightarrow> WOL_UNKNOWN | Inr p \<Rightarrow> p)\<rparr> })"

text \<open>\<^verbatim>\<open>require_experimental_override\<close> in front of a write.\<close>

definition require_experimental_override :: "bool \<Rightarrow> errno option" where
  "require_experimental_override force = (if force then None else Some EPERM)"

definition guarded :: "bool \<Rightarrow> (errno + 'a) io \<Rightarrow> (errno + 'a) io" where
  "guarded force m = (case require_experimental_override force of Some e \<Rightarrow> fail e | None \<Rightarrow> m)"

section \<open>The eight plugins\<close>

text \<open>The DXP6800 has no Wake-on-LAN entries and leaves the policy of its status unknown.  Where the
  plugin checks only Wake-on-LAN writes (\<^verbatim>\<open>require_wol_override\<close>) the check is the same.\<close>

definition plugin_dxp4800plus :: "env \<Rightarrow> transport \<Rightarrow> model_plugin" where
  "plugin_dxp4800plus E T = \<lparr>mp_id = ''dxp4800plus'', mp_display_name = ''UGREEN DXP4800 Plus / DXP4800 Pro'',
     mp_products = [''DXP4800 Plus'', ''DXP4800 Pro''], mp_capabilities = CAP_FAN + CAP_POWER + CAP_WOL,
     mp_controller_name = ''ITE IT8613 hwmon/direct; WOL'',
     mp_read_status = (\<lambda>force. read_status ''ITE IT8613 hwmon/direct; WOL'' (it8613_read_fans E T force) (it8613_read_startup_policy T force) (dxp4800plus_read_wol_policy E)),
     mp_read_fans = it8613_read_fans E T,
     mp_set_fan_pwm = it8613_set_fan_pwm E T,
     mp_read_startup_policy = it8613_read_startup_policy T,
     mp_set_startup_policy = it8613_set_startup_policy T,
     mp_set_wol_policy = Some (\<lambda>force p. guarded force (dxp4800plus_set_wol_policy E p)),
     mp_read_wol_policy = Some (\<lambda>_. dxp4800plus_read_wol_policy E)\<rparr>"

definition plugin_dxp480tplus :: "env \<Rightarrow> transport \<Rightarrow> model_plugin" where
  "plugin_dxp480tplus E T = \<lparr>mp_id = ''dxp480tplus'', mp_display_name = ''UGREEN DXP480T Plus (hardware-verified)'',
     mp_products = [''DXP480T Plus''], mp_capabilities = CAP_FAN + CAP_POWER + CAP_WOL,
     mp_controller_name = ''ITE IT8613 hwmon/direct; WOL'',
     mp_read_status = (\<lambda>force. read_status ''ITE IT8613 hwmon/direct; WOL'' (it8613_dxp480t_read_fans E T) (it8613_read_startup_policy T force) (dxp480tplus_read_wol_policy E)),
     mp_read_fans = (\<lambda>_. it8613_dxp480t_read_fans E T),
     mp_set_fan_pwm = it8613_dxp480t_set_fan_pwm E T,
     mp_read_startup_policy = it8613_read_startup_policy T,
     mp_set_startup_policy = it8613_set_startup_policy T,
     mp_set_wol_policy = Some (\<lambda>force p. guarded force (dxp480tplus_set_wol_policy E p)),
     mp_read_wol_policy = Some (\<lambda>_. dxp480tplus_read_wol_policy E)\<rparr>"

definition plugin_dx4600 :: "env \<Rightarrow> transport \<Rightarrow> model_plugin" where
  "plugin_dx4600 E T = \<lparr>mp_id = ''dx4600'', mp_display_name = ''UGREEN DX4600 / DX4600+ / DX4600 Pro (firmware-reversed)'',
     mp_products = [''DX4600'', ''DX4600+'', ''DX4600 Pro''], mp_capabilities = CAP_FAN + CAP_POWER + CAP_WOL,
     mp_controller_name = ''ITE IT8613 hwmon/direct; WOL'',
     mp_read_status = (\<lambda>force. read_status ''ITE IT8613 hwmon/direct; WOL'' (it8613_dx4600_read_fan E T) (it8613_read_startup_policy T force) (dx4600_read_wol_policy E)),
     mp_read_fans = (\<lambda>_. it8613_dx4600_read_fan E T),
     mp_set_fan_pwm = (\<lambda>force target pwm. guarded force (it8613_dx4600_set_fan_pwm E T target pwm)),
     mp_read_startup_policy = it8613_read_startup_policy T,
     mp_set_startup_policy = (\<lambda>force p. guarded force (it8613_set_startup_policy T force p)),
     mp_set_wol_policy = Some (\<lambda>force p. guarded force (dx4600_set_wol_policy E p)),
     mp_read_wol_policy = Some (\<lambda>_. dx4600_read_wol_policy E)\<rparr>"

definition plugin_dxp4800 :: "env \<Rightarrow> transport \<Rightarrow> model_plugin" where
  "plugin_dxp4800 E T = \<lparr>mp_id = ''dxp4800'', mp_display_name = ''UGREEN DXP4800 (firmware-reversed)'',
     mp_products = [''DXP4800''], mp_capabilities = CAP_FAN + CAP_POWER + CAP_WOL,
     mp_controller_name = ''ITE IT8613 hwmon/direct; WOL'',
     mp_read_status = (\<lambda>force. read_status ''ITE IT8613 hwmon/direct; WOL'' (it8613_dxp4800_read_fan E T) (it8613_read_startup_policy T force) (dxp4800_read_wol_policy E)),
     mp_read_fans = (\<lambda>_. it8613_dxp4800_read_fan E T),
     mp_set_fan_pwm = (\<lambda>force target pwm. guarded force (it8613_dxp4800_set_fan_pwm E T target pwm)),
     mp_read_startup_policy = it8613_read_startup_policy T,
     mp_set_startup_policy = (\<lambda>force p. guarded force (it8613_set_startup_policy T force p)),
     mp_set_wol_policy = Some (\<lambda>force p. guarded force (dxp4800_set_wol_policy E p)),
     mp_read_wol_policy = Some (\<lambda>_. dxp4800_read_wol_policy E)\<rparr>"

definition plugin_dxp4800s :: "env \<Rightarrow> transport \<Rightarrow> model_plugin" where
  "plugin_dxp4800s E T = \<lparr>mp_id = ''dxp4800s'', mp_display_name = ''UGREEN DXP4800S (firmware-reversed)'',
     mp_products = [''DXP4800S''], mp_capabilities = CAP_FAN + CAP_POWER + CAP_WOL,
     mp_controller_name = ''ITE IT8613 hwmon/direct; WOL'',
     mp_read_status = (\<lambda>force. read_status ''ITE IT8613 hwmon/direct; WOL'' (it8613_dxp4800s_read_fan E T) (it8613_read_startup_policy T force) (dxp4800s_read_wol_policy E)),
     mp_read_fans = (\<lambda>_. it8613_dxp4800s_read_fan E T),
     mp_set_fan_pwm = (\<lambda>force target pwm. guarded force (it8613_dxp4800s_set_fan_pwm E T target pwm)),
     mp_read_startup_policy = it8613_read_startup_policy T,
     mp_set_startup_policy = (\<lambda>force p. guarded force (it8613_set_startup_policy T force p)),
     mp_set_wol_policy = Some (\<lambda>force p. guarded force (dxp4800s_set_wol_policy E p)),
     mp_read_wol_policy = Some (\<lambda>_. dxp4800s_read_wol_policy E)\<rparr>"

definition plugin_dxp6800 :: "env \<Rightarrow> transport \<Rightarrow> model_plugin" where
  "plugin_dxp6800 E T = \<lparr>mp_id = ''dxp6800'', mp_display_name = ''UGREEN DXP6800 (firmware-reversed)'',
     mp_products = [''DXP6800''], mp_capabilities = CAP_FAN + CAP_POWER,
     mp_controller_name = ''ITE IT8613 hwmon/direct'',
     mp_read_status = (\<lambda>force. read_status ''ITE IT8613 hwmon/direct'' (it8613_dxp6800_read_fans E T) (it8613_read_startup_policy T force) (fail ENODATA)),
     mp_read_fans = (\<lambda>_. it8613_dxp6800_read_fans E T),
     mp_set_fan_pwm = (\<lambda>force target pwm. guarded force (it8613_dxp6800_set_fan_pwm E T True target pwm)),
     mp_read_startup_policy = it8613_read_startup_policy T,
     mp_set_startup_policy = (\<lambda>force p. guarded force (it8613_set_startup_policy T force p)),
     mp_set_wol_policy = None,
     mp_read_wol_policy = None\<rparr>"

definition plugin_dxp6800plus :: "env \<Rightarrow> transport \<Rightarrow> model_plugin" where
  "plugin_dxp6800plus E T = \<lparr>mp_id = ''dxp6800plus'', mp_display_name = ''UGREEN DXP6800 Plus (firmware-reversed)'',
     mp_products = [''DXP6800 Plus''], mp_capabilities = CAP_FAN + CAP_POWER + CAP_WOL,
     mp_controller_name = ''ITE IT8613 hwmon/direct'',
     mp_read_status = (\<lambda>force. read_status ''ITE IT8613 hwmon/direct'' (it8613_dxp6800plus_read_fans E T) (it8613_read_startup_policy T force) (dxp6800plus_read_wol_policy E)),
     mp_read_fans = (\<lambda>_. it8613_dxp6800plus_read_fans E T),
     mp_set_fan_pwm = (\<lambda>force target pwm. guarded force (it8613_dxp6800plus_set_fan_pwm E T True target pwm)),
     mp_read_startup_policy = it8613_read_startup_policy T,
     mp_set_startup_policy = (\<lambda>force p. guarded force (it8613_set_startup_policy T force p)),
     mp_set_wol_policy = Some (\<lambda>force p. guarded force (dxp6800plus_set_wol_policy E p)),
     mp_read_wol_policy = Some (\<lambda>_. dxp6800plus_read_wol_policy E)\<rparr>"

definition plugin_dxp6800pro :: "env \<Rightarrow> transport \<Rightarrow> model_plugin" where
  "plugin_dxp6800pro E T = \<lparr>mp_id = ''dxp6800pro'', mp_display_name = ''UGREEN DXP6800 Pro (firmware-reversed)'',
     mp_products = [''DXP6800 Pro''], mp_capabilities = CAP_FAN + CAP_POWER + CAP_WOL,
     mp_controller_name = ''ITE IT8613 hwmon/direct; WOL'',
     mp_read_status = (\<lambda>force. read_status ''ITE IT8613 hwmon/direct; WOL'' (it8613_dxp6800pro_read_fans E T) (it8613_read_startup_policy T force) (dxp6800pro_read_wol_policy E)),
     mp_read_fans = (\<lambda>_. it8613_dxp6800pro_read_fans E T),
     mp_set_fan_pwm = (\<lambda>force target pwm. guarded force (it8613_dxp6800pro_set_fan_pwm E T True target pwm)),
     mp_read_startup_policy = it8613_read_startup_policy T,
     mp_set_startup_policy = (\<lambda>force p. guarded force (it8613_set_startup_policy T force p)),
     mp_set_wol_policy = Some (\<lambda>force p. guarded force (dxp6800pro_set_wol_policy E p)),
     mp_read_wol_policy = Some (\<lambda>_. dxp6800pro_read_wol_policy E)\<rparr>"

definition model_plugins :: "env \<Rightarrow> transport \<Rightarrow> model_plugin list" where
  "model_plugins E T =
     [plugin_dx4600 E T, plugin_dxp4800 E T, plugin_dxp4800plus E T, plugin_dxp4800s E T,
      plugin_dxp480tplus E T, plugin_dxp6800 E T, plugin_dxp6800plus E T, plugin_dxp6800pro E T]"

section \<open>The contract of a plugin's fan entry\<close>

text \<open>The plugin's entry is a fan route for either value of the flag, and without \<^verbatim>\<open>--force\<close> it
  never writes a port.\<close>

locale fan_plugin =
  fixes set_fan :: "bool \<Rightarrow> string \<Rightarrow> u8 \<Rightarrow> (errno + unit) io"
    and channels :: "it8613_direct_channel list"
  assumes route: "fan_route (set_fan force) channels"
    and unforced: "emits no_port_write (set_fan False target pwm)"

sublocale fan_plugin \<subseteq> entry: fan_route "set_fan force" channels for force
  by (rule route)

text \<open>A session: any sequence of requests, whatever each of them returned.\<close>

definition fan_session ::
    "(bool \<Rightarrow> string \<Rightarrow> u8 \<Rightarrow> (errno + unit) io) \<Rightarrow> (bool \<times> string \<times> u8) list \<Rightarrow> (errno + unit) list io" where
  "fan_session set_fan requests = each (\<lambda>(force, target, pwm). set_fan force target pwm) requests"

context fan_plugin
begin

lemma session_floor:
  "appends (hwm_writes_ok (\<lambda>w. fst w \<in> duty_registers \<longrightarrow> 40 \<le> snd w))
     (fan_session set_fan requests)"
  unfolding fan_session_def
  by (intro hwm_writes.each appends_case_prod) (rule entry.duty_floor)

lemma session_restores: "sio_idle h \<Longrightarrow> wp (fan_session set_fan requests) (\<lambda>_ h'. sio_idle h') h"
  unfolding fan_session_def
  by (rule wp_mono [OF wp_each [where I = sio_idle and R = "\<lambda>_ _. True"]])
    (auto intro!: wp_mono [OF entry.restores])

lemma session_unforced:
  "\<forall>(force, target, pwm) \<in> set requests. \<not> force \<Longrightarrow> emits no_port_write (fan_session set_fan requests)"
  unfolding fan_session_def
  by (intro events.each appends_case_prod) (auto dest!: bspec intro: unforced)

end

lemma guarded_plugin:
  assumes "fan_route route channels"
  shows "fan_plugin (\<lambda>force target pwm. guarded force (route target pwm)) channels"
proof -
  have none: "appends P (guarded False m)" if "P []" for P and m :: "(errno + unit) io"
    using that by (simp add: guarded_def require_experimental_override_def appends_def)
  have yes: "guarded True m = m" for m :: "(errno + unit) io"
    by (simp add: guarded_def require_experimental_override_def)
  have "fan_route (\<lambda>target pwm. guarded force (route target pwm)) channels" for force
  proof (cases force)
    case True
    with assms show ?thesis by (simp add: yes)
  next
    case False
    with assms show ?thesis
      by (intro fan_route.intro)
        (auto simp: guarded_def require_experimental_override_def hwm_writes.return wp_return
          dest: fan_route.separate)
  qed
  then show ?thesis by (intro fan_plugin.intro none) auto
qed

lemmas plugin_defs =
  plugin_dx4600_def plugin_dxp4800_def plugin_dxp4800plus_def plugin_dxp4800s_def
  plugin_dxp480tplus_def plugin_dxp6800_def plugin_dxp6800plus_def plugin_dxp6800pro_def

interpretation dx4600: fan_plugin "mp_set_fan_pwm (plugin_dx4600 E (it86x E))" "[dx4600_direct_channel]" for E
  unfolding plugin_defs model_plugin.simps by (rule guarded_plugin [OF dx4600_route.fan_route_axioms])

interpretation dxp4800: fan_plugin "mp_set_fan_pwm (plugin_dxp4800 E (it86x E))" "[dxp4800_direct_channel]" for E
  unfolding plugin_defs model_plugin.simps by (rule guarded_plugin [OF dxp4800_route.fan_route_axioms])

interpretation dxp4800s: fan_plugin "mp_set_fan_pwm (plugin_dxp4800s E (it86x E))" "[dxp4800s_direct_channel]" for E
  unfolding plugin_defs model_plugin.simps by (rule guarded_plugin [OF dxp4800s_route.fan_route_axioms])

interpretation dxp6800: fan_plugin "mp_set_fan_pwm (plugin_dxp6800 E (it86x E))" dxp6800_direct_status_channels for E
  unfolding plugin_defs model_plugin.simps by (rule guarded_plugin [OF dxp6800_route.fan_route_axioms])

interpretation dxp6800plus:
  fan_plugin "mp_set_fan_pwm (plugin_dxp6800plus E (it86x E))" dxp6800plus_direct_status_channels for E
  unfolding plugin_defs model_plugin.simps by (rule guarded_plugin [OF dxp6800plus_route.fan_route_axioms])

interpretation dxp6800pro:
  fan_plugin "mp_set_fan_pwm (plugin_dxp6800pro E (it86x E))" dxp6800pro_direct_status_channels for E
  unfolding plugin_defs model_plugin.simps by (rule guarded_plugin [OF dxp6800pro_route.fan_route_axioms])

interpretation dxp4800plus:
  fan_plugin "mp_set_fan_pwm (plugin_dxp4800plus E (it86x E))" fan_direct_channels for E
  unfolding plugin_defs model_plugin.simps
  by (intro fan_plugin.intro plus_route.fan_route_axioms)
    (auto simp: it8613_set_fan_pwm_def model_tables route_facts)

interpretation dxp480tplus:
  fan_plugin "mp_set_fan_pwm (plugin_dxp480tplus E (it86x E))" dxp480t_direct_status_channels for E
  unfolding plugin_defs model_plugin.simps
  by (intro fan_plugin.intro dxp480t_route.fan_route_axioms)
    (auto simp: it8613_dxp480t_set_fan_pwm_def model_tables route_facts)

lemma model_fan_plugin:
  "p \<in> set (model_plugins E (it86x E)) \<Longrightarrow> \<exists>channels. fan_plugin (mp_set_fan_pwm p) channels"
  unfolding model_plugins_def
  by (auto intro: dx4600.fan_plugin_axioms dxp4800.fan_plugin_axioms dxp4800plus.fan_plugin_axioms
      dxp4800s.fan_plugin_axioms dxp480tplus.fan_plugin_axioms dxp6800.fan_plugin_axioms
      dxp6800plus.fan_plugin_axioms dxp6800pro.fan_plugin_axioms)

text \<open>
  \<^bold>\<open>C4.\<close>  For every plugin and every sequence of fan requests, and whatever the hardware and
  the kernel answer: no duty register of the chip is ever written with a value below 40; the
  lock and the port permissions are given back; and if no request carries \<^verbatim>\<open>--force\<close>, no port is
  written at all.
\<close>

theorem plugin_fan_sessions_safe:
  assumes "p \<in> set (model_plugins E (it86x E))"
  shows "\<exists>es. snd (run_state (fan_session (mp_set_fan_pwm p) requests) h) = h @ es \<and>
          hwm_writes_ok (\<lambda>w. fst w \<in> duty_registers \<longrightarrow> 40 \<le> snd w) es \<and>
          (sio_idle h \<longrightarrow> sio_idle (h @ es)) \<and>
          ((\<forall>(force, target, pwm) \<in> set requests. \<not> force) \<longrightarrow> list_all no_port_write es)"
proof -
  obtain channels where "fan_plugin (mp_set_fan_pwm p) channels" using model_fan_plugin [OF assms] ..
  note facts = fan_plugin.session_floor [OF this] fan_plugin.session_restores [OF this]
    fan_plugin.session_unforced [OF this]
  let ?m = "fan_session (mp_set_fan_pwm p) requests"
  obtain es where es: "snd (run_state ?m h) = h @ es"
    "hwm_writes_ok (\<lambda>w. fst w \<in> duty_registers \<longrightarrow> 40 \<le> snd w) es"
    using facts(1) unfolding appends_def by blast
  moreover have "sio_idle (h @ es)" if "sio_idle h"
    using facts(2) [OF that, of requests] es(1) by (simp add: wp_def case_prod_beta)
  moreover have "list_all no_port_write es" if "\<forall>(force, target, pwm) \<in> set requests. \<not> force"
    using facts(3) [OF that] es(1) unfolding appends_def by (metis same_append_eq)
  ultimately show ?thesis by blast
qed

theorem plugin_fan_sessions_safe_witness:
  "\<exists>es. snd (run_state (fan_session (mp_set_fan_pwm (plugin_dxp6800 example_env (it86x example_env)))
              [(True, ''cpu'', 200), (True, ''sys'', 40), (False, ''sys'', 90)]) []) = es \<and>
        hwm_writes_ok (\<lambda>w. fst w \<in> duty_registers \<longrightarrow> 40 \<le> snd w) es \<and> sio_idle es"
  using plugin_fan_sessions_safe [of "plugin_dxp6800 example_env (it86x example_env)" example_env
      "[(True, ''cpu'', 200), (True, ''sys'', 40), (False, ''sys'', 90)]" "[]"]
  by (simp add: model_plugins_def sio_idle_def)

section \<open>Wake-on-LAN entries\<close>

lemma guarded_False: "run_state (guarded False m) h = (Inl EPERM, h)"
  by (simp add: guarded_def require_experimental_override_def)

lemma guarded_True: "guarded True m = m"
  by (simp add: guarded_def require_experimental_override_def)

lemmas wol_entries =
  dx4600_set_wol_policy_def dxp4800_set_wol_policy_def dxp4800s_set_wol_policy_def dxp4800plus_set_wol_policy_def
  dxp480tplus_set_wol_policy_def dxp6800plus_set_wol_policy_def dxp6800pro_set_wol_policy_def wol_set_policy_def

lemma plugin_wol_entry:
  assumes "p \<in> set (model_plugins E T)" "mp_set_wol_policy p = Some f"
  shows "\<exists>renamed. f = (\<lambda>force policy. guarded force (wol_set_policy_with_renamed_count E wol_interfaces renamed policy))"
  using assms unfolding model_plugins_def by (auto simp: plugin_defs wol_entries)

text \<open>
  Every plugin's Wake-on-LAN entries: they exist exactly when the plugin announces the
  capability; without \<^verbatim>\<open>--force\<close> a write is refused before the machine is touched; with it,
  whatever the kernel answers, no interface is written before its whole group was found physical
  and capable, and success means that the policy was read back.
\<close>

theorem plugin_wol_gate:
  assumes "p \<in> set (model_plugins E T)"
  shows "(CAP_WOL \<le> mp_capabilities p \<longleftrightarrow> mp_set_wol_policy p \<noteq> None \<and> mp_read_wol_policy p \<noteq> None) \<and>
    (\<forall>f policy h. mp_set_wol_policy p = Some f \<longrightarrow>
       run_state (f False policy) h = (Inl EPERM, h) \<and>
       (\<exists>renamed r es. run_state (f True policy) h = (r, h @ es) \<and>
          (case desired_opts policy of None \<Rightarrow> r = Inl EINVAL \<and> es = []
           | Some v \<Rightarrow> wol_guarded wol_interfaces renamed v es \<and>
               (r = Inr () \<longrightarrow> wol_confirmed wol_interfaces renamed v policy es))))"
proof (intro conjI allI impI)
  show "CAP_WOL \<le> mp_capabilities p \<longleftrightarrow> mp_set_wol_policy p \<noteq> None \<and> mp_read_wol_policy p \<noteq> None"
    using assms unfolding model_plugins_def by (auto simp: plugin_defs CAP_WOL_def CAP_FAN_def CAP_POWER_def)
next
  fix f policy h assume "mp_set_wol_policy p = Some f"
  then obtain renamed where f: "f = (\<lambda>force policy. guarded force (wol_set_policy_with_renamed_count E wol_interfaces renamed policy))"
    using plugin_wol_entry [OF assms] by blast
  then show "run_state (f False policy) h = (Inl EPERM, h)" by (simp add: guarded_False)
  obtain r h' where run: "run_state (wol_set_policy_with_renamed_count E wol_interfaces renamed policy) h = (r, h')"
    by fastforce
  obtain es where "h' = h @ es"
    "case desired_opts policy of None \<Rightarrow> r = Inl EINVAL \<and> es = []
     | Some v \<Rightarrow> wol_guarded wol_interfaces renamed v es \<and>
         (r = Inr () \<longrightarrow> wol_confirmed wol_interfaces renamed v policy es)"
    using wol_guarded_result [OF run] by blast
  with run show "\<exists>renamed r es. run_state (f True policy) h = (r, h @ es) \<and>
      (case desired_opts policy of None \<Rightarrow> r = Inl EINVAL \<and> es = []
       | Some v \<Rightarrow> wol_guarded wol_interfaces renamed v es \<and>
           (r = Inr () \<longrightarrow> wol_confirmed wol_interfaces renamed v policy es))"
    by (intro exI [of _ renamed] exI [of _ r] exI [of _ es]) (simp add: f guarded_True)
qed

theorem plugin_wol_gate_witness:
  "\<exists>f. mp_set_wol_policy (plugin_dx4600 example_wol_env (it86x example_wol_env)) = Some f \<and>
     run_state (f False WOL_ON) [] = (Inl EPERM, [])"
proof -
  let ?p = "plugin_dx4600 example_wol_env (it86x example_wol_env)"
  have "?p \<in> set (model_plugins example_wol_env (it86x example_wol_env))" by (simp add: model_plugins_def)
  moreover obtain f where "mp_set_wol_policy ?p = Some f" by (simp add: plugin_defs)
  ultimately show ?thesis using plugin_wol_gate by blast
qed

end
