(* ===== verification/Plugin_Loader.thy ===== *)
theory Plugin_Loader
  imports Model_Plugins
begin

text \<open>
  The plugin loader (\<^verbatim>\<open>core/loader.c\<close>) and the profile-only plugins
  (\<^verbatim>\<open>models/unsupported_model.c\<close>): which shared objects of the model directory become plugins, and
  which plugin is responsible for an id or a product name.  What \<^verbatim>\<open>dlopen\<close> finds in a file is the
  parameter \<open>D\<close>: for each entry point version, the plugin it returns.
\<close>

section \<open>Data\<close>

text \<open>\<^verbatim>\<open>struct ugreenctl_plugin\<close> with its \<^verbatim>\<open>NULL\<close> entries; the entries for LEDs and the fan
  mode are never called.  A \<^verbatim>\<open>NULL\<close> product list is the empty list.\<close>

record plugin =
  pl_abi_version :: nat
  pl_id :: string
  pl_display_name :: string
  pl_products :: "string list"
  pl_capabilities :: nat
  pl_read_status :: "(bool \<Rightarrow> (errno + plugin_status) io) option"
  pl_set_fan_pwm :: "(bool \<Rightarrow> string \<Rightarrow> u8 \<Rightarrow> (errno + unit) io) option"
  pl_set_startup_policy :: "(bool \<Rightarrow> startup_policy \<Rightarrow> (errno + unit) io) option"
  pl_read_fans :: "(bool \<Rightarrow> (errno + fan_status list) io) option"
  pl_read_startup_policy :: "(bool \<Rightarrow> (errno + startup_policy) io) option"
  pl_controller_name :: "string option"
  pl_set_wol_policy :: "(bool \<Rightarrow> wol_policy \<Rightarrow> (errno + unit) io) option"
  pl_read_wol_policy :: "(bool \<Rightarrow> (errno + wol_policy) io) option"

definition plugin_v5 :: "model_plugin \<Rightarrow> plugin" where
  "plugin_v5 p = \<lparr>pl_abi_version = 5, pl_id = mp_id p, pl_display_name = mp_display_name p, pl_products = mp_products p,
     pl_capabilities = mp_capabilities p, pl_read_status = Some (mp_read_status p),
     pl_set_fan_pwm = Some (mp_set_fan_pwm p), pl_set_startup_policy = Some (mp_set_startup_policy p),
     pl_read_fans = Some (mp_read_fans p), pl_read_startup_policy = Some (mp_read_startup_policy p),
     pl_controller_name = Some (mp_controller_name p), pl_set_wol_policy = mp_set_wol_policy p,
     pl_read_wol_policy = mp_read_wol_policy p\<rparr>"

text \<open>The plugin of a model without hardware support, for \<^verbatim>\<open>MODEL_ID\<close>, \<^verbatim>\<open>MODEL_NAME\<close> and
  \<^verbatim>\<open>MODEL_DMI_NAME\<close>.\<close>

definition unsupported_model :: "nat \<Rightarrow> string \<Rightarrow> string \<Rightarrow> string \<Rightarrow> plugin" where
  "unsupported_model abi model_id model_name dmi_name = \<lparr>pl_abi_version = abi, pl_id = model_id, pl_display_name = model_name,
     pl_products = [dmi_name], pl_capabilities = 0, pl_read_status = None, pl_set_fan_pwm = None,
     pl_set_startup_policy = None, pl_read_fans = None, pl_read_startup_policy = None, pl_controller_name = None,
     pl_set_wol_policy = None, pl_read_wol_policy = None\<rparr>"

text \<open>A loaded object: no such entry point, or what the entry point returns (\<open>None\<close> for \<^verbatim>\<open>NULL\<close> or a
  plugin without id or display name).\<close>

type_synonym dl_object = "nat \<Rightarrow> plugin option option"

definition UGREENCTL_MAX_PLUGINS :: nat where "UGREENCTL_MAX_PLUGINS = 32"

section \<open>Loading\<close>

definition has_shared_object_suffix :: "string \<Rightarrow> bool" where
  "has_shared_object_suffix n \<longleftrightarrow> length n > 3 \<and> drop (length n - 3) n = ''.so''"

definition usable_plugin :: "dl_object \<Rightarrow> plugin option" where
  "usable_plugin dl =
     (case find (\<lambda>v. dl v \<noteq> None) [5, 4, 3, 2] of None \<Rightarrow> None
      | Some expected_abi \<Rightarrow>
          (case dl expected_abi of Some (Some p) \<Rightarrow> if pl_abi_version p \<noteq> expected_abi then None else Some p
           | _ \<Rightarrow> None))"

fun load_plugins :: "(string \<Rightarrow> dl_object option) \<Rightarrow> string \<Rightarrow> plugin list \<Rightarrow> string list \<Rightarrow> errno + plugin list" where
  "load_plugins D directory found [] = Inr found"
| "load_plugins D directory found (n # ns) =
     (if \<not> has_shared_object_suffix n then load_plugins D directory found ns
      else if length found = UGREENCTL_MAX_PLUGINS then Inl E2BIG
      else if length (directory @ ''/'' @ n) \<ge> 4096 then Inl ENAMETOOLONG
      else (case Option.bind (D (directory @ ''/'' @ n)) usable_plugin of
              None \<Rightarrow> load_plugins D directory found ns
            | Some p \<Rightarrow> load_plugins D directory (found @ [p]) ns))"

definition plugins_open :: "env \<Rightarrow> (string \<Rightarrow> dl_object option) \<Rightarrow> string \<Rightarrow> (errno + plugin list) io" where
  "plugins_open E D directory =
     bindE (list_dir E directory) (\<lambda>names.
       case load_plugins D directory [] names of Inl e \<Rightarrow> fail e
       | Inr found \<Rightarrow> if found = [] then fail ENOENT else ok found)"

section \<open>Choosing\<close>

definition product_matches :: "string \<Rightarrow> plugin \<Rightarrow> bool" where
  "product_matches product p \<longleftrightarrow> list_ex (\<lambda>n. n = product) (pl_products p)"

definition find_plugin :: "plugin list \<Rightarrow> string \<Rightarrow> plugin option" where
  "find_plugin ps key = find (\<lambda>p. pl_id p = key) ps"

definition match_product :: "plugin list \<Rightarrow> string \<Rightarrow> plugin option" where
  "match_product ps product = find (product_matches product) ps"

definition dmi_product_of_read :: "nat \<Rightarrow> file_read \<Rightarrow> errno + string" where
  "dmi_product_of_read limit r =
     (case r of Open_failed e \<Rightarrow> Inl e
      | File_data s err \<Rightarrow>
          (case fgets_lines (limit - 1) (err \<noteq> None) s of
             [] \<Rightarrow> Inl (case err of Some e \<Rightarrow> e | None \<Rightarrow> ENOENT)
           | line # _ \<Rightarrow> (let product = cut_eol (c_str line) in if product = [] then Inl ENOENT else Inr product)))"

definition loader_read_dmi_product :: "env \<Rightarrow> nat \<Rightarrow> (errno + string) io" where
  "loader_read_dmi_product E limit =
     (if limit = 0 then fail EINVAL
      else do { r \<leftarrow> read_file E ''/sys/class/dmi/id/product_name''; ret (dmi_product_of_read limit r) })"

definition default_model_dir :: string where
  "default_model_dir = ''/usr/lib/ugreenctl/models''"

section \<open>The shipped plugins\<close>

text \<open>The plugins the build produces.\<close>

definition shipped_plugins :: "env \<Rightarrow> transport \<Rightarrow> plugin list" where
  "shipped_plugins E T = map plugin_v5 (model_plugins E T) @
     [unsupported_model 3 ''dxp2800'' ''UGREEN DXP2800'' ''DXP2800'',
      unsupported_model 3 ''dxp8800plus'' ''UGREEN DXP8800 Plus'' ''DXP8800 Plus'']"

lemma shipped_products:
  "map (\<lambda>p. (pl_id p, pl_products p)) (shipped_plugins E T) =
     [(''dx4600'', [''DX4600'', ''DX4600+'', ''DX4600 Pro'']), (''dxp4800'', [''DXP4800'']),
      (''dxp4800plus'', [''DXP4800 Plus'', ''DXP4800 Pro'']), (''dxp4800s'', [''DXP4800S'']),
      (''dxp480tplus'', [''DXP480T Plus'']), (''dxp6800'', [''DXP6800'']), (''dxp6800plus'', [''DXP6800 Plus'']),
      (''dxp6800pro'', [''DXP6800 Pro'']), (''dxp2800'', [''DXP2800'']), (''dxp8800plus'', [''DXP8800 Plus''])]"
  by (simp add: shipped_plugins_def model_plugins_def plugin_v5_def unsupported_model_def plugin_defs)

text \<open>A loaded plugin was returned by an entry point of some file.\<close>

lemma usable_plugin_entry: "usable_plugin dl = Some p \<Longrightarrow> \<exists>v. dl v = Some (Some p)"
  by (auto simp: usable_plugin_def split: option.splits if_splits)

lemma load_plugins_mem:
  "load_plugins D directory found ns = Inr ps \<Longrightarrow> p \<in> set ps \<Longrightarrow>
   p \<in> set found \<or> (\<exists>path dl v. D path = Some dl \<and> dl v = Some (Some p))"
proof (induction D directory found ns rule: load_plugins.induct)
  case (2 D directory found n ns)
  then show ?case
    by (auto simp: bind_eq_Some_conv split: if_splits option.splits) (metis usable_plugin_entry)
qed simp

text \<open>
  Whatever subset of the shipped plugins the directory holds, and in whatever order they are
  found: the lookup by product name finds a plugin exactly when it is loaded and
  lists that name, and the lookup by id finds exactly the loaded plugin with that id.
\<close>

theorem shipped_lookup_exact:
  assumes "set ps \<subseteq> set (shipped_plugins E T)"
  shows "(match_product ps product = Some p \<longleftrightarrow> p \<in> set ps \<and> product \<in> set (pl_products p)) \<and>
    (find_plugin ps key = Some p \<longleftrightarrow> p \<in> set ps \<and> pl_id p = key)"
proof -
  have find: "find P ps = Some p \<longleftrightarrow> p \<in> set ps \<and> P p"
    if unique: "\<And>p q. p \<in> set (shipped_plugins E T) \<Longrightarrow> q \<in> set (shipped_plugins E T) \<Longrightarrow> P p \<Longrightarrow> P q \<Longrightarrow> p = q" for P
  proof
    show "find P ps = Some p \<Longrightarrow> p \<in> set ps \<and> P p" by (auto simp: find_Some_iff)
    assume p: "p \<in> set ps \<and> P p"
    then obtain q where q: "find P ps = Some q" by (cases "find P ps") (auto simp: find_None_iff)
    then have "q \<in> set ps" "P q" by (auto simp: find_Some_iff)
    with p q assms unique show "find P ps = Some p" by blast
  qed
  let ?keys = "map (\<lambda>p. (pl_id p, pl_products p)) (shipped_plugins E T)"
  have ids: "distinct (map pl_id (shipped_plugins E T))"
    using arg_cong [OF shipped_products, of "\<lambda>xs. distinct (map fst xs)"] by (simp add: comp_def)
  have same: "p = q" if "p \<in> set (shipped_plugins E T)" "q \<in> set (shipped_plugins E T)" "pl_id p = pl_id q" for p q
    using ids that by (auto simp: distinct_map inj_on_def)
  have "pl_id p = pl_id q"
    if "p \<in> set (shipped_plugins E T)" "q \<in> set (shipped_plugins E T)" "a \<in> set (pl_products p)" "a \<in> set (pl_products q)" for p q a
  proof -
    have "(pl_id p, pl_products p) \<in> set ?keys" "(pl_id q, pl_products q) \<in> set ?keys" using that by auto
    with that(3,4) show ?thesis unfolding shipped_products by auto
  qed
  then have products: "p = q"
    if "p \<in> set (shipped_plugins E T)" "q \<in> set (shipped_plugins E T)" "product_matches a p" "product_matches a q" for p q a
    using that same unfolding product_matches_def list_ex_iff by metis
  show ?thesis
    unfolding match_product_def find_plugin_def
    using find [of "product_matches product", OF products] find [of "\<lambda>p. pl_id p = key", OF same]
    by (auto simp: product_matches_def list_ex_iff)
qed

theorem shipped_lookup_exact_witness:
  "match_product [plugin_v5 (plugin_dxp4800plus null_env (it86x null_env)), plugin_v5 (plugin_dx4600 null_env (it86x null_env))] ''DX4600 Pro''
   = Some (plugin_v5 (plugin_dx4600 null_env (it86x null_env)))"
proof -
  let ?a = "plugin_v5 (plugin_dxp4800plus null_env (it86x null_env))" and ?b = "plugin_v5 (plugin_dx4600 null_env (it86x null_env))"
  have "set [?a, ?b] \<subseteq> set (shipped_plugins null_env (it86x null_env))"
    by (simp add: shipped_plugins_def model_plugins_def)
  from shipped_lookup_exact [OF this, of "''DX4600 Pro''" ?b] show ?thesis
    by (simp add: plugin_v5_def plugin_dx4600_def)
qed

end
