(* ===== verification/Machine_Identity.thy ===== *)
theory Machine_Identity
  imports Platform_IO
begin

text \<open>
  The machine identity (\<^verbatim>\<open>core/identity.c\<close>): the DMI product or the device-tree model, read
  strictly (no control bytes, no truncation), and the exact test for a device-tree
  \<^verbatim>\<open>compatible\<close> token.
\<close>

section \<open>Data\<close>

record machine_identity =
  mi_source :: string
  mi_product_name :: string
  mi_product_version :: string
  mi_manufacturer :: string
  mi_board_version :: string
  mi_compatible :: string
  mi_bios_vendor :: string
  mi_bios_version :: string
  mi_bios_date :: string

definition no_identity :: machine_identity where
  "no_identity = \<lparr>mi_source = [], mi_product_name = [], mi_product_version = [], mi_manufacturer = [],
     mi_board_version = [], mi_compatible = [], mi_bios_vendor = [], mi_bios_version = [], mi_bios_date = []\<rparr>"

section \<open>Reading fields\<close>

text \<open>\<^verbatim>\<open>fread\<close> of up to \<open>capacity\<close> bytes, then one \<^verbatim>\<open>fgetc\<close> that must find the end of the file.\<close>

definition raw_of_read :: "nat \<Rightarrow> file_read \<Rightarrow> errno + string" where
  "raw_of_read capacity r =
     (case r of Open_failed e \<Rightarrow> Inl e
      | File_data s e \<Rightarrow>
          if length s > capacity then Inl EOVERFLOW else if e \<noteq> None then Inl EIO else Inr s)"

definition raw_read :: "env \<Rightarrow> string \<Rightarrow> string \<Rightarrow> nat \<Rightarrow> (errno + string) io" where
  "raw_read E root field capacity =
     (let path = root @ ''/'' @ field in
      if length path \<ge> 4096 then fail ENAMETOOLONG
      else do { r \<leftarrow> read_file E path; ret (raw_of_read capacity r) })"

definition bad_text_char :: "char \<Rightarrow> bool" where
  "bad_text_char c \<longleftrightarrow>
     (let n = (of_char c :: nat) in n < 32 \<and> c \<noteq> CHR 0x0A \<and> c \<noteq> CHR 0x0D \<and> c \<noteq> CHR 0x09)"

definition text_of_raw :: "bool \<Rightarrow> string \<Rightarrow> errno + string" where
  "text_of_raw dt raw =
     (let s = (if dt \<and> raw \<noteq> [] \<and> last raw = CHR 0x00 then butlast raw else raw) in
      if list_ex bad_text_char s then Inl EBADMSG else Inr (rstrip isspace s))"

definition identity_text_read :: "env \<Rightarrow> string \<Rightarrow> string \<Rightarrow> nat \<Rightarrow> bool \<Rightarrow> (errno + string) io" where
  "identity_text_read E root field capacity dt =
     bindE (raw_read E root field (capacity - 1)) (\<lambda>raw. ret (text_of_raw dt raw))"

definition bad_token_char :: "char \<Rightarrow> bool" where
  "bad_token_char c \<longleftrightarrow> (let n = (of_char c :: nat) in n < 33 \<or> n > 126 \<or> c = CHR ''|'')"

text \<open>The loop over the raw bytes: \<open>out\<close> is what was copied, \<open>token\<close> the bytes since \<^verbatim>\<open>begin\<close>.\<close>

fun compatible_loop :: "nat \<Rightarrow> string \<Rightarrow> string \<Rightarrow> string \<Rightarrow> errno + string" where
  "compatible_loop capacity out token [] = Inr out"
| "compatible_loop capacity out token (c # cs) =
     (if c \<noteq> CHR 0x00 then
        (if bad_token_char c then Inl EBADMSG else compatible_loop capacity out (token @ [c]) cs)
      else if token = [] \<or> length out + (if out = [] then 0 else 1) + length token \<ge> capacity then Inl EBADMSG
      else compatible_loop capacity (if out = [] then token else out @ ''|'' @ token) [] cs)"

definition compatible_of_raw :: "nat \<Rightarrow> string \<Rightarrow> errno + string" where
  "compatible_of_raw capacity raw =
     (if raw = [] \<or> last raw \<noteq> CHR 0x00 then Inl EBADMSG else compatible_loop capacity [] [] raw)"

definition compatible_read :: "env \<Rightarrow> string \<Rightarrow> nat \<Rightarrow> (errno + string) io" where
  "compatible_read E root capacity =
     bindE (raw_read E root ''firmware/devicetree/base/compatible'' 512) (\<lambda>raw. ret (compatible_of_raw capacity raw))"

section \<open>The identity\<close>

text \<open>An optional DMI field: a missing file leaves it empty, any other error is returned.\<close>

definition optional_field :: "env \<Rightarrow> string \<Rightarrow> string \<Rightarrow> (errno + string) io" where
  "optional_field E root field = do {
     r \<leftarrow> identity_text_read E root field 128 False;
     ret (if r = Inl ENOENT then Inr [] else r) }"

definition dmi_identity :: "env \<Rightarrow> string \<Rightarrow> string \<Rightarrow> (errno + machine_identity) io" where
  "dmi_identity E root product =
     bindE (optional_field E root ''class/dmi/id/product_version'') (\<lambda>version.
     bindE (optional_field E root ''class/dmi/id/sys_vendor'') (\<lambda>vendor.
     bindE (optional_field E root ''class/dmi/id/board_version'') (\<lambda>board.
     bindE (optional_field E root ''class/dmi/id/bios_vendor'') (\<lambda>bios_vendor.
     bindE (optional_field E root ''class/dmi/id/bios_version'') (\<lambda>bios_version.
     bindE (optional_field E root ''class/dmi/id/bios_date'') (\<lambda>bios_date.
       ok (no_identity\<lparr>mi_source := ''dmi'', mi_product_name := product, mi_product_version := version,
             mi_manufacturer := vendor, mi_board_version := board, mi_bios_vendor := bios_vendor,
             mi_bios_version := bios_version, mi_bios_date := bios_date\<rparr>)))))))"

definition dt_identity :: "env \<Rightarrow> string \<Rightarrow> (errno + machine_identity) io" where
  "dt_identity E root =
     bindE (identity_text_read E root ''firmware/devicetree/base/model'' 128 True) (\<lambda>model.
       if model = [] then fail ENODEV
       else bindE (compatible_read E root 512) (\<lambda>compatible.
         ok (no_identity\<lparr>mi_source := ''devicetree'', mi_product_name := model, mi_compatible := compatible\<rparr>)))"

definition identity_read_at :: "env \<Rightarrow> string \<Rightarrow> (errno + machine_identity) io" where
  "identity_read_at E root = do {
     r \<leftarrow> identity_text_read E root ''class/dmi/id/product_name'' 128 False;
     (case r of
        Inl e \<Rightarrow> if e \<noteq> ENOENT \<and> e \<noteq> ENOTDIR then fail e else dt_identity E root
      | Inr product \<Rightarrow> if product \<noteq> [] then dmi_identity E root product else dt_identity E root) }"

definition identity_read :: "env \<Rightarrow> (errno + machine_identity) io" where
  "identity_read E = identity_read_at E ''/sys''"

section \<open>Tokens\<close>

function has_token :: "string \<Rightarrow> string \<Rightarrow> bool" where
  "has_token s token =
     (if s = [] then False
      else (case strchr (CHR ''|'') s of
              None \<Rightarrow> s = token
            | Some (t, rest) \<Rightarrow> t = token \<or> has_token rest token))"
  by pat_completeness auto
termination
  by (relation "measure (\<lambda>(s, t). length s)") (auto dest!: strchr_Some)

declare has_token.simps [simp del]

definition identity_has_compatible :: "machine_identity \<Rightarrow> string \<Rightarrow> bool" where
  "identity_has_compatible i token \<longleftrightarrow>
     token \<noteq> [] \<and> CHR ''|'' \<notin> set token \<and> has_token (mi_compatible i) token"

definition identity_model :: "machine_identity \<Rightarrow> string" where
  "identity_model i =
     (if mi_source i = ''devicetree'' \<and> mi_product_name i = ''UGREEN RK3576 DH2300 Board'' \<and>
         identity_has_compatible i ''rockchip,rk3576'' then ''DH2300''
      else if mi_source i = ''devicetree'' \<and> mi_product_name i = ''UGREEN RK3588C DH4300Plus Board'' \<and>
         identity_has_compatible i ''rockchip,rk3588'' then ''DH4300 Plus''
      else mi_product_name i)"

section \<open>The token test is exact\<close>

text \<open>The raw property the firmware provides for a list of tokens, and the form it is stored in.\<close>

definition raw_tokens :: "string list \<Rightarrow> string" where
  "raw_tokens ts = concat (map (\<lambda>t. t @ [CHR 0x00]) ts)"

fun bar_join :: "string list \<Rightarrow> string" where
  "bar_join [] = []"
| "bar_join [t] = t"
| "bar_join (t # ts) = t @ ''|'' @ bar_join ts"

definition token_ok :: "string \<Rightarrow> bool" where
  "token_ok t \<longleftrightarrow> t \<noteq> [] \<and> list_all (\<lambda>c. \<not> bad_token_char c \<and> c \<noteq> CHR 0x00) t"

lemma token_no_bar: "token_ok t \<Longrightarrow> CHR ''|'' \<notin> set t"
  by (auto simp: token_ok_def list_all_iff bad_token_char_def Let_def)

lemma bar_join_snoc: "ts \<noteq> [] \<Longrightarrow> bar_join (ts @ [t]) = bar_join ts @ ''|'' @ t"
  by (induction ts rule: bar_join.induct) auto

lemma bar_join_ne: "ts \<noteq> [] \<Longrightarrow> list_all token_ok ts \<Longrightarrow> bar_join ts \<noteq> []"
  by (induction ts rule: bar_join.induct) (auto simp: token_ok_def)

lemma has_token_join:
  assumes "list_all token_ok ts"
  shows "has_token (bar_join ts) token \<longleftrightarrow> token \<in> set ts"
  using assms
proof (induction ts rule: bar_join.induct)
  case 1
  then show ?case by (simp add: has_token.simps [of "[]"])
next
  case (2 t)
  then show ?case using token_no_bar [of t] by (subst has_token.simps) (auto simp: strchr_def token_ok_def)
next
  case (3 t u us)
  then have "strchr (CHR ''|'') (t @ ''|'' @ bar_join (u # us)) = Some (t, bar_join (u # us))"
    using token_no_bar [of t] by (auto simp: strchr_def takeWhile_append dropWhile_append)
  with 3 show ?case by (subst has_token.simps) auto
qed

lemma compatible_loop_token:
  assumes "list_all (\<lambda>c. \<not> bad_token_char c \<and> c \<noteq> CHR 0x00) t"
  shows "compatible_loop capacity out token (t @ cs) = compatible_loop capacity out (token @ t) cs"
  using assms by (induction t arbitrary: token) auto

lemma compatible_loop_tokens:
  "list_all token_ok ts \<Longrightarrow> list_all token_ok us \<Longrightarrow> length (bar_join (us @ ts)) < capacity \<Longrightarrow>
   compatible_loop capacity (bar_join us) [] (raw_tokens ts) = Inr (bar_join (us @ ts))"
proof (induction ts arbitrary: us)
  case (Cons t ts)
  have len: "length (bar_join (us @ [t])) \<le> length (bar_join ((us @ [t]) @ ts))" for us and ts
  proof (induction ts rule: rev_induct)
    case (snoc x xs)
    then show ?case using bar_join_snoc [of "(us @ [t]) @ xs" x] by simp
  qed simp
  have t: "token_ok t" and ne: "t \<noteq> []" using Cons.prems by (auto simp: token_ok_def)
  have join: "(if bar_join us = [] then t else bar_join us @ ''|'' @ t) = bar_join (us @ [t])"
    using bar_join_ne [of us] bar_join_snoc [of us t] Cons.prems by (cases "us = []") auto
  have "length (bar_join (us @ [t])) < capacity"
    using len [of us ts] Cons.prems(3) by simp
  moreover have "length (bar_join us) + (if bar_join us = [] then 0 else 1) + length t = length (bar_join (us @ [t]))"
    unfolding join [symmetric] by simp
  moreover have "compatible_loop capacity (bar_join (us @ [t])) [] (raw_tokens ts) = Inr (bar_join ((us @ [t]) @ ts))"
    by (rule Cons.IH) (use Cons.prems in auto)
  ultimately show ?case
    using t ne join compatible_loop_token [of t capacity "bar_join us" "[]" "CHR 0x00 # raw_tokens ts"]
    by (simp add: raw_tokens_def token_ok_def)
qed (simp add: raw_tokens_def)

lemma compatible_tokens:
  assumes "ts \<noteq> []" "list_all token_ok ts" "length (bar_join ts) < capacity"
  shows "compatible_of_raw capacity (raw_tokens ts) = Inr (bar_join ts)"
proof -
  have "raw_tokens ts \<noteq> []" "last (raw_tokens ts) = CHR 0x00"
    using assms(1) by (cases ts rule: rev_cases; simp add: raw_tokens_def)+
  then show ?thesis
    using compatible_loop_tokens [of ts "[]" capacity] assms by (simp add: compatible_of_raw_def)
qed

text \<open>
  The device-tree test is exact: for the property made of well-formed tokens that fit, the
  reader stores all of them, and the test then accepts a token exactly when it is one of the list;
  no prefix, suffix or combination of tokens is accepted.
\<close>

theorem compatible_test_exact:
  assumes "ts \<noteq> []" "list_all token_ok ts" "length (bar_join ts) < 512"
  shows "\<exists>s. compatible_of_raw 512 (raw_tokens ts) = Inr s \<and>
    (\<forall>i token. mi_compatible i = s \<longrightarrow> (identity_has_compatible i token \<longleftrightarrow> token \<in> set ts))"
proof -
  have "token \<noteq> [] \<and> CHR ''|'' \<notin> set token" if "token \<in> set ts" for token
    using that assms(2) token_no_bar by (auto simp: list_all_iff token_ok_def)
  then show ?thesis
    using has_token_join [OF assms(2)] compatible_tokens [OF assms]
    by (auto simp: identity_has_compatible_def)
qed

definition example_dt :: machine_identity where
  "example_dt = no_identity\<lparr>mi_source := ''devicetree'', mi_product_name := ''UGREEN RK3588C DH4300Plus Board'',
     mi_compatible := ''rockchip,rk3588-nas|rockchip,rk3588''\<rparr>"

theorem compatible_test_exact_witness:
  "identity_has_compatible example_dt ''rockchip,rk3588'' \<and> \<not> identity_has_compatible example_dt ''rockchip,rk35''"
proof -
  let ?ts = "[''rockchip,rk3588-nas'', ''rockchip,rk3588'']"
  have "list_all token_ok ?ts" "length (bar_join ?ts) < 512"
    "compatible_of_raw 512 (raw_tokens ?ts) = Inr ''rockchip,rk3588-nas|rockchip,rk3588''"
    "mi_compatible example_dt = ''rockchip,rk3588-nas|rockchip,rk3588''"
    by code_simp+
  then show ?thesis
    using compatible_test_exact [of ?ts] by auto
qed

end
