(* ===== verification/Wake_Profiles.thy ===== *)
theory Wake_Profiles
  imports Machine_Identity
begin

text \<open>
  The wake capability tables (\<^verbatim>\<open>models/wake_profiles.c\<close>): which models may use the RTC alarm and
  Wake-on-LAN, and the exact match of a machine identity.
\<close>

section \<open>Tables\<close>

record rtc_profile =
  rtc_id :: string
  rtc_product :: string
  rtc_dt_model :: "string option"
  rtc_dt_compatible :: string
  rtc_name :: string
  rtc_of_path :: "string option"
  resolution_seconds :: nat

record wol_profile =
  wol_id :: string
  wol_product :: string
  wol_dt_model :: "string option"
  wol_dt_compatible :: string
  ethernet_of_path :: "string option"
  ethernet_compatible :: "string option"
  automatic_pci_count :: nat

text \<open>The \<^verbatim>\<open>dt_compatible\<close> of an entry without a device-tree model is never read.\<close>

definition rtc_cmos :: "string \<Rightarrow> string \<Rightarrow> rtc_profile" where
  "rtc_cmos key product = \<lparr>rtc_id = key, rtc_product = product, rtc_dt_model = None, rtc_dt_compatible = [],
     rtc_name = ''rtc_cmos'', rtc_of_path = None, resolution_seconds = 1\<rparr>"

definition wol_pci :: "string \<Rightarrow> string \<Rightarrow> nat \<Rightarrow> wol_profile" where
  "wol_pci key product n = \<lparr>wol_id = key, wol_product = product, wol_dt_model = None, wol_dt_compatible = [],
     ethernet_of_path = None, ethernet_compatible = None, automatic_pci_count = n\<rparr>"

definition rtc_profiles :: "rtc_profile list" where
  "rtc_profiles =
     [rtc_cmos ''dh2600'' ''DH2600'', rtc_cmos ''dx4600'' ''DX4600'',
      rtc_cmos ''dx4600plus'' ''DX4600+'', rtc_cmos ''dx4600pro'' ''DX4600 Pro'',
      rtc_cmos ''dx4700'' ''DX4700'', rtc_cmos ''dx4700plus'' ''DX4700+'',
      rtc_cmos ''dxp2800'' ''DXP2800'', rtc_cmos ''dxp2800gt'' ''DXP2800 GT'',
      rtc_cmos ''dxp4800'' ''DXP4800'', rtc_cmos ''dxp4800s'' ''DXP4800S'',
      rtc_cmos ''dxp4800plus'' ''DXP4800 Plus'', rtc_cmos ''dxp4800pro'' ''DXP4800 Pro'',
      rtc_cmos ''dxp4800gt'' ''DXP4800 GT'', rtc_cmos ''dxp480tplus'' ''DXP480T Plus'',
      rtc_cmos ''dxp6800'' ''DXP6800'', rtc_cmos ''dxp6800plus'' ''DXP6800 Plus'',
      rtc_cmos ''dxp6800pro'' ''DXP6800 Pro'', rtc_cmos ''dxp6800ultra'' ''DXP6800 Ultra'',
      rtc_cmos ''dxp8800'' ''DXP8800'', rtc_cmos ''dxp8800plus'' ''DXP8800 Plus'',
      rtc_cmos ''dxp8800pro'' ''DXP8800 Pro'', rtc_cmos ''dxp8800ultra'' ''DXP8800 Ultra'',
      rtc_cmos ''idx6011pro'' ''iDX6011 Pro'',
      \<lparr>rtc_id = ''dh2300'', rtc_product = ''DH2300'', rtc_dt_model = Some ''UGREEN RK3576 DH2300 Board'',
       rtc_dt_compatible = ''rockchip,rk3576'', rtc_name = ''hym8563'',
       rtc_of_path = Some ''/i2c@2ac50000/hym8563@51'', resolution_seconds = 60\<rparr>,
      \<lparr>rtc_id = ''dh4300plus'', rtc_product = ''DH4300 Plus'', rtc_dt_model = Some ''UGREEN RK3588C DH4300Plus Board'',
       rtc_dt_compatible = ''rockchip,rk3588'', rtc_name = ''hym8563'',
       rtc_of_path = Some ''/i2c@fec80000/hym8563@51'', resolution_seconds = 60\<rparr>]"

definition wol_profiles :: "wol_profile list" where
  "wol_profiles =
     [wol_pci ''dh2600'' ''DH2600'' 0, wol_pci ''dx4600'' ''DX4600'' 2,
      wol_pci ''dx4600plus'' ''DX4600+'' 2, wol_pci ''dx4600pro'' ''DX4600 Pro'' 2,
      wol_pci ''dx4700'' ''DX4700'' 0, wol_pci ''dx4700plus'' ''DX4700+'' 0,
      wol_pci ''dxp2800'' ''DXP2800'' 0, wol_pci ''dxp2800gt'' ''DXP2800 GT'' 0,
      wol_pci ''dxp4800'' ''DXP4800'' 2, wol_pci ''dxp4800s'' ''DXP4800S'' 2,
      wol_pci ''dxp4800plus'' ''DXP4800 Plus'' 2, wol_pci ''dxp4800pro'' ''DXP4800 Pro'' 2,
      wol_pci ''dxp4800gt'' ''DXP4800 GT'' 0, wol_pci ''dxp480tplus'' ''DXP480T Plus'' 1,
      wol_pci ''dxp6800'' ''DXP6800'' 0, wol_pci ''dxp6800plus'' ''DXP6800 Plus'' 2,
      wol_pci ''dxp6800pro'' ''DXP6800 Pro'' 2, wol_pci ''dxp6800ultra'' ''DXP6800 Ultra'' 0,
      wol_pci ''dxp8800'' ''DXP8800'' 0, wol_pci ''dxp8800plus'' ''DXP8800 Plus'' 0,
      wol_pci ''dxp8800pro'' ''DXP8800 Pro'' 0, wol_pci ''dxp8800ultra'' ''DXP8800 Ultra'' 0,
      wol_pci ''idx6011pro'' ''iDX6011 Pro'' 0,
      \<lparr>wol_id = ''dh2300'', wol_product = ''DH2300'', wol_dt_model = Some ''UGREEN RK3576 DH2300 Board'',
       wol_dt_compatible = ''rockchip,rk3576'', ethernet_of_path = Some ''/ethernet@2a220000'',
       ethernet_compatible = Some ''rockchip,rk3576-gmac'', automatic_pci_count = 0\<rparr>,
      \<lparr>wol_id = ''dh4300plus'', wol_product = ''DH4300 Plus'', wol_dt_model = Some ''UGREEN RK3588C DH4300Plus Board'',
       wol_dt_compatible = ''rockchip,rk3588'', ethernet_of_path = None, ethernet_compatible = None,
       automatic_pci_count = 0\<rparr>]"

section \<open>Matching\<close>

definition profile_matches :: "machine_identity \<Rightarrow> string \<Rightarrow> string option \<Rightarrow> string \<Rightarrow> bool" where
  "profile_matches i product dt_model compatible \<longleftrightarrow>
     (case dt_model of
        Some m \<Rightarrow> mi_source i = ''devicetree'' \<and> mi_product_name i = m \<and> identity_has_compatible i compatible
      | None \<Rightarrow> mi_source i = ''dmi'' \<and> mi_product_name i = product)"

definition rtc_match :: "machine_identity \<Rightarrow> rtc_profile option" where
  "rtc_match i = find (\<lambda>p. profile_matches i (rtc_product p) (rtc_dt_model p) (rtc_dt_compatible p)) rtc_profiles"

definition wol_match :: "machine_identity \<Rightarrow> wol_profile option" where
  "wol_match i = find (\<lambda>p. profile_matches i (wol_product p) (wol_dt_model p) (wol_dt_compatible p)) wol_profiles"

section \<open>The tables agree and a machine matches at most one row\<close>

lemmas wake_tables = rtc_profiles_def wol_profiles_def rtc_cmos_def wol_pci_def

text \<open>The name a row is matched by.\<close>

definition rtc_key :: "rtc_profile \<Rightarrow> string" where
  "rtc_key p = (case rtc_dt_model p of Some m \<Rightarrow> m | None \<Rightarrow> rtc_product p)"

lemma rtc_keys: "distinct (map rtc_key rtc_profiles)"
  by (simp add: wake_tables rtc_key_def)

lemma same_rows:
  "map (\<lambda>p. (rtc_id p, rtc_product p, rtc_dt_model p, rtc_dt_compatible p)) rtc_profiles =
   map (\<lambda>p. (wol_id p, wol_product p, wol_dt_model p, wol_dt_compatible p)) wol_profiles"
  by (simp add: wake_tables)

lemma matches_key: "profile_matches i (rtc_product p) (rtc_dt_model p) (rtc_dt_compatible p) \<Longrightarrow> mi_product_name i = rtc_key p"
  by (auto simp: profile_matches_def rtc_key_def split: option.splits)

lemma find_map_index:
  "map f xs = map g ys \<Longrightarrow> map_option f (find (P \<circ> f) xs) = map_option g (find (P \<circ> g) ys)"
proof (induction xs arbitrary: ys)
  case (Cons x xs)
  then obtain y ys' where "ys = y # ys'" "f x = g y" "map f xs = map g ys'" by auto
  with Cons.IH [of ys'] show ?case by simp
qed simp

text \<open>
  The two wake tables cover the same machines: the RTC lookup is exact (it returns a row
  exactly when that row is in the table and matches the identity), and the Wake-on-LAN lookup
  succeeds for exactly the same identities, with the row of the same model.
\<close>

theorem wake_match_exact:
  "(rtc_match i = Some p \<longleftrightarrow>
      p \<in> set rtc_profiles \<and> profile_matches i (rtc_product p) (rtc_dt_model p) (rtc_dt_compatible p)) \<and>
   map_option (\<lambda>p. (rtc_id p, rtc_product p)) (rtc_match i) = map_option (\<lambda>w. (wol_id w, wol_product w)) (wol_match i)"
proof
  let ?m = "\<lambda>p. profile_matches i (rtc_product p) (rtc_dt_model p) (rtc_dt_compatible p)"
  have unique: "p = q" if "p \<in> set rtc_profiles" "q \<in> set rtc_profiles" "?m p" "?m q" for p q
    using that rtc_keys matches_key [of i p] matches_key [of i q] by (auto simp: distinct_map inj_on_def)
  show "rtc_match i = Some p \<longleftrightarrow> p \<in> set rtc_profiles \<and> ?m p"
  proof (cases "rtc_match i")
    case None
    then have "\<not> (\<exists>q. q \<in> set rtc_profiles \<and> ?m q)" by (simp add: rtc_match_def find_None_iff)
    with None show ?thesis by auto
  next
    case (Some q)
    then have "q \<in> set rtc_profiles" "?m q" by (auto simp: rtc_match_def find_Some_iff)
    with Some unique show ?thesis by (metis option.inject)
  qed
  let ?f = "\<lambda>p. (rtc_id p, rtc_product p, rtc_dt_model p, rtc_dt_compatible p)"
  let ?g = "\<lambda>p. (wol_id p, wol_product p, wol_dt_model p, wol_dt_compatible p)"
  let ?P = "\<lambda>(_, product, dt, compatible). profile_matches i product dt compatible"
  have "map_option ?f (rtc_match i) = map_option ?g (wol_match i)"
    using find_map_index [OF same_rows, of ?P] by (simp add: rtc_match_def wol_match_def comp_def)
  then have "map_option (\<lambda>(a, b, _). (a, b)) (map_option ?f (rtc_match i)) =
      map_option (\<lambda>(a, b, _). (a, b)) (map_option ?g (wol_match i))" by simp
  then show "map_option (\<lambda>p. (rtc_id p, rtc_product p)) (rtc_match i) = map_option (\<lambda>w. (wol_id w, wol_product w)) (wol_match i)"
    by (simp add: option.map_comp comp_def)
qed

end
