(* ===== verification/Rtc_Wake.thy ===== *)
theory Rtc_Wake
  imports Wake_Profiles
begin

text \<open>
  The RTC wake alarm (\<^verbatim>\<open>power/rtc_wake.c\<close>): the choice of the one matching RTC device, and the
  alarm transaction: compare the RTC clock with the system clock, clear, read back, set, read back.
  \<^verbatim>\<open>time_t\<close> is an integer; \<^verbatim>\<open>read\<close> delivers the file's text or its error.
\<close>

section \<open>Choosing the device\<close>

definition is_rtc_name :: "string \<Rightarrow> bool" where
  "is_rtc_name n \<longleftrightarrow> starts_with ''rtc'' n \<and> drop 3 n \<noteq> [] \<and> list_all isdigit (drop 3 n)"

definition rtc_name_ok :: "rtc_profile \<Rightarrow> file_read \<Rightarrow> bool" where
  "rtc_name_ok p r =
     (case r of Open_failed _ \<Rightarrow> False
      | File_data s e \<Rightarrow>
          (case fgets_lines 255 (e \<noteq> None) s of [] \<Rightarrow> False
           | l # _ \<Rightarrow>
               let line = cut_eol (c_str l); n = length (rtc_name p) in
               starts_with (rtc_name p) line \<and> (length line = n \<or> line ! n = CHR '' '')))"

definition rtc_path_ok :: "string \<Rightarrow> file_read \<Rightarrow> bool" where
  "rtc_path_ok of_path r =
     (case r of Open_failed _ \<Rightarrow> False
      | File_data s e \<Rightarrow>
          list_ex (\<lambda>l. cut_eol (c_str l) = ''OF_FULLNAME='' @ of_path) (fgets_lines 255 (e \<noteq> None) s))"

text \<open>The \<^verbatim>\<open>wakealarm\<close> attribute of a candidate device that qualifies.\<close>

definition rtc_candidate :: "env \<Rightarrow> rtc_profile \<Rightarrow> string \<Rightarrow> (string option) io" where
  "rtc_candidate E p candidate =
     (if length (candidate @ ''/name'') \<ge> PATH_MAX then ret None
      else do {
        name \<leftarrow> read_file E (candidate @ ''/name'');
        (if \<not> rtc_name_ok p name then ret None
         else do {
           good \<leftarrow> (case rtc_of_path p of None \<Rightarrow> ret True
             | Some of_path \<Rightarrow>
                 if length (candidate @ ''/device/uevent'') \<ge> PATH_MAX then ret False
                 else do { u \<leftarrow> read_file E (candidate @ ''/device/uevent''); ret (rtc_path_ok of_path u) });
           (if \<not> good \<or> length (candidate @ ''/wakealarm'') \<ge> PATH_MAX then ret None
            else do {
              st \<leftarrow> lstat_regular E (candidate @ ''/wakealarm'');
              ret (if st = Inr True then Some (candidate @ ''/wakealarm'') else None) }) }) })"

fun rtc_scan :: "env \<Rightarrow> rtc_profile \<Rightarrow> nat \<Rightarrow> string \<Rightarrow> string list \<Rightarrow> string list \<Rightarrow> (errno + string list) io" where
  "rtc_scan E p path_size dir found [] = ok found"
| "rtc_scan E p path_size dir found (n # ns) =
     (if \<not> is_rtc_name n then rtc_scan E p path_size dir found ns
      else do {
        c \<leftarrow> rtc_candidate E p (dir @ ''/'' @ n);
        (case c of None \<Rightarrow> rtc_scan E p path_size dir found ns
         | Some a \<Rightarrow> if length a \<ge> path_size then fail ENAMETOOLONG
                     else rtc_scan E p path_size dir (found @ [a]) ns) })"

definition rtc_select_at :: "env \<Rightarrow> string \<Rightarrow> rtc_profile \<Rightarrow> nat \<Rightarrow> (errno + string) io" where
  "rtc_select_at E root p path_size =
     (let dir = root @ ''/class/rtc'' in
      if path_size = 0 then fail EINVAL
      else if length dir \<ge> PATH_MAX then fail ENAMETOOLONG
      else do {
        d \<leftarrow> list_dir E dir;
        (case d of Inl e \<Rightarrow> fail e
         | Inr names \<Rightarrow>
             bindE (rtc_scan E p path_size dir [] names) (\<lambda>found.
               case found of [path] \<Rightarrow> ok path | _ \<Rightarrow> fail ENODEV)) })"

section \<open>The alarm file\<close>

definition write_wakealarm :: "env \<Rightarrow> string \<Rightarrow> string \<Rightarrow> (errno + unit) io" where
  "write_wakealarm E path value = do {
     w \<leftarrow> write_file E path value;
     (case w of Wopen_failed e \<Rightarrow> fail e | Write_failed e \<Rightarrow> fail e
      | Written n \<Rightarrow> if n \<noteq> length value then fail EIO else ok ()) }"

definition rtc_wake_parse :: "string \<Rightarrow> errno + int" where
  "rtc_wake_parse value =
     (let cursor = dropWhile isspace value in
      if cursor = [] then Inr 0
      else
        let (parsed, rest, range) = strtoll10 cursor in
        if range \<or> rest = cursor \<or> dropWhile isspace rest \<noteq> [] then Inl EIO
        else if parsed < 0 then Inl ERANGE
        else Inr parsed)"

text \<open>One \<^verbatim>\<open>read\<close> of at most 63 bytes.\<close>

definition alarm_of_read :: "file_read \<Rightarrow> errno + int" where
  "alarm_of_read r =
     (case r of Open_failed e \<Rightarrow> Inl e
      | File_data s e \<Rightarrow>
          (case e of Some err \<Rightarrow> if s = [] then Inl err
                                 else if length s \<ge> 63 then Inl EOVERFLOW else rtc_wake_parse (c_str s)
           | None \<Rightarrow> if length s \<ge> 63 then Inl EOVERFLOW else rtc_wake_parse (c_str s)))"

definition read_alarm :: "env \<Rightarrow> string \<Rightarrow> (errno + int) io" where
  "read_alarm E path = do { r \<leftarrow> read_file E path; ret (alarm_of_read r) }"

definition rtc_wake_read :: "env \<Rightarrow> rtc_profile \<Rightarrow> (errno + int) io" where
  "rtc_wake_read E p = bindE (rtc_select_at E ''/sys'' p PATH_MAX) (read_alarm E)"

section \<open>Setting the alarm\<close>

definition rtc_validate_epoch :: "rtc_profile \<Rightarrow> int \<Rightarrow> int \<Rightarrow> errno option" where
  "rtc_validate_epoch p epoch now =
     (if resolution_seconds p = 0 \<or> now = -1 \<or> epoch \<le> now \<or> epoch - now \<le> 60 then Some EINVAL
      else if epoch mod int (resolution_seconds p) \<noteq> 0 then Some EINVAL
      else None)"

text \<open>The RTC clock beside the alarm file must agree with the system clock to 5 seconds.\<close>

definition since_epoch_path :: "string \<Rightarrow> string" where
  "since_epoch_path path = take (length path - length ''wakealarm'') path @ ''since_epoch''"

definition rtc_clock_agrees :: "env \<Rightarrow> string \<Rightarrow> (errno + unit) io" where
  "rtc_clock_agrees E path =
     (if length (since_epoch_path path) \<ge> PATH_MAX then fail ENAMETOOLONG
      else bindE (read_alarm E (since_epoch_path path)) (\<lambda>rtc_now. do {
        system_now \<leftarrow> clock E;
        (if system_now = -1 \<or> rtc_now \<le> 0 \<or> \<bar>rtc_now - system_now\<bar> > 5 then fail EINVAL else ok ()) }))"

definition update_alarm :: "env \<Rightarrow> rtc_profile \<Rightarrow> int \<Rightarrow> (errno + unit) io" where
  "update_alarm E p epoch =
     bindE (rtc_select_at E ''/sys'' p PATH_MAX) (\<lambda>path.
     bindE (if epoch \<noteq> 0 then rtc_clock_agrees E path else ok ()) (\<lambda>_.
     bindE (read_alarm E path) (\<lambda>_.
     bindE (write_wakealarm E path ''0'') (\<lambda>_.
     bindE (read_alarm E path) (\<lambda>observed.
       if observed \<noteq> 0 then fail EIO
       else if epoch = 0 then ok ()
       else bindE (write_wakealarm E path (dec_int epoch)) (\<lambda>_.
            bindE (read_alarm E path) (\<lambda>observed.
              if observed \<noteq> epoch then fail EIO else ok ())))))))"

definition rtc_wake_clear :: "env \<Rightarrow> rtc_profile \<Rightarrow> (errno + unit) io" where
  "rtc_wake_clear E p = update_alarm E p 0"

definition rtc_wake_set :: "env \<Rightarrow> rtc_profile \<Rightarrow> int \<Rightarrow> (errno + unit) io" where
  "rtc_wake_set E p epoch = do {
     now \<leftarrow> clock E;
     (case rtc_validate_epoch p epoch now of Some e \<Rightarrow> fail e | None \<Rightarrow> update_alarm E p epoch) }"

section \<open>What is written, and on what evidence\<close>

definition no_file_write :: "event \<Rightarrow> bool" where
  "no_file_write e \<longleftrightarrow> (\<forall>p s w. e \<noteq> Write_file p s w)"

lemma no_file_write_simps [simp]:
  "no_file_write (Read_file p r)" "no_file_write (List_dir d l)" "no_file_write (Lstat_regular p st)"
  "no_file_write (Clock n)" "\<not> no_file_write (Write_file p s w)"
  by (simp_all add: no_file_write_def)

text \<open>The history shows that a path is the alarm of a matching RTC.\<close>

definition rtc_evidence :: "rtc_profile \<Rightarrow> trace \<Rightarrow> string \<Rightarrow> bool" where
  "rtc_evidence p es path \<longleftrightarrow>
     (\<exists>n r. is_rtc_name n \<and> path = ''/sys/class/rtc/'' @ n @ ''/wakealarm'' \<and>
        Read_file (''/sys/class/rtc/'' @ n @ ''/name'') r \<in> set es \<and> rtc_name_ok p r \<and>
        (\<forall>of_path. rtc_of_path p = Some of_path \<longrightarrow>
           (\<exists>u. Read_file (''/sys/class/rtc/'' @ n @ ''/device/uevent'') u \<in> set es \<and> rtc_path_ok of_path u)) \<and>
        Lstat_regular path (Inr True) \<in> set es)"

lemma rtc_evidence_append [simp]:
  "rtc_evidence p es path \<Longrightarrow> rtc_evidence p (es @ fs) path"
  "rtc_evidence p fs path \<Longrightarrow> rtc_evidence p (es @ fs) path"
  "rtc_evidence p fs path \<Longrightarrow> rtc_evidence p (e # fs) path"
  unfolding rtc_evidence_def by (fastforce)+

lemma rtc_candidate_evidence:
  assumes "is_rtc_name n"
  shows "seg (\<lambda>r es. list_all no_file_write es \<and> (\<forall>a. r = Some a \<longrightarrow> rtc_evidence p es a))
     (rtc_candidate E p (''/sys/class/rtc'' @ ''/'' @ n))"
  unfolding rtc_candidate_def
  by (intro seg_if seg_case_option seg_bind [OF seg_read_file] seg_bind [OF seg_lstat] seg_return
      seg_bind [where m = "case rtc_of_path p of None \<Rightarrow> ret True | Some q \<Rightarrow> F q" for F,
        where P = "\<lambda>good es. list_all no_file_write es \<and> (good \<longrightarrow> (\<forall>of_path. rtc_of_path p = Some of_path \<longrightarrow>
           (\<exists>u. Read_file (''/sys/class/rtc/'' @ n @ ''/device/uevent'') u \<in> set es \<and> rtc_path_ok of_path u)))"])
    (use assms in \<open>auto simp: rtc_evidence_def\<close>)

lemma rtc_scan_evidence:
  assumes "\<forall>a \<in> set found. rtc_evidence p pre a"
  shows "seg (\<lambda>r es. list_all no_file_write es \<and> (\<forall>as. r = Inr as \<longrightarrow> (\<forall>a \<in> set as. rtc_evidence p (pre @ es) a)))
     (rtc_scan E p limit ''/sys/class/rtc'' found ns)"
  using assms
proof (induction ns arbitrary: found pre)
  case Nil
  then show ?case by (auto intro!: seg_return)
next
  case (Cons n ns)
  have skip: "seg (\<lambda>r es. list_all no_file_write es \<and> (\<forall>as. r = Inr as \<longrightarrow> (\<forall>a \<in> set as. rtc_evidence p (pre @ es) a)))
     (rtc_scan E p limit ''/sys/class/rtc'' found ns)" by (rule Cons.IH [OF Cons.prems])
  show ?case
  proof (cases "is_rtc_name n")
    case True
    have rest: "seg (\<lambda>r es'. list_all no_file_write (es @ es') \<and>
          (\<forall>as. r = Inr as \<longrightarrow> (\<forall>a \<in> set as. rtc_evidence p (pre @ es @ es') a)))
        (rtc_scan E p limit ''/sys/class/rtc'' found' ns)"
      if "list_all no_file_write es" "\<forall>a \<in> set found'. rtc_evidence p (pre @ es) a" for es found'
      by (rule seg_mono [OF Cons.IH [OF that(2)]]) (use that(1) in auto)
    show ?thesis
      unfolding rtc_scan.simps
      by (intro seg_if seg_bind [OF rtc_candidate_evidence [OF True]] seg_case_option seg_return rest)
        (use True Cons.prems in auto)
  qed (simp add: skip)
qed

lemma rtc_select_evidence:
  "seg (\<lambda>r es. list_all no_file_write es \<and> (\<forall>path. r = Inr path \<longrightarrow> rtc_evidence p es path))
     (rtc_select_at E ''/sys'' p limit)"
proof -
  have scan: "seg (\<lambda>r es. list_all no_file_write es \<and> (\<forall>as. r = Inr as \<longrightarrow> (\<forall>a \<in> set as. rtc_evidence p es a)))
      (rtc_scan E p limit ''/sys/class/rtc'' [] ns)" for ns
    using rtc_scan_evidence [of "[]" p "[]"] by simp
  show ?thesis
    unfolding rtc_select_at_def Let_def
    by (intro seg_if seg_return seg_bind [OF seg_list_dir] seg_case_sum)
      (auto intro!: seg_return seg_bindE [OF scan] split: list.splits)
qed

text \<open>The events of an alarm transaction on \<open>path\<close>, with the result they lead to: clear, read back
  zero, and for a new alarm write it and read it back.\<close>

definition accepted :: "string \<Rightarrow> file_write \<Rightarrow> bool" where
  "accepted s w \<longleftrightarrow> w = Written (length s)"

inductive alarm_transaction :: "string \<Rightarrow> int \<Rightarrow> errno + unit \<Rightarrow> trace \<Rightarrow> bool" for path epoch where
  clear_failed: "\<not> accepted ''0'' w \<Longrightarrow> alarm_transaction path epoch (Inl e) [Write_file path ''0'' w]"
| clear_unconfirmed: "accepted ''0'' w \<Longrightarrow> alarm_of_read a \<noteq> Inr 0 \<Longrightarrow>
    alarm_transaction path epoch (Inl e) [Write_file path ''0'' w, Read_file path a]"
| cleared: "accepted ''0'' w \<Longrightarrow> alarm_of_read a = Inr 0 \<Longrightarrow> epoch = 0 \<Longrightarrow>
    alarm_transaction path epoch (Inr ()) [Write_file path ''0'' w, Read_file path a]"
| set_failed: "accepted ''0'' w \<Longrightarrow> alarm_of_read a = Inr 0 \<Longrightarrow> epoch \<noteq> 0 \<Longrightarrow> \<not> accepted (dec_int epoch) w' \<Longrightarrow>
    alarm_transaction path epoch (Inl e)
      [Write_file path ''0'' w, Read_file path a, Write_file path (dec_int epoch) w']"
| set_unconfirmed: "accepted ''0'' w \<Longrightarrow> alarm_of_read a = Inr 0 \<Longrightarrow> epoch \<noteq> 0 \<Longrightarrow>
    accepted (dec_int epoch) w' \<Longrightarrow> alarm_of_read a' \<noteq> Inr epoch \<Longrightarrow>
    alarm_transaction path epoch (Inl e)
      [Write_file path ''0'' w, Read_file path a, Write_file path (dec_int epoch) w', Read_file path a']"
| set_confirmed: "accepted ''0'' w \<Longrightarrow> alarm_of_read a = Inr 0 \<Longrightarrow> epoch \<noteq> 0 \<Longrightarrow>
    accepted (dec_int epoch) w' \<Longrightarrow> alarm_of_read a' = Inr epoch \<Longrightarrow>
    alarm_transaction path epoch (Inr ())
      [Write_file path ''0'' w, Read_file path a, Write_file path (dec_int epoch) w', Read_file path a']"

inductive_cases alarm_successE: "alarm_transaction path epoch (Inr ()) es"

lemma seg_write_wakealarm:
  "seg (\<lambda>r es. \<exists>w. es = [Write_file path s w] \<and> (r = Inr () \<longleftrightarrow> accepted s w)) (write_wakealarm E path s)"
  unfolding write_wakealarm_def
  by (rule seg_bind [OF seg_write_file]) (auto intro!: seg_return simp: accepted_def split: file_write.splits)

lemma seg_read_alarm: "seg (\<lambda>r es. \<exists>a. es = [Read_file path a] \<and> alarm_of_read a = r) (read_alarm E path)"
  unfolding read_alarm_def by (rule seg_bind [OF seg_read_file]) (auto intro!: seg_return)

lemma transaction_events:
  "seg (alarm_transaction path epoch)
     (bindE (write_wakealarm E path ''0'') (\<lambda>_.
      bindE (read_alarm E path) (\<lambda>observed.
        if observed \<noteq> 0 then fail EIO
        else if epoch = 0 then ok ()
        else bindE (write_wakealarm E path (dec_int epoch)) (\<lambda>_.
             bindE (read_alarm E path) (\<lambda>observed.
               if observed \<noteq> epoch then fail EIO else ok ())))))"
  by (intro seg_bindE [OF seg_write_wakealarm] seg_bindE [OF seg_read_alarm] seg_if seg_return)
    (auto intro!: alarm_transaction.intros)

text \<open>The clock of the RTC was read and agrees with the system clock.\<close>

definition clock_evidence :: "trace \<Rightarrow> string \<Rightarrow> bool" where
  "clock_evidence es path \<longleftrightarrow>
     (\<exists>a rtc now. Read_file (since_epoch_path path) a \<in> set es \<and> Clock now \<in> set es \<and>
        alarm_of_read a = Inr rtc \<and> 0 < rtc \<and> \<bar>rtc - now\<bar> \<le> 5)"

lemma clock_evidence_append [simp]:
  "clock_evidence es path \<Longrightarrow> clock_evidence (es @ fs) path"
  "clock_evidence fs path \<Longrightarrow> clock_evidence (es @ fs) path"
  unfolding clock_evidence_def by fastforce+

lemma seg_clock_agrees:
  "seg (\<lambda>r es. list_all no_file_write es \<and> (r = Inr () \<longrightarrow> clock_evidence es path)) (rtc_clock_agrees E path)"
  unfolding rtc_clock_agrees_def
  by (intro seg_if seg_bindE [OF seg_read_alarm] seg_bind [OF seg_clock] seg_return)
    (auto simp: clock_evidence_def)

definition alarm_guarded :: "rtc_profile \<Rightarrow> int \<Rightarrow> errno + unit \<Rightarrow> trace \<Rightarrow> bool" where
  "alarm_guarded p epoch r es \<longleftrightarrow>
     (list_all no_file_write es \<and> r \<noteq> Inr ()) \<or>
     (\<exists>pre post path. es = pre @ post \<and> list_all no_file_write pre \<and> rtc_evidence p pre path \<and>
        (epoch \<noteq> 0 \<longrightarrow> clock_evidence pre path) \<and> alarm_transaction path epoch r post)"

lemma update_evidence: "seg (alarm_guarded p epoch) (update_alarm E p epoch)"
  unfolding update_alarm_def
proof (rule seg_bindE [OF rtc_select_evidence])
  fix e :: errno and es assume "list_all no_file_write es \<and> (\<forall>path. Inl e = Inr path \<longrightarrow> rtc_evidence p es path)"
  then show "alarm_guarded p epoch (Inl e) es" by (simp add: alarm_guarded_def)
next
  fix path es assume sel: "list_all no_file_write es \<and> (\<forall>q. Inr path = Inr q \<longrightarrow> rtc_evidence p es q)"
  have clock: "seg (\<lambda>r fs. list_all no_file_write fs \<and> (r = Inr () \<longrightarrow> epoch \<noteq> 0 \<longrightarrow> clock_evidence fs path))
      (if epoch \<noteq> 0 then rtc_clock_agrees E path else ok ())"
    by (intro seg_if seg_return seg_mono [OF seg_clock_agrees]) auto
  show "seg (\<lambda>r fs. alarm_guarded p epoch r (es @ fs)) (bindE (if epoch \<noteq> 0 then rtc_clock_agrees E path else ok ()) (\<lambda>_.
     bindE (read_alarm E path) (\<lambda>_.
     bindE (write_wakealarm E path ''0'') (\<lambda>_.
     bindE (read_alarm E path) (\<lambda>observed.
       if observed \<noteq> 0 then fail EIO
       else if epoch = 0 then ok ()
       else bindE (write_wakealarm E path (dec_int epoch)) (\<lambda>_.
            bindE (read_alarm E path) (\<lambda>observed.
              if observed \<noteq> epoch then fail EIO else ok ())))))))"
  proof (intro seg_bindE [OF clock] seg_bindE [OF seg_read_alarm] seg_mono [OF transaction_events])
    fix u fs q gs r hs
    assume "list_all no_file_write fs \<and> (Inr u = Inr () \<longrightarrow> epoch \<noteq> 0 \<longrightarrow> clock_evidence fs path)"
      "\<exists>a. gs = [Read_file path a] \<and> alarm_of_read a = Inr q" "alarm_transaction path epoch r hs"
    with sel show "alarm_guarded p epoch r (es @ fs @ gs @ hs)"
      unfolding alarm_guarded_def
      by (intro disjI2 exI [of _ "es @ fs @ gs"] exI [of _ hs] exI [of _ path]) auto
  qed (use sel in \<open>auto simp: alarm_guarded_def\<close>)
qed

text \<open>The segment of a set request: the clock, and nothing more if the time is not acceptable.\<close>

definition set_guarded :: "rtc_profile \<Rightarrow> int \<Rightarrow> errno + unit \<Rightarrow> trace \<Rightarrow> bool" where
  "set_guarded p epoch r es \<longleftrightarrow>
     (\<exists>now fs. es = Clock now # fs \<and>
        (case rtc_validate_epoch p epoch now of
           Some e \<Rightarrow> r = Inl e \<and> fs = []
         | None \<Rightarrow> now + 60 < epoch \<and> epoch mod int (resolution_seconds p) = 0 \<and> alarm_guarded p epoch r fs))"

lemma rtc_set_evidence: "seg (set_guarded p epoch) (rtc_wake_set E p epoch)"
  unfolding rtc_wake_set_def
  by (intro seg_bind [OF seg_clock] seg_case_option seg_return seg_mono [OF update_evidence])
    (auto simp: set_guarded_def rtc_validate_epoch_def split: if_splits)

text \<open>
  \<^bold>\<open>C38.\<close>  Whatever the kernel answers, setting a wake alarm writes nothing unless the requested time is
  more than 60 seconds ahead of the system clock and a multiple of the RTC's resolution; then it writes
  only the alarm file of a device whose name (and device-tree path, where the profile has one) was
  read and matches, whose own clock was read and agrees with the system clock to 5 seconds; the
  writes follow the protocol clear, confirm, set, confirm, and stop at the first step that is not
  confirmed.  Success is reported exactly when the last read-back is the requested time.
\<close>

theorem rtc_wake_set_guarded:
  assumes "run_state (rtc_wake_set E p epoch) h = (r, h')"
  shows "\<exists>now es. h' = h @ Clock now # es \<and>
    (case rtc_validate_epoch p epoch now of
       Some e \<Rightarrow> r = Inl e \<and> es = []
     | None \<Rightarrow> now + 60 < epoch \<and> epoch mod int (resolution_seconds p) = 0 \<and> alarm_guarded p epoch r es)"
  using segD [OF rtc_set_evidence assms] by (auto simp: set_guarded_def)

section \<open>On a working RTC\<close>

text \<open>How the kernel shows an alarm (0: none pending), and the alarm pending after a history.\<close>

definition alarm_show :: "int \<Rightarrow> string" where
  "alarm_show n = (if n = 0 then [] else dec_int n @ [CHR 0x0A])"

definition alarm_step :: "string \<Rightarrow> event \<Rightarrow> int \<Rightarrow> int" where
  "alarm_step path e n = (case e of Write_file q v (Written _) \<Rightarrow> if q = path then fst (strtoll10 v) else n | _ \<Rightarrow> n)"

definition alarm_after :: "string \<Rightarrow> int \<Rightarrow> trace \<Rightarrow> int" where
  "alarm_after path base h = fold (alarm_step path) h base"

lemma alarm_step_quiet: "no_file_write e \<Longrightarrow> alarm_step path e n = n"
  by (auto simp: alarm_step_def no_file_write_def split: event.splits)

lemma alarm_after_quiet [simp]: "list_all no_file_write es \<Longrightarrow> alarm_after path base (h @ es) = alarm_after path base h"
  unfolding alarm_after_def
  by (induction es arbitrary: h rule: rev_induct) (auto simp: alarm_step_quiet simp flip: append_assoc)

lemma alarm_after_write [simp]:
  "alarm_after path base (h @ [Write_file path v (Written k)]) = fst (strtoll10 v)"
  by (simp add: alarm_after_def alarm_step_def)

lemma alarm_after_read [simp]: "alarm_after path base (h @ [Read_file q a]) = alarm_after path base h"
  by (simp add: alarm_after_def alarm_step_def)

text \<open>The text form of an alarm reads back as the alarm.\<close>

lemma strtoll10_dec_int: "0 \<le> n \<Longrightarrow> n < 2 ^ 63 \<Longrightarrow> strtoll10 (dec_int n) = (n, [], False)"
  using strtoll10_dec [of "nat n"] by (simp add: dec_int_def nat_less_iff)

lemma c_str_dec_int: "0 \<le> n \<Longrightarrow> c_str (dec_int n @ [CHR 0x0A]) = dec_int n @ [CHR 0x0A]"
  by (auto simp: dec_int_def c_str_def takeWhile_eq_all_conv dest!: dec_digits simp: isdigit_def)

lemma alarm_of_show:
  assumes "0 \<le> n" "n < 2 ^ 63"
  shows "alarm_of_read (File_data (alarm_show n) None) = Inr n"
proof (cases "n = 0")
  case False
  let ?s = "dec (nat n) @ [CHR 0x0A]"
  have dec: "dec_int n = dec (nat n)" using assms by (simp add: dec_int_def)
  have "length (dec (nat n)) \<le> 19" using assms by (intro dec_length) (auto simp: nat_less_iff)
  moreover have "strtoll10 ?s = (n, [CHR 0x0A], False)"
    using strtoll10_dec_rest [of "nat n" "[CHR 0x0A]"] assms by (simp add: nat_less_iff isdigit_def)
  moreover have "dropWhile isspace ?s = ?s" by (rule dec_no_lead_space)
  ultimately show ?thesis
    using False assms c_str_dec_int [OF assms(1)]
    by (simp add: alarm_of_read_def alarm_show_def rtc_wake_parse_def dec isspace_def)
qed (simp add: alarm_of_read_def alarm_show_def rtc_wake_parse_def c_str_def)

definition rtc_device :: "string \<Rightarrow> string" where
  "rtc_device m = ''/sys/class/rtc'' @ ''/'' @ m"

definition rtc_alarm :: "string \<Rightarrow> string" where
  "rtc_alarm m = rtc_device m @ ''/wakealarm''"

text \<open>One device of the directory matches the profile, its alarm file holds what was last written,
  and its clock is within 5 seconds of the system's.\<close>

definition rtc_working :: "env \<Rightarrow> rtc_profile \<Rightarrow> string list \<Rightarrow> string \<Rightarrow> int \<Rightarrow> bool" where
  "rtc_working E p names n base \<longleftrightarrow>
     is_rtc_name n \<and> n \<in> set names \<and> distinct names \<and> length n < 256 \<and>
     (\<forall>h. e_listdir E h ''/sys/class/rtc'' = Inr names \<and>
        (\<forall>m \<in> set names. rtc_name_ok p (e_read E h (rtc_device m @ ''/name'')) \<longleftrightarrow> m = n) \<and>
        (\<forall>q. rtc_of_path p = Some q \<longrightarrow> rtc_path_ok q (e_read E h (rtc_device n @ ''/device/uevent''))) \<and>
        e_lstat E h (rtc_alarm n) = Inr True \<and>
        (\<forall>s. e_write E h (rtc_alarm n) s = Written (length s)) \<and>
        e_read E h (rtc_alarm n) = File_data (alarm_show (alarm_after (rtc_alarm n) base h)) None \<and>
        e_time E h \<noteq> -1 \<and>
        (\<exists>c. alarm_of_read (e_read E h (since_epoch_path (rtc_alarm n))) = Inr c \<and> 0 < c \<and>
           (\<forall>g. \<bar>c - e_time E g\<bar> \<le> 5)))"

lemma length_rtc_paths [simp]:
  "length (rtc_device m) = 15 + length m" "length (rtc_alarm m) = 25 + length m"
  "length (since_epoch_path (rtc_alarm m)) = 27 + length m"
  by (simp_all add: rtc_device_def rtc_alarm_def since_epoch_path_def)

lemma working_candidate:
  assumes "rtc_working E p names n base" "m \<in> set names"
  shows "wp (rtc_candidate E p (rtc_device m)) (\<lambda>r h'. r = (if m = n then Some (rtc_alarm n) else None)) h"
proof (cases "m = n")
  case True
  with assms show ?thesis
    by (cases "rtc_of_path p") (auto simp: rtc_working_def rtc_candidate_def calls wp_simps PATH_MAX_def rtc_alarm_def [symmetric])
next
  case False
  with assms show ?thesis by (auto simp: rtc_working_def rtc_candidate_def calls wp_simps)
qed

lemma working_rtc_scan:
  assumes w: "rtc_working E p names n base"
  shows "set ms \<subseteq> set names \<Longrightarrow>
    wp (rtc_scan E p PATH_MAX ''/sys/class/rtc'' found ms) (\<lambda>r h'. r = Inr (found @ map rtc_alarm (filter ((=) n) ms))) h"
proof (induction ms arbitrary: found h)
  case (Cons m ms)
  have short: "length (rtc_alarm n) < PATH_MAX" "is_rtc_name n" using w by (auto simp: rtc_working_def PATH_MAX_def)
  note dev = rtc_device_def [symmetric]
  show ?case
    using Cons.prems short
    by (auto simp: wp_simps dev simp del: append.simps intro!: wp_mono [OF working_candidate [OF w]] Cons.IH
        elim!: wp_mono [OF Cons.IH])
qed (simp add: wp_simps)

lemma filter_unique: "distinct xs \<Longrightarrow> x \<in> set xs \<Longrightarrow> filter ((=) x) xs = [x]"
  by (induction xs) (auto simp: filter_empty_conv)

lemma working_rtc_select:
  assumes w: "rtc_working E p names n base"
  shows "wp (rtc_select_at E ''/sys'' p PATH_MAX)
    (\<lambda>r h'. r = Inr (rtc_alarm n) \<and> alarm_after (rtc_alarm n) base h' = alarm_after (rtc_alarm n) base h) h"
proof -
  have one: "filter ((=) n) names = [n]" using w by (simp add: rtc_working_def filter_unique)
  have dir: "e_listdir E g ''/sys/class/rtc'' = Inr names" for g using w by (simp add: rtc_working_def)
  have max: "\<not> PATH_MAX \<le> length (''/sys'' @ ''/class/rtc'')" "PATH_MAX \<noteq> 0" by (simp_all add: PATH_MAX_def)
  have "wp (rtc_select_at E ''/sys'' p PATH_MAX) (\<lambda>r h'. r = Inr (rtc_alarm n)) h"
    unfolding rtc_select_at_def Let_def if_not_P [OF max(1)] if_not_P [OF max(2)]
    by (auto simp: wp_simps list_dir_def dir one intro!: wp_mono [OF working_rtc_scan [OF w subset_refl]])
  moreover have "wp (rtc_select_at E ''/sys'' p PATH_MAX) (\<lambda>r h'. alarm_after (rtc_alarm n) base h' = alarm_after (rtc_alarm n) base h) h"
    using rtc_select_evidence [of p E PATH_MAX, unfolded seg_def, rule_format, of h]
    by (rule wp_mono) auto
  ultimately show ?thesis by (rule wp_conj)
qed

lemma working_rtc_io:
  assumes "rtc_working E p names n base"
  shows "e_write E g (rtc_alarm n) s = Written (length s)"
    "e_read E g (rtc_alarm n) = File_data (alarm_show (alarm_after (rtc_alarm n) base g)) None"
    "e_time E g \<noteq> -1" "length (since_epoch_path (rtc_alarm n)) < PATH_MAX"
    "\<exists>c. alarm_of_read (e_read E g (since_epoch_path (rtc_alarm n))) = Inr c \<and> 0 < c \<and> (\<forall>f. \<bar>c - e_time E f\<bar> \<le> 5)"
  using assms by (auto simp: rtc_working_def PATH_MAX_def)

lemma working_read_alarm:
  assumes "rtc_working E p names n base" "0 \<le> alarm_after (rtc_alarm n) base g" "alarm_after (rtc_alarm n) base g < 2 ^ 63"
  shows "wp (read_alarm E (rtc_alarm n))
    (\<lambda>r h'. r = Inr (alarm_after (rtc_alarm n) base g) \<and> alarm_after (rtc_alarm n) base h' = alarm_after (rtc_alarm n) base g) g"
  using assms by (simp add: read_alarm_def read_file_def wp_simps working_rtc_io alarm_of_show)

lemma working_write_alarm:
  assumes "rtc_working E p names n base"
  shows "wp (write_wakealarm E (rtc_alarm n) s) (\<lambda>r h'. r = Inr () \<and> alarm_after (rtc_alarm n) base h' = fst (strtoll10 s)) g"
  using working_rtc_io(1) [OF assms] by (simp add: write_wakealarm_def write_file_def wp_simps)

lemma working_clock:
  assumes "rtc_working E p names n base"
  shows "wp (rtc_clock_agrees E (rtc_alarm n))
    (\<lambda>r h'. r = Inr () \<and> alarm_after (rtc_alarm n) base h' = alarm_after (rtc_alarm n) base g) g"
proof -
  obtain c where c: "alarm_of_read (e_read E g (since_epoch_path (rtc_alarm n))) = Inr c" "0 < c" "\<And>f. \<bar>c - e_time E f\<bar> \<le> 5"
    using working_rtc_io(5) [OF assms] by blast
  have "\<not> 5 < \<bar>c - e_time E f\<bar>" for f using c(3) [of f] by simp
  moreover have "alarm_after (rtc_alarm n) base (g @ [Read_file q d, Clock t]) = alarm_after (rtc_alarm n) base g" for q d t
    by simp
  ultimately show ?thesis
    using c working_rtc_io(3,4) [OF assms]
    by (simp add: rtc_clock_agrees_def read_alarm_def read_file_def clock_def wp_simps)
qed

lemma working_update:
  assumes w: "rtc_working E p names n base" and a: "0 \<le> alarm_after (rtc_alarm n) base g" "alarm_after (rtc_alarm n) base g < 2 ^ 63"
    and e: "0 \<le> epoch" "epoch < 2 ^ 63"
  shows "wp (update_alarm E p epoch) (\<lambda>r h'. r = Inr () \<and> alarm_after (rtc_alarm n) base h' = epoch) g"
proof -
  have zero: "fst (strtoll10 ''0'') = 0" by code_simp
  have set: "fst (strtoll10 (dec_int epoch)) = epoch" using e by (simp add: strtoll10_dec_int)
  show ?thesis
    unfolding update_alarm_def
    using a e
    by (auto simp: wp_simps zero set intro!: wp_mono [OF working_rtc_select [OF w]] wp_mono [OF working_clock [OF w]]
        wp_mono [OF working_read_alarm [OF w]] wp_mono [OF working_write_alarm [OF w]])
qed

text \<open>
  On a machine with one matching, working RTC, an alarm time that is in the future, aligned and
  representable is set successfully, and reading the alarm afterwards returns it, whatever alarm was
  pending before; clearing it succeeds too, and reading then reports no alarm.
\<close>

theorem rtc_set_then_read:
  assumes w: "rtc_working E p names n base" and a: "0 \<le> alarm_after (rtc_alarm n) base h" "alarm_after (rtc_alarm n) base h < 2 ^ 63"
    and e: "epoch < 2 ^ 63" "\<forall>g. e_time E g + 60 < epoch" "0 < resolution_seconds p" "epoch mod int (resolution_seconds p) = 0"
  shows "fst (run_state (do { r \<leftarrow> rtc_wake_set E p epoch; a \<leftarrow> rtc_wake_read E p;
                              r' \<leftarrow> rtc_wake_clear E p; a' \<leftarrow> rtc_wake_read E p; ret (r, a, r', a') }) h)
         = (Inr (), Inr epoch, Inr (), Inr 0)"
proof -
  have pos: "0 < epoch" using working_rtc_io(5) [OF w, of h] e(2) by (smt (verit))
  have valid: "rtc_validate_epoch p epoch (e_time E g) = None" for g
    using e working_rtc_io(3) [OF w, of g] by (simp add: rtc_validate_epoch_def) (smt (verit))
  have read: "wp (rtc_wake_read E p)
      (\<lambda>r h'. r = Inr (alarm_after (rtc_alarm n) base g) \<and> alarm_after (rtc_alarm n) base h' = alarm_after (rtc_alarm n) base g) g"
    if "0 \<le> alarm_after (rtc_alarm n) base g" "alarm_after (rtc_alarm n) base g < 2 ^ 63" for g
    unfolding rtc_wake_read_def using that
    by (auto simp: wp_simps intro!: wp_mono [OF working_rtc_select [OF w]] wp_mono [OF working_read_alarm [OF w]])
  have set: "wp (rtc_wake_set E p epoch) (\<lambda>r h'. r = Inr () \<and> alarm_after (rtc_alarm n) base h' = epoch) h"
    unfolding rtc_wake_set_def using a pos e(1)
    by (auto simp: wp_simps clock_def valid intro!: working_update [OF w])
  have "wp (do { r \<leftarrow> rtc_wake_set E p epoch; a \<leftarrow> rtc_wake_read E p;
                 r' \<leftarrow> rtc_wake_clear E p; a' \<leftarrow> rtc_wake_read E p; ret (r, a, r', a') })
      (\<lambda>r h'. r = (Inr (), Inr epoch, Inr (), Inr 0)) h"
    unfolding rtc_wake_clear_def using pos e(1)
    by (auto simp: wp_simps intro!: wp_mono [OF set] wp_mono [OF read] wp_mono [OF working_update [OF w]])
  then show ?thesis by (simp add: wp_def case_prod_beta)
qed

definition example_rtc :: rtc_profile where
  "example_rtc = rtc_cmos ''dxp4800plus'' ''DXP4800 Plus''"

definition example_rtc_env :: env where
  "example_rtc_env = null_env\<lparr>
     e_listdir := (\<lambda>_ _. Inr [''rtc0'']), e_lstat := (\<lambda>_ _. Inr True), e_time := (\<lambda>_. 1700000000),
     e_write := (\<lambda>_ _ s. Written (length s)),
     e_read := (\<lambda>h q. if q = rtc_device ''rtc0'' @ ''/name'' then File_data ''rtc_cmos rtc_cmos'' None
                      else if q = since_epoch_path (rtc_alarm ''rtc0'') then File_data ''1700000002'' None
                      else File_data (alarm_show (alarm_after (rtc_alarm ''rtc0'') 0 h)) None)\<rparr>"

lemma example_rtc_working: "rtc_working example_rtc_env example_rtc [''rtc0''] ''rtc0'' 0"
proof -
  have "rtc_name_ok example_rtc (File_data ''rtc_cmos rtc_cmos'' None)" by code_simp
  moreover have "rtc_of_path example_rtc = None" by (simp add: example_rtc_def rtc_cmos_def)
  moreover have "alarm_of_read (File_data ''1700000002'' None) = Inr 1700000002" by code_simp
  moreover have "is_rtc_name ''rtc0''" by code_simp
  moreover have "rtc_alarm ''rtc0'' \<noteq> rtc_device ''rtc0'' @ ''/name''" "rtc_alarm ''rtc0'' \<noteq> since_epoch_path (rtc_alarm ''rtc0'')"
      "since_epoch_path (rtc_alarm ''rtc0'') \<noteq> rtc_device ''rtc0'' @ ''/name''"
    by code_simp+
  ultimately show ?thesis unfolding rtc_working_def by (simp add: example_rtc_env_def)
qed

theorem rtc_set_then_read_witness:
  "fst (run_state (do { r \<leftarrow> rtc_wake_set example_rtc_env example_rtc 1800000000; a \<leftarrow> rtc_wake_read example_rtc_env example_rtc;
                        r' \<leftarrow> rtc_wake_clear example_rtc_env example_rtc; a' \<leftarrow> rtc_wake_read example_rtc_env example_rtc;
                        ret (r, a, r', a') }) [])
   = (Inr (), Inr 1800000000, Inr (), Inr 0)"
  by (rule rtc_set_then_read [OF example_rtc_working])
    (simp_all add: alarm_after_def example_rtc_env_def example_rtc_def rtc_cmos_def)

theorem rtc_wake_set_guarded_witness:
  "\<exists>es. snd (run_state (rtc_wake_set example_rtc_env example_rtc 1800000000) []) = Clock 1700000000 # es \<and>
     alarm_guarded example_rtc 1800000000 (Inr ()) es"
proof -
  let ?m = "rtc_wake_set example_rtc_env example_rtc 1800000000"
  have r: "fst (run_state ?m []) = Inr ()" "hd (snd (run_state ?m [])) = Clock 1700000000" by code_simp+
  obtain h' where h': "run_state ?m [] = (Inr (), h')" using r(1) by (metis prod.collapse)
  have "rtc_validate_epoch example_rtc 1800000000 1700000000 = None" by code_simp
  with rtc_wake_set_guarded [OF h'] r(2) h' show ?thesis by auto
qed

end
