(* ===== verification/Wol_Interface.thy ===== *)
theory Wol_Interface
  imports Wake_On_Lan Wake_Profiles
begin

text \<open>
  Wake-on-LAN for one named interface (\<^verbatim>\<open>network/wol_interface.c\<close>): the physical identity of an
  interface (its PCI slot or the device-tree path its model documents), and the query or change,
  which checks that identity and index stay the same around the write.
\<close>

section \<open>Identity of an interface\<close>

text \<open>What the lines of \<^verbatim>\<open>device/uevent\<close> have shown so far.\<close>

record uevent_state =
  ue_pci_class :: u64
  ue_slot :: string
  ue_of_path :: string
  ue_dt_compatible :: bool

definition uevent_empty :: uevent_state where
  "uevent_empty = \<lparr>ue_pci_class = 0, ue_slot = [], ue_of_path = [], ue_dt_compatible = False\<rparr>"

definition pci_class_of :: "string \<Rightarrow> u64" where
  "pci_class_of s =
     (let (pci_class, rest, range) = strtoul16 s in if range \<or> rest = s \<or> rest \<noteq> [] then 0 else pci_class)"

text \<open>The text after the first \<^verbatim>\<open>=\<close>.\<close>

definition after_equal :: "string \<Rightarrow> string option" where
  "after_equal l = (case dropWhile (\<lambda>c. c \<noteq> CHR ''='') l of [] \<Rightarrow> None | _ # v \<Rightarrow> Some v)"

definition interface_line :: "wol_profile \<Rightarrow> uevent_state \<Rightarrow> string \<Rightarrow> uevent_state" where
  "interface_line p u l =
     (let u1 = (if starts_with ''PCI_CLASS='' l then u\<lparr>ue_pci_class := pci_class_of (drop 10 l)\<rparr> else u);
          u2 = (if starts_with ''PCI_SLOT_NAME='' l \<and> length (drop 14 l) < 80 then u1\<lparr>ue_slot := drop 14 l\<rparr> else u1);
          u3 = (if starts_with ''OF_FULLNAME='' l \<and> length (drop 12 l) < 256 then u2\<lparr>ue_of_path := drop 12 l\<rparr> else u2)
      in if starts_with ''OF_COMPATIBLE_'' l \<and> ethernet_compatible p \<noteq> None \<and> after_equal l = ethernet_compatible p
         then u3\<lparr>ue_dt_compatible := True\<rparr> else u3)"

definition identity_of_uevent :: "wol_profile \<Rightarrow> file_read \<Rightarrow> string option" where
  "identity_of_uevent p r =
     (case r of Open_failed _ \<Rightarrow> None
      | File_data s e \<Rightarrow>
          (let u = foldl (interface_line p) uevent_empty (map (\<lambda>l. cut_eol (c_str l)) (fgets_lines 511 (e \<noteq> None) s)) in
           if drop_bit 8 (ue_pci_class u) = 0x0200 \<and> ue_slot u \<noteq> [] then Some (''pci:'' @ ue_slot u)
           else if ethernet_of_path p \<noteq> None \<and> ue_dt_compatible u \<and> ethernet_of_path p = Some (ue_of_path u)
           then Some (''dt:'' @ ue_of_path u)
           else None))"

text \<open>\<^verbatim>\<open>fscanf(f, "%u", &type) != 1\<close> leaves 0.\<close>

definition link_type :: "file_read \<Rightarrow> u32" where
  "link_type r =
     (case r of Open_failed _ \<Rightarrow> 0
      | File_data s _ \<Rightarrow> (let (v, rest, _) = strtoul10 s in if rest = s then 0 else ucast v))"

definition valid_interface_name :: "string \<Rightarrow> bool" where
  "valid_interface_name n \<longleftrightarrow>
     n \<noteq> [] \<and> length n < IFNAMSIZ \<and>
     list_all (\<lambda>c. isalnum c \<or> c = CHR ''_'' \<or> c = CHR ''-'' \<or> c = CHR ''.'') n \<and> n \<noteq> ''.'' \<and> n \<noteq> ''..''"

definition net_path :: "string \<Rightarrow> string \<Rightarrow> string \<Rightarrow> string" where
  "net_path root n attribute = root @ ''/class/net/'' @ n @ attribute"

definition wol_interface_identity_at :: "env \<Rightarrow> string \<Rightarrow> wol_profile \<Rightarrow> string \<Rightarrow> nat \<Rightarrow> (errno + string) io" where
  "wol_interface_identity_at E root p n limit =
     (if \<not> valid_interface_name n \<or> limit = 0 then fail EINVAL
      else if length (net_path root n ''/type'') \<ge> 1024 then fail ENAMETOOLONG
      else do {
        t \<leftarrow> read_file E (net_path root n ''/type'');
        (if link_type t \<noteq> 1 then fail ENODEV
         else do {
           wireless \<leftarrow> access E (take 1023 (net_path root n ''/wireless'')) F_OK;
           (if wireless then fail ENODEV
            else do {
              u \<leftarrow> read_file E (take 1023 (net_path root n ''/device/uevent''));
              (case identity_of_uevent p u of None \<Rightarrow> fail ENODEV
               | Some i \<Rightarrow> if length i \<ge> limit then fail ENAMETOOLONG else ok i) }) }) })"

section \<open>Query and change\<close>

text \<open>The identity and the index are still those seen first.\<close>

definition recheck_interface :: "env \<Rightarrow> wol_profile \<Rightarrow> string \<Rightarrow> string \<Rightarrow> nat \<Rightarrow> (errno + unit) io" where
  "recheck_interface E p n before index =
     bindE (wol_interface_identity_at E ''/sys'' p n 256) (\<lambda>after.
       if before \<noteq> after then fail ESTALE
       else do { i \<leftarrow> if_nametoindex E n; (if i \<noteq> index then fail ESTALE else ok ()) })"

definition write_interface ::
    "env \<Rightarrow> wol_profile \<Rightarrow> string \<Rightarrow> string \<Rightarrow> nat \<Rightarrow> nat \<Rightarrow> u32 \<Rightarrow> (errno + u32) io" where
  "write_interface E p n before index fd desired =
     bindE (recheck_interface E p n before index) (\<lambda>_.
     bindE (set_interface E fd desired n) (\<lambda>_. do {
       g \<leftarrow> get_wol E fd n;
       (case g of Inl e \<Rightarrow> fail e
        | Inr (supported, opts) \<Rightarrow>
            if supported AND WAKE_MAGIC = 0 \<or> opts \<noteq> desired then fail EIO
            else bindE (recheck_interface E p n before index) (\<lambda>_. ok opts)) }))"

definition wol_interface :: "env \<Rightarrow> wol_profile \<Rightarrow> string \<Rightarrow> bool \<Rightarrow> wol_policy \<Rightarrow> (errno + wol_policy) io" where
  "wol_interface E p n change policy =
     (if change \<and> policy \<noteq> WOL_ON \<and> policy \<noteq> WOL_OFF then fail EINVAL
      else bindE (wol_interface_identity_at E ''/sys'' p n 256) (\<lambda>before. do {
        index \<leftarrow> if_nametoindex E n;
        (if index = 0 then fail ENODEV
         else bindE (open_socket E) (\<lambda>fd. do {
           r \<leftarrow> bindE (query_interface E fd n) (\<lambda>opts.
                  if change then write_interface E p n before index fd (if policy = WOL_ON then WAKE_MAGIC else 0)
                  else ok opts);
           close_fd fd;
           ret (map_sum id opts_policy r) })) }))"

section \<open>What is written, and on what evidence\<close>

text \<open>The history shows the identity of an interface: a wired link, and its device.\<close>

definition interface_evidence :: "wol_profile \<Rightarrow> string \<Rightarrow> string \<Rightarrow> trace \<Rightarrow> bool" where
  "interface_evidence p n identity es \<longleftrightarrow>
     (\<exists>t u. Read_file (net_path ''/sys'' n ''/type'') t \<in> set es \<and> link_type t = 1 \<and>
        Access (net_path ''/sys'' n ''/wireless'') F_OK False \<in> set es \<and>
        Read_file (net_path ''/sys'' n ''/device/uevent'') u \<in> set es \<and> identity_of_uevent p u = Some identity)"

lemma no_wol_write_access [simp]: "no_wol_write (Access q m b)"
  by (simp add: no_wol_write_def)

lemma interface_evidence_append [simp]:
  "interface_evidence p n i es \<Longrightarrow> interface_evidence p n i (es @ fs)"
  "interface_evidence p n i fs \<Longrightarrow> interface_evidence p n i (es @ fs)"
  unfolding interface_evidence_def by fastforce+

lemma identity_evidence:
  "seg (\<lambda>r es. list_all no_wol_write es \<and> (\<forall>i. r = Inr i \<longrightarrow> interface_evidence p n i es \<and> valid_interface_name n))
     (wol_interface_identity_at E ''/sys'' p n limit)"
proof (cases "valid_interface_name n")
  case True
  then have "take 1023 (net_path ''/sys'' n ''/wireless'') = net_path ''/sys'' n ''/wireless''"
      "take 1023 (net_path ''/sys'' n ''/device/uevent'') = net_path ''/sys'' n ''/device/uevent''"
    by (auto simp: valid_interface_name_def net_path_def IFNAMSIZ_def)
  then show ?thesis
    unfolding wol_interface_identity_at_def
    by (intro seg_if seg_bind [OF seg_read_file] seg_bind [OF seg_access] seg_case_option seg_return)
      (auto simp: interface_evidence_def)
qed (simp add: wol_interface_identity_at_def seg_return)

lemma recheck_evidence:
  "seg (\<lambda>r es. list_all no_wol_write es \<and> (r = Inr () \<longrightarrow> interface_evidence p n i es \<and> If_index n index \<in> set es))
     (recheck_interface E p n i index)"
  unfolding recheck_interface_def
  by (intro seg_bindE [OF identity_evidence] seg_if seg_bind [OF seg_if_nametoindex] seg_return) auto

text \<open>The change: nothing is written, or the interface was rechecked, then written once, and then only
  queried and rechecked.\<close>

definition change_events ::
    "wol_profile \<Rightarrow> string \<Rightarrow> string \<Rightarrow> nat \<Rightarrow> nat \<Rightarrow> u32 \<Rightarrow> errno + u32 \<Rightarrow> trace \<Rightarrow> bool" where
  "change_events p n i index fd v r es \<longleftrightarrow>
     (list_all no_wol_write es \<and> (\<exists>e. r = Inl e)) \<or>
     (\<exists>pre answer post. es = pre @ Set_wol fd n v answer # post \<and>
        list_all no_wol_write pre \<and> list_all no_wol_write post \<and>
        interface_evidence p n i pre \<and> If_index n index \<in> set pre \<and>
        (\<forall>opts. r = Inr opts \<longrightarrow> opts = v \<and> answer = None \<and>
           (\<exists>supported. Get_wol fd n (Inr (supported, v)) \<in> set post) \<and>
           interface_evidence p n i post \<and> If_index n index \<in> set post))"

lemma change_events_write:
  "list_all no_wol_write pre \<Longrightarrow> list_all no_wol_write post \<Longrightarrow> interface_evidence p n i pre \<Longrightarrow> If_index n index \<in> set pre \<Longrightarrow>
   (\<And>opts. r = Inr opts \<Longrightarrow> opts = v \<and> answer = None \<and> (\<exists>supported. Get_wol fd n (Inr (supported, v)) \<in> set post) \<and>
      interface_evidence p n i post \<and> If_index n index \<in> set post) \<Longrightarrow>
   change_events p n i index fd v r (pre @ Set_wol fd n v answer # post)"
  unfolding change_events_def by (intro disjI2 exI [of _ pre] exI [of _ answer] exI [of _ post]) blast

lemma seg_set_interface:
  "seg (\<lambda>r es. \<exists>a. es = [Set_wol fd n v a] \<and> (r = Inr () \<longrightarrow> a = None)) (set_interface E fd v n)"
  unfolding set_interface_def by (intro seg_bind [OF seg_set_wol] seg_case_option seg_return) auto

lemma write_evidence: "seg (change_events p n i index fd v) (write_interface E p n i index fd v)"
proof -
  have after: "seg (\<lambda>r es. list_all no_wol_write es \<and>
      (\<forall>opts. r = Inr opts \<longrightarrow> opts = v \<and> (\<exists>supported. Get_wol fd n (Inr (supported, v)) \<in> set es) \<and>
         interface_evidence p n i es \<and> If_index n index \<in> set es))
      (do { g \<leftarrow> get_wol E fd n;
       (case g of Inl e \<Rightarrow> fail e
        | Inr (supported, opts) \<Rightarrow>
            if supported AND WAKE_MAGIC = 0 \<or> opts \<noteq> v then fail EIO
            else bindE (recheck_interface E p n i index) (\<lambda>_. ok opts)) })"
    by (intro seg_bind [OF seg_get_wol] seg_case_sum seg_case_prod seg_if seg_bindE [OF recheck_evidence] seg_return)
      (auto intro: interface_evidence_append(2) [of _ _ _ _ "[_]", simplified])
  show ?thesis
    unfolding write_interface_def
  proof (intro seg_bindE [OF recheck_evidence] seg_bindE [OF seg_set_interface] seg_mono [OF after])
    fix u es w fs gs and r :: "errno + u32"
    assume "list_all no_wol_write es \<and> (Inr u = Inr () \<longrightarrow> interface_evidence p n i es \<and> If_index n index \<in> set es)"
      "\<exists>a. fs = [Set_wol fd n v a] \<and> (Inr w = Inr () \<longrightarrow> a = None)"
      "list_all no_wol_write gs \<and> (\<forall>opts. r = Inr opts \<longrightarrow> opts = v \<and>
         (\<exists>supported. Get_wol fd n (Inr (supported, v)) \<in> set gs) \<and> interface_evidence p n i gs \<and> If_index n index \<in> set gs)"
    then show "change_events p n i index fd v r (es @ fs @ gs)"
      by (auto intro!: change_events_write)
  next
    fix es u fs and e :: errno
    assume "list_all no_wol_write es \<and> (Inr u = Inr () \<longrightarrow> interface_evidence p n i es \<and> If_index n index \<in> set es)"
      "\<exists>a. fs = [Set_wol fd n v a] \<and> (Inl e = Inr () \<longrightarrow> a = None)"
    then show "change_events p n i index fd v (Inl e) (es @ fs)"
      by (auto intro!: change_events_write)
  qed (simp add: change_events_def)
qed

definition interface_guarded ::
    "wol_profile \<Rightarrow> string \<Rightarrow> bool \<Rightarrow> wol_policy \<Rightarrow> u32 \<Rightarrow> errno + wol_policy \<Rightarrow> trace \<Rightarrow> bool" where
  "interface_guarded p n change policy v r es \<longleftrightarrow>
     (list_all no_wol_write es \<and> (change \<longrightarrow> (\<exists>e. r = Inl e))) \<or>
     (change \<and> valid_interface_name n \<and>
      (\<exists>seen again i index fd answer post.
         es = seen @ again @ Set_wol fd n v answer # post \<and>
         list_all no_wol_write seen \<and> list_all no_wol_write again \<and> list_all no_wol_write post \<and>
         index \<noteq> 0 \<and> supports_magic fd n seen \<and>
         interface_evidence p n i seen \<and> If_index n index \<in> set seen \<and>
         interface_evidence p n i again \<and> If_index n index \<in> set again \<and>
         (\<forall>q. r = Inr q \<longrightarrow> q = policy \<and> answer = None \<and>
            (\<exists>supported. Get_wol fd n (Inr (supported, v)) \<in> set post) \<and>
            interface_evidence p n i post \<and> If_index n index \<in> set post)))"

lemma interface_guarded_change:
  assumes "change_events p n i index fd v r es" "valid_interface_name n" "change"
    and "list_all no_wol_write a" "list_all no_wol_write b" "opts_policy v = policy"
    and "index \<noteq> 0" "supports_magic fd n a" "interface_evidence p n i a" "If_index n index \<in> set a"
  shows "interface_guarded p n change policy v (map_sum id opts_policy r) (a @ es @ b)"
  using assms(1) unfolding change_events_def
proof (elim disjE conjE exE)
  fix e assume "list_all no_wol_write es" "r = Inl e"
  with assms show ?thesis by (simp add: interface_guarded_def)
next
  fix pre answer post
  assume es: "es = pre @ Set_wol fd n v answer # post" "list_all no_wol_write pre" "list_all no_wol_write post"
    "interface_evidence p n i pre" "If_index n index \<in> set pre"
    and r: "\<forall>opts. r = Inr opts \<longrightarrow> opts = v \<and> answer = None \<and>
       (\<exists>supported. Get_wol fd n (Inr (supported, v)) \<in> set post) \<and>
       interface_evidence p n i post \<and> If_index n index \<in> set post"
  have "q = policy \<and> answer = None \<and> (\<exists>supported. Get_wol fd n (Inr (supported, v)) \<in> set (post @ b)) \<and>
      interface_evidence p n i (post @ b) \<and> If_index n index \<in> set (post @ b)" if "map_sum id opts_policy r = Inr q" for q
    using that r assms(6) by (cases r) auto
  with es assms show ?thesis
    unfolding interface_guarded_def
    by (intro disjI2 conjI exI [of _ a] exI [of _ pre] exI [of _ i] exI [of _ index] exI [of _ fd] exI [of _ answer]
        exI [of _ "post @ b"]) auto
qed

lemma wol_interface_evidence:
  "seg (interface_guarded p n change policy (if policy = WOL_ON then WAKE_MAGIC else 0)) (wol_interface E p n change policy)"
proof -
  let ?v = "if policy = WOL_ON then WAKE_MAGIC else 0"
  have policy: "opts_policy ?v = policy" if "policy = WOL_ON \<or> policy = WOL_OFF"
    using that by (auto simp: opts_policy_def WAKE_MAGIC_def)
  let ?P = "\<lambda>i index fd r es. \<exists>a body. es = a @ body \<and> list_all no_wol_write a \<and>
      (list_all no_wol_write body \<and> (change \<longrightarrow> (\<exists>e. r = Inl e)) \<or>
       change \<and> supports_magic fd n a \<and> change_events p n i index fd ?v r body)"
  have body: "seg (?P i index fd)
      (bindE (query_interface E fd n) (\<lambda>opts. if change then write_interface E p n i index fd ?v else ok opts))"
    for i index fd
  proof (rule seg_bindE [OF query_evidence])
    fix opts es
    assume es: "list_all no_wol_write es \<and>
      (\<forall>o'. Inr opts = Inr o' \<longrightarrow> supports_magic fd n es \<and> reported (opts_policy o') n es)"
    show "seg (\<lambda>r' es'. ?P i index fd r' (es @ es')) (if change then write_interface E p n i index fd ?v else ok opts)"
    proof (intro seg_if seg_mono [OF write_evidence] seg_return)
      fix r fs assume "change" "change_events p n i index fd ?v r fs"
      with es show "?P i index fd r (es @ fs)" by (intro exI [of _ es] exI [of _ fs]) simp
    next
      assume "\<not> change"
      with es show "?P i index fd (Inr opts) (es @ [])" by (intro exI [of _ es] exI [of _ "[]"]) simp
    qed
  next
    fix es and e :: errno
    assume "list_all no_wol_write es \<and> (\<forall>o'. Inl e = Inr o' \<longrightarrow> supports_magic fd n es \<and> reported (opts_policy o') n es)"
    then show "?P i index fd (Inl e) es" by (intro exI [of _ es] exI [of _ "[]"]) simp
  qed
  show ?thesis
    unfolding wol_interface_def
  proof (intro seg_if seg_bindE [OF identity_evidence] seg_bind [OF seg_if_nametoindex] seg_bindE [OF seg_open_socket]
      seg_bind [OF body] seg_bind [OF seg_close_fd] seg_return)
    fix i es index fs fd gs u js and q :: "errno + u32" and ks
    assume valid: "\<not> (change \<and> policy \<noteq> WOL_ON \<and> policy \<noteq> WOL_OFF)"
      and id: "list_all no_wol_write es \<and> (\<forall>j. Inr i = Inr j \<longrightarrow> interface_evidence p n j es \<and> valid_interface_name n)"
      and pre: "fs = [If_index n index]" "index \<noteq> 0" "gs = [Open_socket (Inr fd)]" "?P i index fd q js" "ks = [Close_fd fd]"
    then obtain a b where js: "js = a @ b" "list_all no_wol_write a"
      and b: "list_all no_wol_write b \<and> (change \<longrightarrow> (\<exists>e. q = Inl e)) \<or>
        change \<and> supports_magic fd n a \<and> change_events p n i index fd ?v q b" by blast
    show "interface_guarded p n change policy ?v (map_sum id opts_policy q) (es @ fs @ gs @ js @ ks @ [])"
    proof (cases "change \<and> supports_magic fd n a \<and> change_events p n i index fd ?v q b")
      case True
      have "interface_guarded p n change policy ?v (map_sum id opts_policy q)
          ((es @ fs @ gs @ a) @ b @ [Close_fd fd])"
        by (rule interface_guarded_change [of p n i index fd])
          (use True valid id pre js policy in \<open>auto simp: supports_magic_def\<close>)
      then show ?thesis by (simp add: js pre)
    next
      case False
      with b id pre js show ?thesis by (auto simp: interface_guarded_def)
    qed
  qed (auto simp: interface_guarded_def)
qed

text \<open>
  \<^bold>\<open>C40.\<close>  Whatever the kernel answers, the Wake-on-LAN call for one named interface writes at most once, and
  only when a change was asked for, the name is valid, the interface was read to be a wired device
  with the PCI slot or device-tree path its model allows, it supports the magic packet, and identity
  and index were read again, unchanged, right before the write.  If a change succeeds, the write was
  accepted, exactly the requested options were read back, and identity and index were unchanged
  afterwards.  A query writes nothing.
\<close>

theorem wol_interface_guarded:
  assumes "run_state (wol_interface E p n change policy) h = (r, h')"
  shows "\<exists>es. h' = h @ es \<and>
    interface_guarded p n change policy (if policy = WOL_ON then WAKE_MAGIC else 0) r es"
  by (rule segD [OF wol_interface_evidence assms])

section \<open>On a working interface\<close>

text \<open>A wired interface with a stable identity and index, which supports the magic packet and reports
  the options last written.\<close>

definition interface_working :: "env \<Rightarrow> wol_profile \<Rightarrow> string \<Rightarrow> (string \<Rightarrow> u32) \<Rightarrow> bool" where
  "interface_working E p n base \<longleftrightarrow>
     valid_interface_name n \<and>
     (\<exists>i index. length i < 256 \<and> index \<noteq> 0 \<and>
        (\<forall>h. link_type (e_read E h (net_path ''/sys'' n ''/type'')) = 1 \<and>
           \<not> e_access E h (net_path ''/sys'' n ''/wireless'') F_OK \<and>
           identity_of_uevent p (e_read E h (net_path ''/sys'' n ''/device/uevent'')) = Some i \<and>
           e_ifindex E h n = index)) \<and>
     (\<forall>h. \<exists>fd. e_socket E h = Inr fd) \<and>
     (\<forall>h fd v. (\<exists>supported. supported AND WAKE_MAGIC \<noteq> 0 \<and> e_get_wol E h fd n = Inr (supported, wol_opts base h n)) \<and>
        e_set_wol E h fd n v = None)"

lemma no_write_keeps:
  "seg (\<lambda>r es. list_all no_wol_write es \<and> Q r es) m \<Longrightarrow> wp m (\<lambda>r h'. keeps_opts base h h') h"
  unfolding seg_def by (drule spec [of _ h], erule wp_mono) auto

lemma working_identity:
  assumes "interface_working E p n base"
  obtains i index where "index \<noteq> 0" "\<And>h. e_ifindex E h n = index"
    "\<And>h. wp (wol_interface_identity_at E ''/sys'' p n 256) (\<lambda>r h'. r = Inr i \<and> keeps_opts base h h') h"
proof -
  obtain i index where i: "length i < 256" "index \<noteq> 0" "valid_interface_name n"
    "\<And>h. link_type (e_read E h (net_path ''/sys'' n ''/type'')) = 1" "\<And>h. \<not> e_access E h (net_path ''/sys'' n ''/wireless'') F_OK"
    "\<And>h. identity_of_uevent p (e_read E h (net_path ''/sys'' n ''/device/uevent'')) = Some i" "\<And>h. e_ifindex E h n = index"
    using assms unfolding interface_working_def by metis
  have paths: "length (net_path ''/sys'' n ''/type'') < 1024"
      "take 1023 (net_path ''/sys'' n ''/wireless'') = net_path ''/sys'' n ''/wireless''"
      "take 1023 (net_path ''/sys'' n ''/device/uevent'') = net_path ''/sys'' n ''/device/uevent''"
    using i(3) by (auto simp: valid_interface_name_def net_path_def IFNAMSIZ_def)
  have "wp (wol_interface_identity_at E ''/sys'' p n 256) (\<lambda>r h'. r = Inr i) h" for h
    using i paths by (simp add: wol_interface_identity_at_def read_file_def access_def wp_simps)
  with i show thesis
    by (intro that [of index i]) (auto intro: wp_conj no_write_keeps [OF identity_evidence])
qed

text \<open>
  On a working interface, asking for a policy by name succeeds with that policy, and querying
  afterwards returns it.
\<close>

theorem wol_interface_set_then_read:
  assumes w: "interface_working E p n base" and policy: "policy = WOL_ON \<or> policy = WOL_OFF"
  shows "fst (run_state (do { r \<leftarrow> wol_interface E p n True policy; q \<leftarrow> wol_interface E p n False WOL_UNKNOWN; ret (r, q) }) h)
         = (Inr policy, Inr policy)"
proof -
  let ?v = "if policy = WOL_ON then WAKE_MAGIC else 0"
  have v: "opts_policy ?v = policy" using policy by (auto simp: opts_policy_def WAKE_MAGIC_def)
  obtain index i where id: "index \<noteq> 0" "\<And>h. e_ifindex E h n = index"
    "\<And>h. wp (wol_interface_identity_at E ''/sys'' p n 256) (\<lambda>r h'. r = Inr i \<and> keeps_opts base h h') h"
    by (rule working_identity [OF w]) (rule that)
  obtain fd where fd: "\<And>g. e_socket E g = Inr (fd g)" using w unfolding interface_working_def by metis
  have query: "wp (query_interface E fd n) (\<lambda>r h'. r = Inr (wol_opts base g n) \<and> keeps_opts base g h') g" for fd g
  proof -
    obtain s where "s AND WAKE_MAGIC \<noteq> 0" "e_get_wol E g fd n = Inr (s, wol_opts base g n)"
      using w unfolding interface_working_def by blast
    then show ?thesis by (simp add: query_interface_def get_wol_def wp_simps)
  qed
  have recheck: "wp (recheck_interface E p n i index) (\<lambda>r h'. r = Inr () \<and> keeps_opts base g h') g" for g
    unfolding recheck_interface_def
    by (auto simp: wp_simps if_nametoindex_def id(2) intro!: wp_mono [OF id(3)])
  have set: "wp (set_interface E fd u n) (\<lambda>r h'. r = Inr () \<and> wol_opts base h' = (wol_opts base g)(n := u)) g" for fd u g
    using w by (simp add: interface_working_def set_interface_def set_wol_def wp_simps)
  have get: "wp (get_wol E fd n) (\<lambda>r h'. (\<exists>s. s AND WAKE_MAGIC \<noteq> 0 \<and> r = Inr (s, wol_opts base g n)) \<and> keeps_opts base g h') g" for fd g
    using w by (simp add: interface_working_def get_wol_def wp_simps)
  have written: "wp (write_interface E p n i index fd u) (\<lambda>r h'. r = Inr u \<and> wol_opts base h' n = u) g" for fd u g
    unfolding write_interface_def
    by (auto simp: wp_simps intro!: wp_mono [OF recheck] wp_mono [OF set] wp_mono [OF get])
  have change: "wp (wol_interface E p n True policy) (\<lambda>r h'. r = Inr policy \<and> wol_opts base h' n = ?v) g" for g
    unfolding wol_interface_def using policy v
    by (auto simp: wp_simps if_nametoindex_def open_socket_def close_fd_def id(1,2) fd
        intro!: wp_mono [OF id(3)] wp_mono [OF query] wp_mono [OF written])
  have read: "wp (wol_interface E p n False WOL_UNKNOWN) (\<lambda>r h'. r = Inr (opts_policy (wol_opts base g n))) g" for g
    unfolding wol_interface_def
    by (auto simp: wp_simps if_nametoindex_def open_socket_def close_fd_def id(1,2) fd
        intro!: wp_mono [OF id(3)] wp_mono [OF query])
  have "wp (do { r \<leftarrow> wol_interface E p n True policy; q \<leftarrow> wol_interface E p n False WOL_UNKNOWN; ret (r, q) })
      (\<lambda>r h'. r = (Inr policy, Inr policy)) h"
    using v by (auto simp: wp_simps intro!: wp_mono [OF change] wp_mono [OF read])
  then show ?thesis by (simp add: wp_def case_prod_beta)
qed

definition example_interface_env :: env where
  "example_interface_env = null_env\<lparr>
     e_read := (\<lambda>_ q. if q = ''/sys/class/net/eth0/type'' then File_data (''1'' @ [CHR 0x0A]) None
                      else File_data (''PCI_CLASS=20000'' @ [CHR 0x0A] @ ''PCI_SLOT_NAME=0000:01:00.0'' @ [CHR 0x0A]) None),
     e_ifindex := (\<lambda>_ _. 2), e_socket := (\<lambda>_. Inr 5),
     e_get_wol := (\<lambda>h _ i. Inr (0x2e, wol_opts (\<lambda>_. 0) h i)), e_set_wol := (\<lambda>_ _ _ _. None)\<rparr>"

definition example_wol_profile :: wol_profile where
  "example_wol_profile = wol_pci ''dxp4800plus'' ''DXP4800 Plus'' 2"

lemma example_interface_working: "interface_working example_interface_env example_wol_profile ''eth0'' (\<lambda>_. 0)"
proof -
  have "valid_interface_name ''eth0''" by code_simp
  moreover have "link_type (File_data (''1'' @ [CHR 0x0A]) None) = 1" by code_simp
  moreover have "identity_of_uevent example_wol_profile
      (File_data (''PCI_CLASS=20000'' @ [CHR 0x0A] @ ''PCI_SLOT_NAME=0000:01:00.0'' @ [CHR 0x0A]) None) = Some ''pci:0000:01:00.0''"
    by code_simp
  moreover have "net_path ''/sys'' ''eth0'' ''/type'' = ''/sys/class/net/eth0/type''"
      "net_path ''/sys'' ''eth0'' ''/device/uevent'' \<noteq> ''/sys/class/net/eth0/type''" by (simp_all add: net_path_def)
  ultimately show ?thesis
    unfolding interface_working_def
    by (intro conjI exI [of _ "''pci:0000:01:00.0''"] exI [of _ 2]) (simp_all add: example_interface_env_def WAKE_MAGIC_def)
qed

theorem wol_interface_set_then_read_witness:
  "fst (run_state (do { r \<leftarrow> wol_interface example_interface_env example_wol_profile ''eth0'' True WOL_ON;
                        q \<leftarrow> wol_interface example_interface_env example_wol_profile ''eth0'' False WOL_UNKNOWN; ret (r, q) }) [])
   = (Inr WOL_ON, Inr WOL_ON)"
  by (rule wol_interface_set_then_read [OF example_interface_working]) simp

theorem wol_interface_guarded_witness:
  "\<exists>es. snd (run_state (wol_interface example_interface_env example_wol_profile ''eth0'' True WOL_ON) []) = es \<and>
     interface_guarded example_wol_profile ''eth0'' True WOL_ON WAKE_MAGIC (Inr WOL_ON) es"
proof -
  let ?m = "wol_interface example_interface_env example_wol_profile ''eth0'' True WOL_ON"
  have "fst (run_state ?m []) = Inr WOL_ON" by code_simp
  then obtain h' where "run_state ?m [] = (Inr WOL_ON, h')" by (metis prod.collapse)
  from wol_interface_guarded [OF this] this show ?thesis by simp
qed

end
