(* ===== verification/Wake_CLI.thy ===== *)
theory Wake_CLI
  imports Rtc_Wake Wol_Interface
begin

text \<open>
  The wake commands of the command line (\<^verbatim>\<open>core/wake_cli.c\<close>): argument parsing, the exact match of
  the machine, dry run, lock, the second identity check, and the operation.  \<open>argv\<close> is the argument
  list without the program name.  The text on \<^verbatim>\<open>stderr\<close> is not modelled, the lines on
  \<^verbatim>\<open>stdout\<close> are.
\<close>

unbundle bit_operations_syntax

section \<open>Arguments\<close>

text \<open>Returned: -1, \<^verbatim>\<open>EXIT_FAILURE\<close>, or \<^verbatim>\<open>EXIT_SUCCESS\<close> with the lines printed.\<close>

datatype cli_result = Not_handled | Exit_failure | Exit_success "string list"

fun find_command :: "string list \<Rightarrow> string list" where
  "find_command [] = []"
| "find_command [a] = (if a \<in> {''--model'', ''--plugin-dir'', ''--interface''} \<or> starts_with ''--'' a then [] else [a])"
| "find_command (a # b # rest) =
     (if a \<in> {''--model'', ''--plugin-dir'', ''--interface''} then find_command rest
      else if starts_with ''--'' a then find_command (b # rest) else a # b # rest)"

record wake_args =
  wa_positionals :: "string list"
  wa_model :: "string option"
  wa_interface :: "string option"
  wa_apply :: bool
  wa_force :: bool

definition no_wake_args :: wake_args where
  "no_wake_args = \<lparr>wa_positionals = [], wa_model = None, wa_interface = None, wa_apply = False, wa_force = False\<rparr>"

definition wake_positional :: "wake_args \<Rightarrow> string \<Rightarrow> wake_args option" where
  "wake_positional w a =
     (if starts_with ''--'' a \<or> length (wa_positionals w) = 4 then None
      else Some (w\<lparr>wa_positionals := wa_positionals w @ [a]\<rparr>))"

definition wake_option :: "wake_args \<Rightarrow> string \<Rightarrow> string \<Rightarrow> wake_args option" where
  "wake_option w a v =
     (if a = ''--model'' then (if wa_model w \<noteq> None then None else Some (w\<lparr>wa_model := Some v\<rparr>))
      else if a = ''--interface'' then (if wa_interface w \<noteq> None then None else Some (w\<lparr>wa_interface := Some v\<rparr>))
      else Some w)"

fun parse_wake_args :: "wake_args \<Rightarrow> string list \<Rightarrow> wake_args option" where
  "parse_wake_args w [] = Some w"
| "parse_wake_args w (a # rest) =
     (if a = ''--force'' then parse_wake_args (w\<lparr>wa_force := True\<rparr>) rest
      else if a = ''--apply'' then parse_wake_args (w\<lparr>wa_apply := True\<rparr>) rest
      else if a \<in> {''--model'', ''--interface'', ''--plugin-dir''} then
        (case rest of [] \<Rightarrow> None
         | v # rest' \<Rightarrow> (case wake_option w a v of None \<Rightarrow> None | Some w' \<Rightarrow> parse_wake_args w' rest'))
      else (case wake_positional w a of None \<Rightarrow> None | Some w' \<Rightarrow> parse_wake_args w' rest))"

text \<open>The verb and its argument: \<^verbatim>\<open>write\<close>, \<^verbatim>\<open>epoch\<close> and \<^verbatim>\<open>policy\<close>, or no such command.\<close>

definition wake_request :: "bool \<Rightarrow> string list \<Rightarrow> (bool \<times> int \<times> wol_policy) option" where
  "wake_request rtc ps =
     (if length ps < 3 then None
      else if ps ! 2 = ''set'' \<and> length ps = 4 then
        (if rtc then
           (if \<not> list_all isdigit (ps ! 3) then None
            else (case rtc_wake_parse (ps ! 3) of Inl _ \<Rightarrow> None
                  | Inr epoch \<Rightarrow> if epoch \<le> 0 then None else Some (True, epoch, WOL_UNKNOWN)))
         else if ps ! 3 = ''on'' then Some (True, 0, WOL_ON)
         else if ps ! 3 = ''off'' then Some (True, 0, WOL_OFF)
         else None)
      else if rtc \<and> length ps = 3 \<and> ps ! 2 = ''clear'' then Some (True, 0, WOL_UNKNOWN)
      else if length ps \<noteq> 3 \<or> ps ! 2 \<noteq> ''get'' then None
      else Some (False, 0, WOL_UNKNOWN))"

definition model_option_matches :: "string option \<Rightarrow> string \<Rightarrow> string \<Rightarrow> bool" where
  "model_option_matches requested key product \<longleftrightarrow>
     (case requested of None \<Rightarrow> True
      | Some r \<Rightarrow> r = key \<or> r = product \<or>
          (r = ''dx4600'' \<and> (product = ''DX4600+'' \<or> product = ''DX4600 Pro'')) \<or>
          (r = ''dxp4800plus'' \<and> product = ''DXP4800 Pro''))"

definition wake_models :: "bool \<Rightarrow> string list" where
  "wake_models rtc =
     (let tab = [CHR 0x09] in
      if rtc then map (\<lambda>p. rtc_id p @ tab @ rtc_product p @ tab @ ''rtc='' @ rtc_name p @ tab @
                           ''firmware-evidence; actual wake unverified'') rtc_profiles
      else map (\<lambda>p. wol_id p @ tab @ wol_product p @ tab @ ''wol='' @
                    (if automatic_pci_count p \<noteq> 0 then ''automatic-or-explicit'' else ''explicit-interface-required'') @
                    tab @ ''actual wake unverified'') wol_profiles)"

section \<open>The lock\<close>

definition trusted_lock :: "errno + file_stat \<Rightarrow> bool" where
  "trusted_lock r =
     (case r of Inl _ \<Rightarrow> False
      | Inr st \<Rightarrow> sx_regular st \<and> sx_uid st = 0 \<and> sx_nlink st = 1 \<and> sx_mode st AND 0x12 = 0)"

definition wake_lock :: "env \<Rightarrow> bool \<Rightarrow> (nat option) io" where
  "wake_lock E rtc = do {
     o' \<leftarrow> open_lock E (if rtc then ''/run/ugreenctl-rtc.lock'' else ''/run/ugreenctl-wol.lock'');
     (case o' of Inl _ \<Rightarrow> ret None
      | Inr fd \<Rightarrow> do {
          st \<leftarrow> fstat E fd;
          (if \<not> trusted_lock st then do { close_fd fd; ret None }
           else do {
             f \<leftarrow> flock E fd True;
             (if f \<noteq> None then do { close_fd fd; ret None } else ret (Some fd)) }) }) }"

section \<open>The command\<close>

definition wake_outcome :: "('a \<Rightarrow> string) \<Rightarrow> errno + 'a \<Rightarrow> cli_result" where
  "wake_outcome line r = (case r of Inl _ \<Rightarrow> Exit_failure | Inr x \<Rightarrow> Exit_success [line x])"

definition rtc_operation :: "env \<Rightarrow> rtc_profile \<Rightarrow> bool \<Rightarrow> int \<Rightarrow> cli_result io" where
  "rtc_operation E p change epoch =
     (if \<not> change then do { r \<leftarrow> rtc_wake_read E p; ret (wake_outcome dec_int r) }
      else do {
        r \<leftarrow> (if epoch \<noteq> 0 then rtc_wake_set E p epoch else rtc_wake_clear E p);
        ret (wake_outcome (\<lambda>_. ''RTC alarm '' @ (if epoch \<noteq> 0 then ''set'' else ''cleared'') @ '': '' @ dec_int epoch @
               ''; interface readback verified; actual power-on unverified'') r) })"

definition wol_operation :: "env \<Rightarrow> wol_profile \<Rightarrow> string option \<Rightarrow> bool \<Rightarrow> wol_policy \<Rightarrow> cli_result io" where
  "wol_operation E p interface change policy = do {
     r \<leftarrow> (case interface of
             Some n \<Rightarrow> wol_interface E p n change policy
           | None \<Rightarrow>
               if change then bindE (wol_set_policy_with_renamed_count E wol_interfaces (automatic_pci_count p) policy) (\<lambda>_. ok policy)
               else wol_read_policy_with_renamed_count E wol_interfaces (automatic_pci_count p));
     ret (wake_outcome (\<lambda>q. let s = (if q = WOL_ON then ''on'' else ''off'') in
            if change then ''WOL '' @ s @ ''; driver readback verified; shutdown wake unverified'' else s) r) }"

text \<open>Dry run, or lock, check the identity again, and operate.  (\<^verbatim>\<open>memcmp\<close> also sees the white space
  that \<^verbatim>\<open>text_read\<close> leaves after the terminator of a field; the fields themselves are compared here.)\<close>

definition wake_commit :: "env \<Rightarrow> bool \<Rightarrow> wake_args \<Rightarrow> bool \<Rightarrow> machine_identity \<Rightarrow> cli_result io \<Rightarrow> cli_result io" where
  "wake_commit E rtc w change identity operation =
     (if \<not> change then operation
      else if \<not> wa_apply w then
        ret (Exit_success [''dry-run: wake request validated against exact model; no hardware access; use --force --apply''])
      else if \<not> wa_force w then ret Exit_failure
      else do {
        l \<leftarrow> wake_lock E rtc;
        (case l of None \<Rightarrow> ret Exit_failure
         | Some fd \<Rightarrow> do {
             again \<leftarrow> identity_read E;
             (if again \<noteq> Inr identity then do { close_fd fd; ret Exit_failure }
              else do { r \<leftarrow> operation; close_fd fd; ret r }) }) })"

definition wake_run :: "env \<Rightarrow> bool \<Rightarrow> wake_args \<Rightarrow> bool \<Rightarrow> int \<Rightarrow> wol_policy \<Rightarrow> cli_result io" where
  "wake_run E rtc w change epoch policy = do {
     i \<leftarrow> identity_read E;
     (case i of Inl _ \<Rightarrow> ret Exit_failure
      | Inr identity \<Rightarrow>
          if rtc then
            (case rtc_match identity of None \<Rightarrow> ret Exit_failure
             | Some p \<Rightarrow>
                 if \<not> model_option_matches (wa_model w) (rtc_id p) (rtc_product p) then ret Exit_failure
                 else if epoch = 0 then wake_commit E rtc w change identity (rtc_operation E p change epoch)
                 else do {
                   now \<leftarrow> clock E;
                   (case rtc_validate_epoch p epoch now of Some _ \<Rightarrow> ret Exit_failure
                    | None \<Rightarrow> wake_commit E rtc w change identity (rtc_operation E p change epoch)) })
          else
            (case wol_match identity of None \<Rightarrow> ret Exit_failure
             | Some p \<Rightarrow>
                 if \<not> model_option_matches (wa_model w) (wol_id p) (wol_product p) then ret Exit_failure
                 else if wa_interface w = None \<and> automatic_pci_count p = 0 then ret Exit_failure
                 else wake_commit E rtc w change identity (wol_operation E p (wa_interface w) change policy))) }"

definition wake_cli :: "env \<Rightarrow> string list \<Rightarrow> cli_result io" where
  "wake_cli E argv =
     (case find_command argv of
        c # s # _ \<Rightarrow>
          (let rtc = (c = ''power'' \<and> s = ''rtc-wake'') in
           if \<not> rtc \<and> (c \<noteq> ''network'' \<or> s \<noteq> ''wol'') then ret Not_handled
           else (case parse_wake_args no_wake_args argv of None \<Rightarrow> ret Exit_failure
             | Some w \<Rightarrow>
                 (let ps = wa_positionals w in
                  if rtc \<and> wa_interface w \<noteq> None then ret Exit_failure
                  else if length ps = 3 \<and> ps ! 2 = ''models'' then
                    ret (if wa_model w \<noteq> None \<or> wa_interface w \<noteq> None \<or> wa_apply w \<or> wa_force w
                         then Exit_failure else Exit_success (wake_models rtc))
                  else (case wake_request rtc ps of None \<Rightarrow> ret Exit_failure
                        | Some (change, epoch, policy) \<Rightarrow> wake_run E rtc w change epoch policy))))
      | _ \<Rightarrow> ret Not_handled)"

section \<open>Observing\<close>

definition changes_state :: "event \<Rightarrow> bool" where
  "changes_state e \<longleftrightarrow> \<not> no_file_write e \<or> \<not> no_wol_write e"

text \<open>The calls the wake commands make apart from the writes themselves.\<close>

definition wake_call :: "event \<Rightarrow> bool" where
  "wake_call e \<longleftrightarrow>
     (case e of Read_file _ _ \<Rightarrow> True | List_dir _ _ \<Rightarrow> True | Lstat_regular _ _ \<Rightarrow> True | Clock _ \<Rightarrow> True
      | Access _ _ _ \<Rightarrow> True | If_index _ _ \<Rightarrow> True | Open_socket _ \<Rightarrow> True | Get_wol _ _ _ \<Rightarrow> True
      | Close_fd _ \<Rightarrow> True | Fstat _ _ \<Rightarrow> True | Open_lock _ _ \<Rightarrow> True | Flock _ _ _ \<Rightarrow> True | _ \<Rightarrow> False)"

lemma wake_call_observes: "wake_call e \<Longrightarrow> \<not> changes_state e"
  by (cases e) (auto simp: wake_call_def changes_state_def no_file_write_def no_wol_write_def)

text \<open>A property of events that all these calls have.\<close>

locale observer =
  fixes A :: "event \<Rightarrow> bool"
  assumes observe: "wake_call e \<Longrightarrow> A e"
begin

lemma calls_observe [simp]:
  "A (Read_file p r)" "A (List_dir d l)" "A (Lstat_regular p s)" "A (Clock t)" "A (Access p m b)" "A (If_index i n)"
  "A (Open_socket s')" "A (Get_wol fd i v)" "A (Close_fd fd)" "A (Fstat fd st)" "A (Open_lock p l')" "A (Flock fd b o')"
  by (rule observe; simp add: wake_call_def)+

lemma observe_identity: "emits A (identity_read E)"
  unfolding identity_read_def identity_read_at_def dmi_identity_def dt_identity_def optional_field_def
    identity_text_read_def compatible_read_def raw_read_def calls
  by (intro emits_intros) simp_all

lemma observe_candidate: "emits A (rtc_candidate E p c)"
  unfolding rtc_candidate_def calls by (intro emits_intros) simp_all

lemma observe_scan: "emits A (rtc_scan E p n d found ns)"
  by (induction ns arbitrary: found) (auto intro!: emits_intros observe_candidate)

lemma observe_select: "emits A (rtc_select_at E root p n)"
  unfolding rtc_select_at_def calls Let_def
  by (intro emits_intros observe_scan) (auto split: list.splits intro!: events.return)

lemma observe_alarm: "emits A (read_alarm E path)"
  unfolding read_alarm_def calls by (intro emits_intros) simp_all

lemma observe_rtc_read: "emits A (rtc_wake_read E p)"
  unfolding rtc_wake_read_def by (intro emits_intros observe_select observe_alarm)

lemma observe_clock: "emits A (rtc_clock_agrees E path)"
  unfolding rtc_clock_agrees_def calls by (intro emits_intros observe_alarm) simp_all

lemma observe_mapped: "emits A (mapped_interfaces_are_present_and_physical E is)"
  by (induction "is") (auto simp: read_pci_ethernet_interface_def calls intro!: emits_intros)

lemma observe_candidates: "emits A (scan_candidates E found ns)"
  by (induction ns arbitrary: found) (auto simp: read_pci_ethernet_interface_def calls intro!: emits_intros)

lemma observe_interfaces: "emits A (select_interfaces E is n)"
  unfolding select_interfaces_def discover_renamed_interfaces_def list_dir_def
  by (intro emits_intros observe_mapped observe_candidates) simp_all

lemma observe_query: "emits A (query_interface E fd i)"
  unfolding query_interface_def calls by (intro emits_intros) simp_all

lemma observe_policy: "emits A (observe_policy E fd p is)"
  by (induction "is" arbitrary: p) (auto intro!: emits_intros observe_query)

lemma observe_wol_read: "emits A (wol_read_policy_with_renamed_count E is n)"
  unfolding wol_read_policy_with_renamed_count_def open_socket_def close_fd_def
  by (intro emits_intros observe_interfaces observe_policy) simp_all

lemma observe_wol_identity: "emits A (wol_interface_identity_at E root p n limit)"
  unfolding wol_interface_identity_at_def calls by (intro emits_intros) simp_all

lemma observe_recheck: "emits A (recheck_interface E p n i index)"
  unfolding recheck_interface_def if_nametoindex_def by (intro emits_intros observe_wol_identity) simp_all

lemma observe_wol_query: "emits A (wol_interface E p n False policy)"
  unfolding wol_interface_def if_nametoindex_def open_socket_def close_fd_def if_False
  by (intro emits_intros observe_wol_identity observe_query) simp_all

lemma observe_lock: "emits A (wake_lock E rtc)"
  unfolding wake_lock_def calls by (intro emits_intros) simp_all

text \<open>The operations that write, for a property that the writes have as well.\<close>

lemma observe_update:
  "(\<And>q s w. A (Write_file q s w)) \<Longrightarrow> emits A (update_alarm E p e)"
  unfolding update_alarm_def write_wakealarm_def write_file_def
  by (intro emits_intros observe_select observe_alarm observe_clock)
    (auto split: file_write.splits intro!: emits_intros)

lemma observe_rtc_set: "(\<And>q s w. A (Write_file q s w)) \<Longrightarrow> emits A (rtc_wake_set E p e)"
  unfolding rtc_wake_set_def clock_def by (intro emits_intros observe_update) simp_all

lemma observe_wol_interface: "(\<And>fd i v r. A (Set_wol fd i v r)) \<Longrightarrow> emits A (wol_interface E p n change policy)"
  unfolding wol_interface_def write_interface_def set_interface_def set_wol_def if_nametoindex_def open_socket_def
    close_fd_def get_wol_def
  by (intro emits_intros observe_wol_identity observe_query observe_recheck) simp_all

lemma observe_wol_set:
  "(\<And>fd i v r. A (Set_wol fd i v r)) \<Longrightarrow> emits A (wol_set_policy_with_renamed_count E is n policy)"
  unfolding wol_set_policy_with_renamed_count_def open_socket_def close_fd_def wol_read_policy_def set_interface_def set_wol_def
  by (intro emits_intros observe_interfaces observe_query observe_wol_read) simp_all

lemma observe_wake_cli:
  assumes w: "\<And>q s w. A (Write_file q s w)" "\<And>fd i v r. A (Set_wol fd i v r)"
  shows "emits A (wake_cli E argv)"
proof -
  have rtc: "emits A (rtc_operation E p change epoch)" for p change epoch
    unfolding rtc_operation_def rtc_wake_clear_def
    by (intro emits_intros observe_rtc_read observe_rtc_set observe_update w)
  have wol: "emits A (wol_operation E p n change policy)" for p n change policy
    unfolding wol_operation_def by (intro emits_intros observe_wol_interface observe_wol_set observe_wol_read w)
  have commit: "emits A (wake_commit E rtc wa change identity operation)" if "emits A operation" for rtc wa change identity operation
    unfolding wake_commit_def close_fd_def by (intro emits_intros observe_lock observe_identity that) simp_all
  have "emits A (wake_run E rtc wa change epoch policy)" for rtc wa change epoch policy
    unfolding wake_run_def clock_def by (intro emits_intros observe_identity commit rtc wol) simp_all
  then show ?thesis
    unfolding wake_cli_def Let_def by (auto intro!: emits_intros split: list.splits option.splits)
qed

end

definition wake_quiet :: "event \<Rightarrow> bool" where
  "wake_quiet e \<longleftrightarrow> \<not> changes_state e"

interpretation quiet: observer wake_quiet
  by unfold_locales (simp add: wake_quiet_def wake_call_observes)

interpretation files: observer no_file_write
  by unfold_locales (auto dest: wake_call_observes simp: changes_state_def)

interpretation options: observer no_wol_write
  by unfold_locales (auto dest: wake_call_observes simp: changes_state_def)

section \<open>What a wake command may do\<close>

text \<open>The segment of the operation of a write: an alarm transaction or a Wake-on-LAN change for the
  profile that matches the identity.\<close>

definition wake_body :: "machine_identity \<Rightarrow> trace \<Rightarrow> bool" where
  "wake_body identity body \<longleftrightarrow>
     (\<exists>p. rtc_match identity = Some p \<and> list_all no_wol_write body \<and>
        (\<exists>r epoch. set_guarded p epoch r body \<or> alarm_guarded p 0 r body)) \<or>
     (\<exists>p. wol_match identity = Some p \<and> list_all no_file_write body \<and>
        ((\<exists>n policy r. interface_guarded p n True policy (if policy = WOL_ON then WAKE_MAGIC else 0) r body) \<or>
         (0 < automatic_pci_count p \<and> (\<exists>v. wol_guarded wol_interfaces (automatic_pci_count p) v body))))"

lemma seg_emits: "emits A m \<Longrightarrow> seg (\<lambda>r es. list_all A es) m"
  by (rule seg_appends)

lemma rtc_change_body:
  assumes "rtc_match identity = Some p"
  shows "seg (\<lambda>r es. wake_body identity es) (rtc_operation E p True epoch)"
proof -
  have "emits no_wol_write (rtc_wake_set E p e)" "emits no_wol_write (rtc_wake_clear E p)" for e
    unfolding rtc_wake_clear_def
    by (intro options.observe_rtc_set options.observe_update; simp add: no_wol_write_def)+
  note quiet = this [THEN seg_emits]
  have set: "seg (\<lambda>r es. wake_body identity es) (rtc_wake_set E p epoch)"
    by (rule seg_mono [OF seg_conj [OF rtc_set_evidence quiet(1)]]) (use assms in \<open>auto simp: wake_body_def\<close>)
  have clear: "seg (\<lambda>r es. wake_body identity es) (rtc_wake_clear E p)"
    unfolding rtc_wake_clear_def
    by (rule seg_mono [OF seg_conj [OF update_evidence quiet(2) [unfolded rtc_wake_clear_def]]])
      (use assms in \<open>auto simp: wake_body_def\<close>)
  show ?thesis
    unfolding rtc_operation_def
    by (simp, intro conjI impI seg_bind [OF set] seg_bind [OF clear] seg_return) auto
qed

lemma wol_change_body:
  assumes "wol_match identity = Some p" "interface = None \<longrightarrow> automatic_pci_count p \<noteq> 0" "policy = WOL_ON \<or> policy = WOL_OFF"
  shows "seg (\<lambda>r es. wake_body identity es) (wol_operation E p interface True policy)"
proof -
  have one: "emits no_file_write (wol_interface E p n True policy)" for n
    by (rule files.observe_wol_interface) (simp add: no_file_write_def)
  have group: "emits no_file_write (wol_set_policy_with_renamed_count E is n policy)" for "is" n
    by (rule files.observe_wol_set) (simp add: no_file_write_def)
  obtain v where v: "desired_opts policy = Some v" using assms(3) by (auto simp: desired_opts_def)
  have guarded: "seg (\<lambda>r es. wol_guarded is n v es) (wol_set_policy_with_renamed_count E is n policy)" for "is" n
    by (rule segI) (use wol_guarded_result [of E _ _ policy] v in fastforce)
  have named: "seg (\<lambda>r es. wake_body identity es) (wol_interface E p n True policy)" for n
    by (rule seg_mono [OF seg_conj [OF wol_interface_evidence seg_emits [OF one]]], unfold wake_body_def)
      (use assms(1) in blast)
  have auto_: "seg (\<lambda>r es. wake_body identity es) (wol_set_policy_with_renamed_count E wol_interfaces (automatic_pci_count p) policy)"
    if "automatic_pci_count p \<noteq> 0"
    by (rule seg_mono [OF seg_conj [OF guarded seg_emits [OF group]]])
      (use assms(1) that in \<open>auto simp: wake_body_def\<close>)
  show ?thesis
  proof (cases interface)
    case None
    then show ?thesis
      unfolding wol_operation_def
      by simp (intro seg_bind [OF seg_bindE [OF auto_]] seg_return; use assms(2) in simp)
  next
    case (Some n)
    then show ?thesis
      unfolding wol_operation_def by simp (intro seg_bind [OF named] seg_return; simp)
  qed
qed

text \<open>A write holds a trusted lock and has read the same identity before and after taking it.\<close>

definition lock_taken :: "nat \<Rightarrow> trace \<Rightarrow> bool" where
  "lock_taken fd es \<longleftrightarrow>
     (\<exists>path st. Open_lock path (Inr fd) \<in> set es \<and> Fstat fd st \<in> set es \<and> trusted_lock st \<and> Flock fd True None \<in> set es)"

definition wake_write :: "env \<Rightarrow> machine_identity \<Rightarrow> trace \<Rightarrow> trace \<Rightarrow> bool" where
  "wake_write E identity g es \<longleftrightarrow>
     (\<exists>pre check body fd. es = pre @ check @ body @ [Close_fd fd] \<and> list_all wake_quiet (pre @ check) \<and>
        lock_taken fd pre \<and> run_state (identity_read E) (g @ pre) = (Inr identity, g @ pre @ check) \<and>
        wake_body identity body)"

lemma seg_wake_lock: "seg (\<lambda>r es. list_all wake_quiet es \<and> (\<forall>fd. r = Some fd \<longrightarrow> lock_taken fd es)) (wake_lock E rtc)"
proof -
  have "seg (\<lambda>r es. \<forall>fd. r = Some fd \<longrightarrow> lock_taken fd es) (wake_lock E rtc)"
    unfolding wake_lock_def
    by (intro seg_bind [OF seg_open_lock] seg_case_sum seg_bind [OF seg_fstat] seg_if seg_bind [OF seg_flock]
        seg_bind [OF seg_close_fd] seg_return) (auto simp: lock_taken_def)
  from seg_conj [OF seg_emits [OF quiet.observe_lock] this] show ?thesis .
qed

lemma emits_run:
  assumes "emits A m" "run_state m g = (a, g')"
  obtains es where "g' = g @ es" "list_all A es"
  using segD [OF seg_emits [OF assms(1)] assms(2)] by blast

lemma commit_guarded:
  assumes op: "change \<Longrightarrow> seg (\<lambda>r es. wake_body identity es) operation" and get: "\<not> change \<Longrightarrow> emits wake_quiet operation"
  shows "wp (wake_commit E rtc w change identity operation)
    (\<lambda>r g'. \<exists>es. g' = g @ es \<and> (list_all wake_quiet es \<or> change \<and> wa_force w \<and> wa_apply w \<and> wake_write E identity g es)) g"
proof (cases "change \<and> wa_apply w \<and> wa_force w")
  case True
  have "wp (wake_lock E rtc) (\<lambda>l g1. \<exists>pre. g1 = g @ pre \<and> list_all wake_quiet pre \<and> (\<forall>fd. l = Some fd \<longrightarrow> lock_taken fd pre)) g"
    using seg_wake_lock [of E rtc, unfolded seg_def] by blast
  moreover have "wp (do {
      again \<leftarrow> identity_read E;
      (if again \<noteq> Inr identity then do { close_fd fd; ret Exit_failure }
       else do { r \<leftarrow> operation; close_fd fd; ret r }) })
      (\<lambda>r g'. \<exists>es. g' = g @ es \<and> (list_all wake_quiet es \<or> wake_write E identity g es)) (g @ pre)"
    if pre: "list_all wake_quiet pre" "lock_taken fd pre" for fd pre
    unfolding wp_bind
  proof (rule wpI)
    fix again g2 assume run: "run_state (identity_read E) (g @ pre) = (again, g2)"
    obtain check where check: "g2 = (g @ pre) @ check" "list_all wake_quiet check"
      using emits_run [OF quiet.observe_identity run] by blast
    have "wp operation (\<lambda>r g'. \<exists>body. g' = (g @ pre @ check) @ body \<and> wake_body identity body) (g @ pre @ check)"
      using op True unfolding seg_def by blast
    then have "wp operation (\<lambda>r g'. \<exists>es. g' @ [Close_fd fd] = g @ es \<and> wake_write E identity g es) (g @ pre @ check)"
      if "again = Inr identity"
    proof (rule wp_mono)
      fix r g' assume "\<exists>body. g' = (g @ pre @ check) @ body \<and> wake_body identity body"
      then obtain body where "g' = (g @ pre @ check) @ body" "wake_body identity body" by blast
      with run check pre that show "\<exists>es. g' @ [Close_fd fd] = g @ es \<and> wake_write E identity g es"
        by (intro exI [of _ "pre @ check @ body @ [Close_fd fd]"]) (auto simp: wake_write_def)
    qed
    then show "wp (if again \<noteq> Inr identity then do { close_fd fd; ret Exit_failure }
         else do { r \<leftarrow> operation; close_fd fd; ret r })
        (\<lambda>r g'. \<exists>es. g' = g @ es \<and> (list_all wake_quiet es \<or> wake_write E identity g es)) g2"
      using pre check by (auto simp: wp_simps close_fd_def elim!: wp_mono)
  qed
  ultimately show ?thesis
    using True unfolding wake_commit_def
    by (auto simp: wp_bind wp_if wp_case_option wp_return split: option.splits elim!: wp_mono intro: exI [of _ "[]"])
next
  case False
  then consider "\<not> change" | "change" "\<not> (wa_apply w \<and> wa_force w)" by blast
  then show ?thesis
  proof cases
    case 1
    from appends_wp [OF get [OF 1], of g] have "wp operation (\<lambda>_ g'. \<exists>es. g' = g @ es \<and> list_all wake_quiet es) g" .
    with 1 show ?thesis by (simp add: wake_commit_def)
  qed (auto simp: wake_commit_def wp_simps intro: exI [of _ "[]"])
qed

text \<open>The flags of the parsed arguments come from the command line.\<close>

lemma parse_wake_flags:
  "parse_wake_args w argv = Some w' \<Longrightarrow>
   (wa_force w' \<longrightarrow> wa_force w \<or> ''--force'' \<in> set argv) \<and> (wa_apply w' \<longrightarrow> wa_apply w \<or> ''--apply'' \<in> set argv)"
proof (induction w argv rule: parse_wake_args.induct)
  case (2 w a rest)
  note IH = 2
  have keep: "wake_option w a v = Some u \<Longrightarrow> wa_force u = wa_force w \<and> wa_apply u = wa_apply w"
      "wake_positional w a = Some u \<Longrightarrow> wa_force u = wa_force w \<and> wa_apply u = wa_apply w" for v u
    by (auto simp: wake_option_def wake_positional_def split: if_splits)
  consider "a = ''--force''" | "a \<noteq> ''--force''" "a = ''--apply''"
    | v rest' u where "a \<noteq> ''--force''" "a \<noteq> ''--apply''" "a \<in> {''--model'', ''--interface'', ''--plugin-dir''}"
        "rest = v # rest'" "wake_option w a v = Some u" "parse_wake_args u rest' = Some w'"
    | u where "a \<noteq> ''--force''" "a \<noteq> ''--apply''" "a \<notin> {''--model'', ''--interface'', ''--plugin-dir''}"
        "wake_positional w a = Some u" "parse_wake_args u rest = Some w'"
    using 2(5) by (auto split: if_splits list.splits option.splits)
  then show ?case
  proof cases
    case 1
    with IH(1,5) show ?thesis by simp
  next
    case 2
    with IH(2,5) show ?thesis by simp
  next
    case 3
    with IH(3) [OF 3(1-4,5)] keep(1) show ?thesis by auto
  next
    case 4
    with IH(4) [OF 4(1-4)] keep(2) show ?thesis by auto
  qed
qed simp

lemma wake_request_policy:
  "wake_request rtc ps = Some (change, epoch, policy) \<Longrightarrow>
   (change \<longrightarrow> \<not> rtc \<longrightarrow> policy = WOL_ON \<or> policy = WOL_OFF) \<and> (\<not> change \<longrightarrow> epoch = 0)"
  by (auto simp: wake_request_def split: if_splits sum.splits)

lemma run_guarded:
  assumes request: "change \<longrightarrow> \<not> rtc \<longrightarrow> policy = WOL_ON \<or> policy = WOL_OFF" "\<not> change \<longrightarrow> epoch = 0"
  shows "wp (wake_run E rtc w change epoch policy)
    (\<lambda>r h'. \<exists>es. h' = h @ es \<and> (list_all wake_quiet es \<or>
       wa_force w \<and> wa_apply w \<and>
       (\<exists>identity first rest. es = first @ rest \<and> list_all wake_quiet first \<and>
          fst (run_state (identity_read E) h) = Inr identity \<and> wake_write E identity (h @ first) rest))) h"
  (is "wp _ (\<lambda>r h'. ?Q h') h")
  unfolding wake_run_def wp_bind
proof (rule wpI)
  fix i h1 assume run: "run_state (identity_read E) h = (i, h1)"
  then obtain a where a: "h1 = h @ a" "list_all wake_quiet a"
    using emits_run [OF quiet.observe_identity run] by blast
  have stop: "?Q h1" using a by auto
  have commit: "wp (wake_commit E rtc w change identity operation) (\<lambda>r h'. ?Q h') (h @ b)"
    if "i = Inr identity" "list_all wake_quiet b" "change \<Longrightarrow> seg (\<lambda>r es. wake_body identity es) operation"
      "\<not> change \<Longrightarrow> emits wake_quiet operation" for identity operation b
  proof (rule wp_mono [OF commit_guarded [OF that(3,4)]])
    fix r h' assume "\<exists>es. h' = (h @ b) @ es \<and> (list_all wake_quiet es \<or> change \<and> wa_force w \<and> wa_apply w \<and> wake_write E identity (h @ b) es)"
    then obtain es where es: "h' = h @ b @ es"
      "list_all wake_quiet es \<or> wa_force w \<and> wa_apply w \<and> wake_write E identity (h @ b) es" by auto
    show "?Q h'"
      by (rule exI [of _ "b @ es"]) (use es that(1,2) run in auto)
  qed
  have rtc_get: "emits wake_quiet (rtc_operation E p False e)" for p e
    unfolding rtc_operation_def by (auto intro!: emits_intros quiet.observe_rtc_read)
  have wol_get: "emits wake_quiet (wol_operation E p n False q)" for p n q
    unfolding wol_operation_def by (auto intro!: emits_intros quiet.observe_wol_query quiet.observe_wol_read)
  have ops: "seg (\<lambda>r es. wake_body identity es) (wol_operation E p (wa_interface w) True policy)"
    if "wol_match identity = Some p" "\<not> (wa_interface w = None \<and> automatic_pci_count p = 0)" "change" "\<not> rtc" for identity p
    using that request(1) by (intro wol_change_body) auto
  have rtc: "wp (wake_commit E True w change identity (rtc_operation E p change epoch)) (\<lambda>r h'. ?Q h') (h @ b)"
    if "i = Inr identity" "rtc_match identity = Some p" "rtc" "list_all wake_quiet b" for identity p b
    using commit [OF that(1,4), of "rtc_operation E p change epoch"] that(2,3) rtc_get [of p epoch]
    by (cases change) (auto intro: rtc_change_body)
  have wol: "wp (wake_commit E False w change identity (wol_operation E p (wa_interface w) change policy)) (\<lambda>r h'. ?Q h') h1"
    if "i = Inr identity" "wol_match identity = Some p" "\<not> (wa_interface w = None \<and> automatic_pci_count p = 0)" "\<not> rtc" for identity p
    using commit [OF that(1) a(2), of "wol_operation E p (wa_interface w) change policy"] that a(1) wol_get [of p "wa_interface w" policy] ops [OF that(2,3)]
    by (cases change) auto
  have clock: "?Q (h @ a @ [Clock n])" for n
    using a(2) by (intro exI [of _ "a @ [Clock n]"]) simp
  show "wp (case i of Inl _ \<Rightarrow> ret Exit_failure
      | Inr identity \<Rightarrow>
          if rtc then
            (case rtc_match identity of None \<Rightarrow> ret Exit_failure
             | Some p \<Rightarrow>
                 if \<not> model_option_matches (wa_model w) (rtc_id p) (rtc_product p) then ret Exit_failure
                 else if epoch = 0 then wake_commit E rtc w change identity (rtc_operation E p change epoch)
                 else do {
                   now \<leftarrow> clock E;
                   (case rtc_validate_epoch p epoch now of Some _ \<Rightarrow> ret Exit_failure
                    | None \<Rightarrow> wake_commit E rtc w change identity (rtc_operation E p change epoch)) })
          else
            (case wol_match identity of None \<Rightarrow> ret Exit_failure
             | Some p \<Rightarrow>
                 if \<not> model_option_matches (wa_model w) (wol_id p) (wol_product p) then ret Exit_failure
                 else if wa_interface w = None \<and> automatic_pci_count p = 0 then ret Exit_failure
                 else wake_commit E rtc w change identity (wol_operation E p (wa_interface w) change policy)))
      (\<lambda>r h'. ?Q h') h1"
  proof (cases rtc)
    case True
    then show ?thesis
      unfolding clock_def
      by (intro wp_sumI wp_ifI wp_optionI wp_returnI wp_bindI wp_primI stop)
        (use rtc [OF _ _ True, of _ _ a] rtc [OF _ _ True, of _ _ "a @ [Clock _]"] clock a in auto)
  next
    case False
    then show ?thesis
      by (intro wp_sumI wp_ifI wp_optionI wp_returnI wp_bindI stop) (use wol in auto)
  qed
qed

text \<open>
  \<^bold>\<open>C37.\<close>  Whatever the machine answers and whatever the arguments are, a wake command writes neither
  an alarm nor a Wake-on-LAN option unless both \<^verbatim>\<open>--force\<close> and \<^verbatim>\<open>--apply\<close> are on the command
  line.  Then it holds a lock file that is a regular file of root's with one link and not writable by
  others, the same machine identity was read before and, as the last thing, again under the lock, and what it does is
  the guarded alarm transaction or Wake-on-LAN change of the profile that matches this identity;
  the lock is released at the end.
\<close>

theorem wake_cli_guarded:
  assumes "run_state (wake_cli E argv) h = (r, h')"
  shows "\<exists>es. h' = h @ es \<and> (list_all wake_quiet es \<or>
    ''--force'' \<in> set argv \<and> ''--apply'' \<in> set argv \<and>
    (\<exists>identity first rest. es = first @ rest \<and> list_all wake_quiet first \<and>
       fst (run_state (identity_read E) h) = Inr identity \<and> wake_write E identity (h @ first) rest))"
proof -
  have "wp (wake_cli E argv) (\<lambda>r h'. \<exists>es. h' = h @ es \<and> (list_all wake_quiet es \<or>
    ''--force'' \<in> set argv \<and> ''--apply'' \<in> set argv \<and>
    (\<exists>identity first rest. es = first @ rest \<and> list_all wake_quiet first \<and>
       fst (run_state (identity_read E) h) = Inr identity \<and> wake_write E identity (h @ first) rest))) h"
    (is "wp _ (\<lambda>r h'. ?Q h') h")
  proof -
    have stop: "?Q h" by auto
    have run: "wp (wake_run E rtc w change epoch policy) (\<lambda>r h'. ?Q h') h"
      if "parse_wake_args no_wake_args argv = Some w" "wake_request rtc ps = Some (change, epoch, policy)"
      for rtc w change epoch policy ps
    proof -
      have "(wa_force w \<longrightarrow> ''--force'' \<in> set argv) \<and> (wa_apply w \<longrightarrow> ''--apply'' \<in> set argv)"
        using parse_wake_flags [OF that(1)] by (simp add: no_wake_args_def)
      moreover have "change \<longrightarrow> \<not> rtc \<longrightarrow> policy = WOL_ON \<or> policy = WOL_OFF" "\<not> change \<longrightarrow> epoch = 0"
        using wake_request_policy [OF that(2)] by simp_all
      ultimately show ?thesis by (intro wp_mono [OF run_guarded]) auto
    qed
    show ?thesis
      unfolding wake_cli_def
      by (auto simp: wp_simps Let_def stop split: list.splits option.splits intro!: run stop)
  qed
  from wp_run [OF assms this] show ?thesis .
qed

text \<open>A machine with a DMI identity and a working RTC.\<close>

definition example_wake_env :: env where
  "example_wake_env = example_rtc_env\<lparr>
     e_read := (\<lambda>h q. if q = ''/sys/class/dmi/id/product_name'' then File_data (''DXP4800 Plus'' @ [CHR 0x0A]) None
                      else if starts_with ''/sys/class/dmi/id/'' q then Open_failed ENOENT
                      else e_read example_rtc_env h q),
     e_open_lock := (\<lambda>_ _. Inr 7),
     e_fstat := (\<lambda>_ _. Inr \<lparr>sx_regular = True, sx_uid = 0, sx_nlink = 1, sx_mode = 0x180, sx_device = None\<rparr>)\<rparr>"

theorem wake_cli_guarded_witness:
  "\<exists>identity first rest.
     snd (run_state (wake_cli example_wake_env [''power'', ''rtc-wake'', ''set'', ''1800000000'', ''--force'', ''--apply'']) []) = first @ rest \<and>
     fst (run_state (identity_read example_wake_env) []) = Inr identity \<and> wake_write example_wake_env identity first rest"
proof -
  let ?m = "wake_cli example_wake_env [''power'', ''rtc-wake'', ''set'', ''1800000000'', ''--force'', ''--apply'']"
  have loud: "\<not> list_all wake_quiet (snd (run_state ?m []))"
  proof -
    have "list_ex (\<lambda>e. case e of Write_file _ _ _ \<Rightarrow> True | _ \<Rightarrow> False) (snd (run_state ?m []))" by code_simp
    moreover have "\<not> wake_quiet e" if "case e of Write_file _ _ _ \<Rightarrow> True | _ \<Rightarrow> False" for e
      using that by (cases e) (simp_all add: wake_quiet_def changes_state_def)
    ultimately show ?thesis unfolding list_ex_iff list_all_iff by blast
  qed
  obtain r h' where run: "run_state ?m [] = (r, h')" by fastforce
  with loud wake_cli_guarded [OF run] show ?thesis by auto
qed

end
