(* ===== verification/Thermal_Curve.thy ===== *)
theory Thermal_Curve
  imports Platform_IO
begin

text \<open>
  The thermal policy (the evaluation half of \<^verbatim>\<open>fan/thermal_curve.c\<close>): a configuration with
  temperature thresholds and PWM points per source, its validation, and the piecewise linear
  curve that turns a temperature snapshot into a PWM plan.  \<^verbatim>\<open>unsigned int\<close> is \<open>u32\<close> and
  \<^verbatim>\<open>unsigned long\<close> is \<open>u64\<close>, so the subtraction and multiplication of the interpolation can wrap
  as they do in C; a temperature is a C \<^verbatim>\<open>int\<close>, negative when the sensor is missing.
\<close>

section \<open>Data\<close>

definition THERMAL_MAX_CELSIUS :: u32 where "THERMAL_MAX_CELSIUS = 125"

record curve_thresholds =
  th_stop :: u32
  th_start :: u32
  th_mid :: u32
  th_full :: u32
  th_maximum :: u32

record curve_pwm_points =
  pt_idle :: u32
  pt_mid :: u32
  pt_full :: u32
  pt_maximum :: u32

record thermal_snapshot =
  cpu_celsius :: int
  hdd_celsius :: int
  ssd_celsius :: int
  cpu_peak_celsius :: int

record fan_curve_plan =
  plan_cpu_pwm :: u32
  plan_system_pwm :: u32

record fan_curve_config =
  profile :: string
  interval_seconds :: u32
  downshift_delay_seconds :: u32
  minimum_pwm :: u32
  failsafe_pwm :: u32
  require_storage_sensor :: bool
  allow_unvalidated_writes :: bool
  hdd_curve_enabled :: bool
  ssd_curve_enabled :: bool
  cfg_cpu :: curve_thresholds
  cfg_hdd :: curve_thresholds
  cfg_ssd :: curve_thresholds
  cfg_pwm :: curve_pwm_points
  system_pwm :: curve_pwm_points
  cpu_pwm :: curve_pwm_points
  system_cpu_floor_enabled :: bool
  system_cpu_floor_start_celsius :: u32
  system_cpu_floor_end_celsius :: u32
  system_cpu_floor_start_pwm :: u32
  system_cpu_floor_end_pwm :: u32

abbreviation thresholds :: "u32 \<Rightarrow> u32 \<Rightarrow> u32 \<Rightarrow> u32 \<Rightarrow> u32 \<Rightarrow> curve_thresholds" where
  "thresholds a b c d e \<equiv> \<lparr>th_stop = a, th_start = b, th_mid = c, th_full = d, th_maximum = e\<rparr>"

abbreviation pwm_points :: "u32 \<Rightarrow> u32 \<Rightarrow> u32 \<Rightarrow> u32 \<Rightarrow> curve_pwm_points" where
  "pwm_points a b c d \<equiv> \<lparr>pt_idle = a, pt_mid = b, pt_full = c, pt_maximum = d\<rparr>"

definition fan_curve_config_defaults :: fan_curve_config where
  "fan_curve_config_defaults =
     \<lparr>profile = ''custom'', interval_seconds = 10, downshift_delay_seconds = 60, minimum_pwm = 64,
      failsafe_pwm = 255, require_storage_sensor = False, allow_unvalidated_writes = False,
      hdd_curve_enabled = True, ssd_curve_enabled = True,
      cfg_cpu = thresholds 50 55 75 80 90, cfg_hdd = thresholds 40 45 50 55 70,
      cfg_ssd = thresholds 45 50 60 65 70, cfg_pwm = pwm_points 64 128 204 255,
      system_pwm = pwm_points 64 128 204 255, cpu_pwm = pwm_points 64 128 204 255,
      system_cpu_floor_enabled = False, system_cpu_floor_start_celsius = 0,
      system_cpu_floor_end_celsius = 0, system_cpu_floor_start_pwm = 0, system_cpu_floor_end_pwm = 0\<rparr>"

section \<open>Stock profiles\<close>

definition profile_is_valid :: "string \<Rightarrow> bool" where
  "profile_is_valid p \<longleftrightarrow>
     p \<in> {''custom'', ''stock-4600'', ''stock-4800'', ''stock-4800s'', ''stock-4800plus'',
          ''stock-480tplus'', ''stock-6800pro'', ''stock-6800plus'', ''stock-6800''}"

text \<open>The chain of \<^verbatim>\<open>strcmp\<close> branches.\<close>

definition stock_points :: "fan_curve_config \<Rightarrow> fan_curve_config" where
  "stock_points c =
     (if profile c = ''stock-4600'' then
        c\<lparr>cfg_cpu := thresholds 40 45 70 80 90, cfg_hdd := thresholds 30 35 50 55 70,
          cfg_ssd := thresholds 35 40 55 65 70, system_pwm := pwm_points 64 152 228 255,
          cpu_pwm := pwm_points 64 152 228 255\<rparr>
      else if profile c = ''stock-4800'' then
        c\<lparr>cfg_cpu := thresholds 45 50 70 75 85, cfg_hdd := thresholds 35 40 45 50 65,
          cfg_ssd := thresholds 40 45 55 60 65, system_pwm := pwm_points 64 128 204 255,
          cpu_pwm := pwm_points 64 128 204 255\<rparr>
      else if profile c = ''stock-4800s'' then
        c\<lparr>cfg_cpu := thresholds 50 55 75 80 90, cfg_hdd := thresholds 40 45 50 55 70,
          cfg_ssd := thresholds 45 50 60 65 70, system_pwm := pwm_points 64 128 204 255,
          cpu_pwm := pwm_points 64 128 204 255\<rparr>
      else if profile c = ''stock-4800plus'' then
        c\<lparr>cfg_cpu := thresholds 42 50 70 78 90, cfg_hdd := thresholds 30 40 46 52 55,
          cfg_ssd := thresholds 50 55 60 65 70, system_pwm := pwm_points 65 125 200 235,
          cpu_pwm := pwm_points 60 125 205 230, system_cpu_floor_enabled := True,
          system_cpu_floor_start_celsius := 65, system_cpu_floor_end_celsius := 90,
          system_cpu_floor_start_pwm := 100, system_cpu_floor_end_pwm := 205\<rparr>
      else if profile c = ''stock-480tplus'' then
        c\<lparr>cfg_cpu := thresholds 25 55 75 85 95, cfg_hdd := thresholds 0 0 0 0 0,
          hdd_curve_enabled := False, cfg_ssd := thresholds 40 50 60 70 80,
          system_pwm := pwm_points 55 90 110 128, cpu_pwm := pwm_points 70 130 150 200\<rparr>
      else if profile c = ''stock-6800pro'' \<or> profile c = ''stock-6800plus'' \<or> profile c = ''stock-6800'' then
        c\<lparr>cfg_cpu := thresholds 25 38 55 75 90, cfg_hdd := thresholds 30 35 43 48 55,
          cfg_ssd := thresholds 45 50 60 65 70, system_pwm := pwm_points 64 130 210 230,
          cpu_pwm := pwm_points 80 130 210 230, system_cpu_floor_enabled := True,
          system_cpu_floor_start_celsius := 65, system_cpu_floor_end_celsius := 90,
          system_cpu_floor_start_pwm := 125, system_cpu_floor_end_pwm := 220\<rparr>
      else c)"

definition apply_stock_profile :: "fan_curve_config \<Rightarrow> fan_curve_config" where
  "apply_stock_profile c =
     (let c = stock_points (c\<lparr>minimum_pwm := 40, hdd_curve_enabled := True, ssd_curve_enabled := True,
                              system_cpu_floor_enabled := False\<rparr>)
      in c\<lparr>cfg_pwm := system_pwm c\<rparr>)"

section \<open>Validation\<close>

definition valid_thresholds :: "curve_thresholds \<Rightarrow> bool" where
  "valid_thresholds t \<longleftrightarrow>
     th_stop t \<le> THERMAL_MAX_CELSIUS \<and> th_stop t < th_start t \<and> th_start t < th_mid t \<and>
     th_mid t < th_full t \<and> th_full t < th_maximum t \<and> th_maximum t \<le> THERMAL_MAX_CELSIUS"

definition valid_pwm_points :: "curve_pwm_points \<Rightarrow> u32 \<Rightarrow> bool" where
  "valid_pwm_points p minimum \<longleftrightarrow>
     pt_idle p \<ge> minimum \<and> pt_maximum p \<le> 255 \<and> pt_idle p \<le> pt_mid p \<and> pt_mid p \<le> pt_full p \<and>
     pt_full p \<le> pt_maximum p"

text \<open>\<open>None\<close> is the return value 0.\<close>

definition fan_curve_validate_config :: "fan_curve_config \<Rightarrow> errno option" where
  "fan_curve_validate_config c =
     (if \<not> profile_is_valid (profile c) then Some EINVAL
      else if interval_seconds c < 2 \<or> interval_seconds c > 300 \<or> downshift_delay_seconds c > 3600
      then Some ERANGE
      else if minimum_pwm c < 40 \<or> minimum_pwm c > 255 \<or> failsafe_pwm c < minimum_pwm c \<or>
        failsafe_pwm c > 255 \<or> \<not> valid_pwm_points (cfg_pwm c) (minimum_pwm c) \<or>
        \<not> valid_pwm_points (system_pwm c) (minimum_pwm c) \<or>
        \<not> valid_pwm_points (cpu_pwm c) (minimum_pwm c) \<or>
        \<not> valid_thresholds (cfg_cpu c) \<or>
        (hdd_curve_enabled c \<and> \<not> valid_thresholds (cfg_hdd c)) \<or>
        (ssd_curve_enabled c \<and> \<not> valid_thresholds (cfg_ssd c)) \<or>
        (system_cpu_floor_enabled c \<and>
         (system_cpu_floor_start_celsius c \<ge> system_cpu_floor_end_celsius c \<or>
          system_cpu_floor_end_celsius c > THERMAL_MAX_CELSIUS \<or>
          system_cpu_floor_start_pwm c < minimum_pwm c \<or>
          system_cpu_floor_end_pwm c > 255 \<or>
          system_cpu_floor_start_pwm c > system_cpu_floor_end_pwm c))
      then Some ERANGE
      else None)"

section \<open>Evaluation\<close>

definition interpolate :: "u32 \<Rightarrow> u32 \<Rightarrow> u32 \<Rightarrow> u32 \<Rightarrow> u32 \<Rightarrow> u32" where
  "interpolate left_temperature right_temperature left_pwm right_pwm temperature =
     (let denominator = ucast (right_temperature - left_temperature) :: u64 in
      if denominator = 0 then right_pwm
      else let numerator = ucast (temperature - left_temperature) * ucast (right_pwm - left_pwm) :: u64
           in left_pwm + ucast (numerator div denominator))"

definition evaluate_source :: "curve_thresholds \<Rightarrow> curve_pwm_points \<Rightarrow> int \<Rightarrow> u32" where
  "evaluate_source t p temperature =
     (let v = word_of_int temperature in
      if v \<le> th_start t then pt_idle p
      else if v < th_mid t then interpolate (th_start t) (th_mid t) (pt_idle p) (pt_mid p) v
      else if v < th_full t then interpolate (th_mid t) (th_full t) (pt_mid p) (pt_full p) v
      else if v < th_maximum t then interpolate (th_full t) (th_maximum t) (pt_full p) (pt_maximum p) v
      else pt_maximum p)"

definition maximum_of :: "u32 \<Rightarrow> u32 \<Rightarrow> u32" where
  "maximum_of l r = (if l > r then l else r)"

definition cpu_system_floor :: "fan_curve_config \<Rightarrow> int \<Rightarrow> u32" where
  "cpu_system_floor c temperature =
     (let cpu = word_of_int temperature in
      if \<not> system_cpu_floor_enabled c \<or> cpu < system_cpu_floor_start_celsius c then 0
      else if cpu \<ge> system_cpu_floor_end_celsius c then system_cpu_floor_end_pwm c
      else interpolate (system_cpu_floor_start_celsius c) (system_cpu_floor_end_celsius c)
             (system_cpu_floor_start_pwm c) (system_cpu_floor_end_pwm c) cpu)"

definition fan_curve_cpu_celsius :: "thermal_snapshot \<Rightarrow> int" where
  "fan_curve_cpu_celsius s = (if cpu_peak_celsius s \<ge> 0 then cpu_peak_celsius s else cpu_celsius s)"

text \<open>The system target: the maximum over the sources that are present and enabled.\<close>

definition system_target :: "fan_curve_config \<Rightarrow> thermal_snapshot \<Rightarrow> u32" where
  "system_target c s =
     (let t = evaluate_source (cfg_cpu c) (system_pwm c) (fan_curve_cpu_celsius s);
          t = (if hdd_curve_enabled c \<and> hdd_celsius s \<ge> 0
               then maximum_of t (evaluate_source (cfg_hdd c) (system_pwm c) (hdd_celsius s)) else t);
          t = (if ssd_curve_enabled c \<and> ssd_celsius s \<ge> 0
               then maximum_of t (evaluate_source (cfg_ssd c) (system_pwm c) (ssd_celsius s)) else t)
      in maximum_of t (cpu_system_floor c (fan_curve_cpu_celsius s)))"

text \<open>The result code and the plan, which is filled in on the error paths too.\<close>

definition fan_curve_evaluate_plan ::
    "fan_curve_config \<Rightarrow> thermal_snapshot \<Rightarrow> errno option \<times> fan_curve_plan" where
  "fan_curve_evaluate_plan c s =
     (if fan_curve_cpu_celsius s < 0 \<or>
         (require_storage_sensor c \<and> hdd_celsius s < 0 \<and> ssd_celsius s < 0)
      then (Some ENODATA, \<lparr>plan_cpu_pwm = failsafe_pwm c, plan_system_pwm = failsafe_pwm c\<rparr>)
      else
        let cpu_target = (if profile c = ''custom'' then system_target c s
                          else evaluate_source (cfg_cpu c) (cpu_pwm c) (fan_curve_cpu_celsius s))
        in (None, \<lparr>plan_cpu_pwm = maximum_of cpu_target (minimum_pwm c),
                   plan_system_pwm = maximum_of (system_target c s) (minimum_pwm c)\<rparr>))"

definition fan_curve_evaluate :: "fan_curve_config \<Rightarrow> thermal_snapshot \<Rightarrow> errno option \<times> u32" where
  "fan_curve_evaluate c s =
     (case fan_curve_evaluate_plan c s of
        (Some e, _) \<Rightarrow> (Some e, failsafe_pwm c)
      | (None, plan) \<Rightarrow> (None, maximum_of (plan_cpu_pwm plan) (plan_system_pwm plan)))"

section \<open>The interpolation never wraps\<close>

text \<open>The exact value on natural numbers.\<close>

definition ramp :: "nat \<Rightarrow> nat \<Rightarrow> nat \<Rightarrow> nat \<Rightarrow> nat \<Rightarrow> nat" where
  "ramp l r lp rp t = lp + (t - l) * (rp - lp) div (r - l)"

lemma ramp_upper: "l < r \<Longrightarrow> t \<le> r \<Longrightarrow> lp \<le> rp \<Longrightarrow> ramp l r lp rp t \<le> rp"
proof -
  assume a: "l < r" "t \<le> r" "lp \<le> rp"
  have "(t - l) * (rp - lp) div (r - l) \<le> (r - l) * (rp - lp) div (r - l)"
    using a by (intro div_le_mono mult_le_mono1) auto
  with a show ?thesis by (simp add: ramp_def)
qed

lemma ramp_mono: "t \<le> t' \<Longrightarrow> ramp l r lp rp t \<le> ramp l r lp rp t'"
  unfolding ramp_def by (intro add_left_mono div_le_mono mult_le_mono1) auto

lemma interpolate_exact:
  assumes "l < r" "l \<le> t" "t \<le> r" "lp \<le> rp"
  shows "unat (interpolate l r lp rp t) = ramp (unat l) (unat r) (unat lp) (unat rp) (unat t)"
proof -
  let ?den = "ucast (r - l) :: u64" and ?num = "ucast (t - l) * ucast (rp - lp) :: u64"
  have lt: "unat l < unat r" and le: "unat l \<le> unat t" "unat t \<le> unat r" "unat lp \<le> unat rp"
    using assms by (simp_all add: word_less_unat word_le_unat)
  have den: "unat (r - l) = unat r - unat l"
    using assms(1) by (simp add: unat_sub)
  have parts: "unat (ucast (t - l) :: u64) = unat t - unat l" "unat (ucast (rp - lp) :: u64) = unat rp - unat lp"
    using assms by (simp_all add: unat_sub)
  have "unat t - unat l \<le> 4294967295" "unat rp - unat lp \<le> 4294967295"
    using u32_less [of t] u32_less [of rp] by linarith+
  then have "(unat t - unat l) * (unat rp - unat lp) \<le> 4294967295 * 4294967295"
    by (rule mult_le_mono)
  then have num: "unat ?num = (unat t - unat l) * (unat rp - unat lp)"
    unfolding parts [symmetric] by (subst unat_mult_lem [symmetric]) simp
  have upper: "unat lp + unat (?num div ?den) \<le> unat rp"
    using ramp_upper [OF lt le(2,3)] by (simp add: unat_div den num ramp_def)
  then have "unat (?num div ?den) < 4294967296" using u32_less [of rp] by linarith
  then have small: "unat (ucast (?num div ?den) :: u32) = unat (?num div ?den)" by (rule unat_ucast_64_32)
  have "unat (lp + ucast (?num div ?den)) = unat lp + unat (?num div ?den)"
    using le_less_trans [OF upper u32_less] unfolding small [symmetric]
    by (subst unat_add_lem [symmetric]) simp
  moreover have "?den \<noteq> 0" using den lt unat_ucast_32_64 [of "r - l"] by (metis unsigned_0 zero_less_diff less_irrefl)
  ultimately show ?thesis
    by (simp add: interpolate_def ramp_def unat_div den num Let_def)
qed

lemma interpolate_bounds:
  assumes "l < r" "l \<le> t" "t \<le> r" "lp \<le> rp"
  shows "lp \<le> interpolate l r lp rp t" "interpolate l r lp rp t \<le> rp"
  using assms ramp_upper [of "unat l" "unat r" "unat t" "unat lp" "unat rp"]
  by (simp_all add: interpolate_exact word_le_unat word_less_unat, simp add: ramp_def)

lemma interpolate_mono:
  assumes "l < r" "l \<le> t" "t \<le> t'" "t' \<le> r" "lp \<le> rp"
  shows "interpolate l r lp rp t \<le> interpolate l r lp rp t'"
  using assms order.trans [OF assms(3,4)] order.trans [OF assms(2,3)]
  by (simp add: interpolate_exact word_le_unat ramp_mono)

section \<open>One source\<close>

definition rising :: "curve_thresholds \<Rightarrow> curve_pwm_points \<Rightarrow> bool" where
  "rising t p \<longleftrightarrow> th_start t < th_mid t \<and> th_mid t < th_full t \<and> th_full t < th_maximum t \<and>
     pt_idle p \<le> pt_mid p \<and> pt_mid p \<le> pt_full p \<and> pt_full p \<le> pt_maximum p"

lemma valid_rising: "valid_thresholds t \<Longrightarrow> valid_pwm_points p m \<Longrightarrow> rising t p"
  by (simp add: valid_thresholds_def valid_pwm_points_def rising_def)

definition source_at :: "curve_thresholds \<Rightarrow> curve_pwm_points \<Rightarrow> u32 \<Rightarrow> u32" where
  "source_at t p v =
     (if v \<le> th_start t then pt_idle p
      else if v < th_mid t then interpolate (th_start t) (th_mid t) (pt_idle p) (pt_mid p) v
      else if v < th_full t then interpolate (th_mid t) (th_full t) (pt_mid p) (pt_full p) v
      else if v < th_maximum t then interpolate (th_full t) (th_maximum t) (pt_full p) (pt_maximum p) v
      else pt_maximum p)"

lemma evaluate_source_at: "evaluate_source t p x = source_at t p (word_of_int x)"
  by (simp add: evaluate_source_def source_at_def Let_def)

lemma source_segments:
  assumes "rising t p"
  shows "pt_idle p \<le> source_at t p v" "source_at t p v \<le> pt_maximum p"
    and "v < th_mid t \<Longrightarrow> source_at t p v \<le> pt_mid p"
    and "v < th_full t \<Longrightarrow> source_at t p v \<le> pt_full p"
    and "th_mid t \<le> v \<Longrightarrow> pt_mid p \<le> source_at t p v"
    and "th_full t \<le> v \<Longrightarrow> pt_full p \<le> source_at t p v"
    and "th_maximum t \<le> v \<Longrightarrow> source_at t p v = pt_maximum p"
proof -
  have o: "th_start t < th_mid t" "th_mid t < th_full t" "th_full t < th_maximum t"
    "pt_idle p \<le> pt_mid p" "pt_mid p \<le> pt_full p" "pt_full p \<le> pt_maximum p"
    using assms by (simp_all add: rising_def)
  note b1 = interpolate_bounds [OF o(1) _ _ o(4), of v]
    and b2 = interpolate_bounds [OF o(2) _ _ o(5), of v]
    and b3 = interpolate_bounds [OF o(3) _ _ o(6), of v]
  have one: "pt_idle p \<le> source_at t p v \<and> source_at t p v \<le> pt_mid p" if "v < th_mid t"
    using that b1 o by (auto simp: source_at_def)
  have two: "pt_mid p \<le> source_at t p v \<and> source_at t p v \<le> pt_full p" if "th_mid t \<le> v" "v < th_full t"
    using that b2 o by (auto simp: source_at_def)
  have three: "pt_full p \<le> source_at t p v \<and> source_at t p v \<le> pt_maximum p" if "th_full t \<le> v"
    using that b3 o by (auto simp: source_at_def)
  show "pt_idle p \<le> source_at t p v" "source_at t p v \<le> pt_maximum p"
    "v < th_mid t \<Longrightarrow> source_at t p v \<le> pt_mid p" "v < th_full t \<Longrightarrow> source_at t p v \<le> pt_full p"
    "th_mid t \<le> v \<Longrightarrow> pt_mid p \<le> source_at t p v" "th_full t \<le> v \<Longrightarrow> pt_full p \<le> source_at t p v"
    using one two three o by (meson linorder_not_less order.trans)+
  show "th_maximum t \<le> v \<Longrightarrow> source_at t p v = pt_maximum p"
    using o by (auto simp: source_at_def)
qed

lemma source_mono:
  assumes r: "rising t p" and v: "v \<le> v'"
  shows "source_at t p v \<le> source_at t p v'"
proof -
  have o: "th_start t < th_mid t" "th_mid t < th_full t" "th_full t < th_maximum t"
    "pt_idle p \<le> pt_mid p" "pt_mid p \<le> pt_full p" "pt_full p \<le> pt_maximum p"
    using r by (simp_all add: rising_def)
  note lo = source_segments [OF r, of v] and hi = source_segments [OF r, of v']
  consider "v \<le> th_start t" | "th_start t < v" "v < th_mid t" | "th_mid t \<le> v" "v < th_full t"
    | "th_full t \<le> v" "v < th_maximum t" | "th_maximum t \<le> v"
    by (meson linorder_not_less)
  then show ?thesis
  proof cases
    case 1
    then show ?thesis using hi(1) by (simp add: source_at_def)
  next
    case 2
    then show ?thesis
      using v o interpolate_mono [OF o(1) _ v _ o(4)] order.trans [OF lo(3) hi(5)]
      by (cases "v' < th_mid t") (auto simp: source_at_def not_less split: if_splits)
  next
    case 3
    then show ?thesis
      using v o interpolate_mono [OF o(2) _ v _ o(5)] order.trans [OF lo(4) hi(6)]
      by (cases "v' < th_full t") (auto simp: source_at_def not_less split: if_splits)
  next
    case 4
    then show ?thesis
      using v o interpolate_mono [OF o(3) _ v _ o(6)] lo(2) hi(7)
      by (cases "v' < th_maximum t") (auto simp: source_at_def not_less)
  next
    case 5
    then show ?thesis using v lo(7) hi(7) by auto
  qed
qed

section \<open>The plan\<close>

lemma maximum_of_max: "maximum_of a b = max a b"
  by (auto simp: maximum_of_def max_def)

text \<open>A temperature a C \<^verbatim>\<open>int\<close> can hold, and its conversion to \<^verbatim>\<open>unsigned int\<close>.\<close>

lemma uint_celsius: "0 \<le> x \<Longrightarrow> x < 2147483648 \<Longrightarrow> uint (word_of_int x :: u32) = x"
  by (simp add: uint_word_of_int)

lemma celsius_mono: "0 \<le> x \<Longrightarrow> x \<le> y \<Longrightarrow> y < 2147483648 \<Longrightarrow> (word_of_int x :: u32) \<le> word_of_int y"
  by (simp add: word_le_def uint_celsius)

definition floor_rising :: "fan_curve_config \<Rightarrow> bool" where
  "floor_rising c \<longleftrightarrow> (system_cpu_floor_enabled c \<longrightarrow>
     system_cpu_floor_start_celsius c < system_cpu_floor_end_celsius c \<and>
     system_cpu_floor_start_pwm c \<le> system_cpu_floor_end_pwm c \<and> system_cpu_floor_end_pwm c \<le> 255)"

lemma validated:
  assumes "fan_curve_validate_config c = None"
  shows "40 \<le> minimum_pwm c" "minimum_pwm c \<le> failsafe_pwm c" "failsafe_pwm c \<le> 255"
    and "valid_pwm_points (system_pwm c) (minimum_pwm c)" "valid_pwm_points (cpu_pwm c) (minimum_pwm c)"
    and "rising (cfg_cpu c) (system_pwm c)" "rising (cfg_cpu c) (cpu_pwm c)"
    and "hdd_curve_enabled c \<Longrightarrow> rising (cfg_hdd c) (system_pwm c)"
    and "ssd_curve_enabled c \<Longrightarrow> rising (cfg_ssd c) (system_pwm c)"
    and "floor_rising c"
  using assms unfolding fan_curve_validate_config_def floor_rising_def
  by (auto simp: not_less not_le intro: valid_rising split: if_splits)

lemma floor_bound: "floor_rising c \<Longrightarrow> cpu_system_floor c x \<le> 255"
  using interpolate_bounds(2) [of "system_cpu_floor_start_celsius c" "system_cpu_floor_end_celsius c"
      "word_of_int x" "system_cpu_floor_start_pwm c" "system_cpu_floor_end_pwm c"]
  by (auto simp: cpu_system_floor_def floor_rising_def Let_def not_less not_le dest: less_imp_le intro: order.trans)

lemma floor_mono:
  assumes f: "floor_rising c" and v: "(word_of_int x :: u32) \<le> word_of_int y"
  shows "cpu_system_floor c x \<le> cpu_system_floor c y"
proof (cases "\<not> system_cpu_floor_enabled c \<or> (word_of_int x :: u32) < system_cpu_floor_start_celsius c")
  case True
  then show ?thesis by (auto simp: cpu_system_floor_def Let_def)
next
  case False
  then have o: "system_cpu_floor_start_celsius c < system_cpu_floor_end_celsius c"
    "system_cpu_floor_start_pwm c \<le> system_cpu_floor_end_pwm c"
    and x: "system_cpu_floor_start_celsius c \<le> word_of_int x"
    using f by (auto simp: floor_rising_def not_less)
  have y: "system_cpu_floor_start_celsius c \<le> word_of_int y" using x v by (rule order.trans)
  show ?thesis
    using False v o x y interpolate_mono [OF o(1) x v _ o(2)] interpolate_bounds(2) [OF o(1) x _ o(2)]
    by (auto simp: cpu_system_floor_def Let_def not_le)
qed

lemma source_bounds:
  assumes "rising t p" "valid_pwm_points p m"
  shows "m \<le> evaluate_source t p x" "evaluate_source t p x \<le> 255"
  using source_segments(1,2) [OF assms(1), of "word_of_int x"] assms(2)
  by (auto simp: evaluate_source_at valid_pwm_points_def)

lemma system_target_bounds:
  assumes "fan_curve_validate_config c = None"
  shows "minimum_pwm c \<le> system_target c s" "system_target c s \<le> 255"
  using validated [OF assms] floor_bound [OF validated(10) [OF assms]]
    source_bounds [OF validated(6) [OF assms] validated(4) [OF assms]]
    source_bounds [OF validated(8) [OF assms] validated(4) [OF assms]]
    source_bounds [OF validated(9) [OF assms] validated(4) [OF assms]]
  by (auto simp: system_target_def Let_def maximum_of_max le_max_iff_disj)

text \<open>
  \<^bold>\<open>C10.\<close>  Under a validated configuration the plan never leaves the safe range: for every
  snapshot both PWM values lie between the configured minimum (at least 40) and 255, and when
  the evaluation reports missing sensors both are exactly the failsafe PWM.
\<close>

theorem curve_plan_in_range:
  assumes "fan_curve_validate_config c = None"
    and "fan_curve_evaluate_plan c s = (r, plan)"
  shows "40 \<le> minimum_pwm c \<and> minimum_pwm c \<le> plan_cpu_pwm plan \<and> plan_cpu_pwm plan \<le> 255 \<and>
         minimum_pwm c \<le> plan_system_pwm plan \<and> plan_system_pwm plan \<le> 255 \<and>
         (r \<noteq> None \<longrightarrow> plan_cpu_pwm plan = failsafe_pwm c \<and> plan_system_pwm plan = failsafe_pwm c)"
  using assms(2) validated [OF assms(1)] system_target_bounds [OF assms(1), of s]
    source_bounds [OF validated(7) [OF assms(1)] validated(5) [OF assms(1)]]
  by (auto simp: fan_curve_evaluate_plan_def Let_def maximum_of_max split: if_splits)

theorem curve_plan_in_range_witness:
  "fan_curve_validate_config fan_curve_config_defaults = None \<and>
   (\<exists>plan. fan_curve_evaluate_plan fan_curve_config_defaults
       \<lparr>cpu_celsius = 62, hdd_celsius = 41, ssd_celsius = -1, cpu_peak_celsius = 66\<rparr> = (None, plan) \<and>
     64 \<le> plan_cpu_pwm plan \<and> plan_cpu_pwm plan \<le> 255)"
proof -
  let ?c = fan_curve_config_defaults
  let ?s = "\<lparr>cpu_celsius = 62, hdd_celsius = 41, ssd_celsius = -1, cpu_peak_celsius = 66\<rparr>"
  have ok: "fan_curve_validate_config ?c = None" by code_simp
  have "fst (fan_curve_evaluate_plan ?c ?s) = None" by code_simp
  then obtain plan where plan: "fan_curve_evaluate_plan ?c ?s = (None, plan)" by (metis prod.collapse)
  have "minimum_pwm ?c = 64" by (simp add: fan_curve_config_defaults_def)
  with curve_plan_in_range [OF ok plan] ok plan show ?thesis by auto
qed

text \<open>The temperatures a snapshot can hold, and one snapshot at least as hot as another.\<close>

definition hotter :: "thermal_snapshot \<Rightarrow> thermal_snapshot \<Rightarrow> bool" where
  "hotter s s' \<longleftrightarrow> fan_curve_cpu_celsius s \<le> fan_curve_cpu_celsius s' \<and>
     hdd_celsius s \<le> hdd_celsius s' \<and> ssd_celsius s \<le> ssd_celsius s' \<and>
     fan_curve_cpu_celsius s' < 2147483648 \<and> hdd_celsius s' < 2147483648 \<and> ssd_celsius s' < 2147483648"

lemma evaluate_source_mono:
  assumes "rising t p" "0 \<le> x" "x \<le> y" "y < 2147483648"
  shows "evaluate_source t p x \<le> evaluate_source t p y"
  unfolding evaluate_source_at by (rule source_mono [OF assms(1) celsius_mono [OF assms(2-)]])

lemma system_target_mono:
  assumes ok: "fan_curve_validate_config c = None" and hot: "hotter s s'"
    and cpu: "0 \<le> fan_curve_cpu_celsius s"
  shows "system_target c s \<le> system_target c s'"
proof -
  let ?x = "fan_curve_cpu_celsius s" and ?y = "fan_curve_cpu_celsius s'"
  have xy: "?x \<le> ?y" "?y < 2147483648" using hot by (auto simp: hotter_def)
  have cpu_part: "evaluate_source (cfg_cpu c) (system_pwm c) ?x \<le> evaluate_source (cfg_cpu c) (system_pwm c) ?y"
    by (rule evaluate_source_mono [OF validated(6) [OF ok] cpu xy])
  have floor_part: "cpu_system_floor c ?x \<le> cpu_system_floor c ?y"
    by (rule floor_mono [OF validated(10) [OF ok] celsius_mono [OF cpu xy]])
  have hdd_part: "evaluate_source (cfg_hdd c) (system_pwm c) (hdd_celsius s)
      \<le> evaluate_source (cfg_hdd c) (system_pwm c) (hdd_celsius s')"
    if "hdd_curve_enabled c" "0 \<le> hdd_celsius s"
    by (rule evaluate_source_mono [OF validated(8) [OF ok that(1)] that(2)]) (use hot in \<open>auto simp: hotter_def\<close>)
  have ssd_part: "evaluate_source (cfg_ssd c) (system_pwm c) (ssd_celsius s)
      \<le> evaluate_source (cfg_ssd c) (system_pwm c) (ssd_celsius s')"
    if "ssd_curve_enabled c" "0 \<le> ssd_celsius s"
    by (rule evaluate_source_mono [OF validated(9) [OF ok that(1)] that(2)]) (use hot in \<open>auto simp: hotter_def\<close>)
  show ?thesis
    using cpu_part floor_part hdd_part ssd_part hot
    unfolding system_target_def Let_def maximum_of_max hotter_def
    by (auto simp: le_max_iff_disj)
qed

text \<open>
  \<^bold>\<open>C11.\<close>  Hotter never means slower: if no temperature of the second snapshot is below the
  first (a sensor that is missing in the first may be present in the second) and both
  evaluations succeed, neither PWM of the second plan is below the first plan's.
\<close>

theorem curve_plan_monotone:
  assumes "fan_curve_validate_config c = None" "hotter s s'"
    and "fan_curve_evaluate_plan c s = (None, plan)" "fan_curve_evaluate_plan c s' = (None, plan')"
  shows "plan_cpu_pwm plan \<le> plan_cpu_pwm plan' \<and> plan_system_pwm plan \<le> plan_system_pwm plan'"
proof -
  have cpu: "0 \<le> fan_curve_cpu_celsius s"
    using assms(3) by (auto simp: fan_curve_evaluate_plan_def split: if_splits)
  have own: "evaluate_source (cfg_cpu c) (cpu_pwm c) (fan_curve_cpu_celsius s)
      \<le> evaluate_source (cfg_cpu c) (cpu_pwm c) (fan_curve_cpu_celsius s')"
    by (rule evaluate_source_mono [OF validated(7) [OF assms(1)] cpu])
      (use assms(2) in \<open>auto simp: hotter_def\<close>)
  show ?thesis
    using assms(3,4) own system_target_mono [OF assms(1,2) cpu]
    by (auto simp: fan_curve_evaluate_plan_def Let_def maximum_of_max le_max_iff_disj split: if_splits)
qed

theorem curve_plan_monotone_witness:
  "\<exists>plan plan'. fan_curve_evaluate_plan fan_curve_config_defaults
       \<lparr>cpu_celsius = 60, hdd_celsius = -1, ssd_celsius = 48, cpu_peak_celsius = -1\<rparr> = (None, plan) \<and>
     fan_curve_evaluate_plan fan_curve_config_defaults
       \<lparr>cpu_celsius = 60, hdd_celsius = 52, ssd_celsius = 48, cpu_peak_celsius = 61\<rparr> = (None, plan') \<and>
     plan_system_pwm plan \<le> plan_system_pwm plan'"
proof -
  let ?c = fan_curve_config_defaults
  let ?s = "\<lparr>cpu_celsius = 60, hdd_celsius = -1, ssd_celsius = 48, cpu_peak_celsius = -1\<rparr> :: thermal_snapshot"
  let ?t = "\<lparr>cpu_celsius = 60, hdd_celsius = 52, ssd_celsius = 48, cpu_peak_celsius = 61\<rparr> :: thermal_snapshot"
  have "fan_curve_validate_config ?c = None" "hotter ?s ?t"
    "fst (fan_curve_evaluate_plan ?c ?s) = None" "fst (fan_curve_evaluate_plan ?c ?t) = None"
    by code_simp+
  then show ?thesis
    using curve_plan_monotone [of ?c ?s ?t "snd (fan_curve_evaluate_plan ?c ?s)" "snd (fan_curve_evaluate_plan ?c ?t)"]
    by (metis prod.collapse)
qed

text \<open>
  \<^bold>\<open>C12.\<close>  The machine arithmetic is exact: below the maximum threshold a validated curve takes
  the value of the linear interpolation between its points computed on natural numbers, so no
  subtraction, product or sum wraps; at and above the maximum threshold it is the maximum point.
\<close>

theorem evaluate_source_exact:
  assumes "valid_thresholds t" "valid_pwm_points p m" "0 \<le> x" "x < 2147483648"
  shows "unat (evaluate_source t p x) =
    (if x \<le> uint (th_start t) then unat (pt_idle p)
     else if x < uint (th_mid t) then
       ramp (unat (th_start t)) (unat (th_mid t)) (unat (pt_idle p)) (unat (pt_mid p)) (nat x)
     else if x < uint (th_full t) then
       ramp (unat (th_mid t)) (unat (th_full t)) (unat (pt_mid p)) (unat (pt_full p)) (nat x)
     else if x < uint (th_maximum t) then
       ramp (unat (th_full t)) (unat (th_maximum t)) (unat (pt_full p)) (unat (pt_maximum p)) (nat x)
     else unat (pt_maximum p))"
proof -
  have u: "uint (word_of_int x :: u32) = x" using assms(3,4) by (rule uint_celsius)
  then have n: "unat (word_of_int x :: u32) = nat x" by (metis unat_eq_nat_uint)
  have o: "th_start t < th_mid t" "th_mid t < th_full t" "th_full t < th_maximum t"
    "pt_idle p \<le> pt_mid p" "pt_mid p \<le> pt_full p" "pt_full p \<le> pt_maximum p"
    using valid_rising [OF assms(1,2)] by (simp_all add: rising_def)
  have le: "(word_of_int x :: u32) \<le> w \<longleftrightarrow> x \<le> uint w" "(word_of_int x :: u32) < w \<longleftrightarrow> x < uint w" for w
    by (simp_all add: word_le_def word_less_def u)
  note exact = interpolate_exact [OF o(1) _ _ o(4), of "word_of_int x"]
    interpolate_exact [OF o(2) _ _ o(5), of "word_of_int x"]
    interpolate_exact [OF o(3) _ _ o(6), of "word_of_int x"]
  show ?thesis
    using exact unfolding evaluate_source_def Let_def n
    by (auto simp: le not_le not_less word_le_def u)
qed

theorem evaluate_source_exact_witness:
  "evaluate_source (thresholds 50 55 75 80 90) (pwm_points 64 128 204 255) 68 = 105"
proof -
  have "unat (evaluate_source (thresholds 50 55 75 80 90) (pwm_points 64 128 204 255) 68) = 105"
    using evaluate_source_exact [of "thresholds 50 55 75 80 90" "pwm_points 64 128 204 255" 64 68]
    by (simp add: valid_thresholds_def valid_pwm_points_def THERMAL_MAX_CELSIUS_def ramp_def)
  then show ?thesis by (simp add: word_unat_eq_iff)
qed

end
