(* ===== verification/Thermal_Config.thy ===== *)
theory Thermal_Config
  imports Thermal_Curve
begin

text \<open>
  The configuration file of the fan curve (\<^verbatim>\<open>ugreenctl_fan_curve_load_config\<close> and its parsers in
  \<^verbatim>\<open>fan/thermal_curve.c\<close>): \<^verbatim>\<open>key = value\<close> lines read with \<^verbatim>\<open>fgets\<close> into a 256-byte buffer, so a
  longer line is processed in pieces; a read error ends the file like end of file does.
\<close>

section \<open>Parsers\<close>

definition thermal_parse_unsigned :: "string \<Rightarrow> errno + u32" where
  "thermal_parse_unsigned text =
     (let (parsed, end, erange) = strtoul10 text in
      if erange \<or> text = [] \<or> end \<noteq> [] \<or> parsed > 4294967295 then Inl EINVAL else Inr (ucast parsed))"

definition parse_boolean :: "string \<Rightarrow> errno + bool" where
  "parse_boolean text =
     (if text = ''true'' \<or> text = ''1'' then Inr True
      else if text = ''false'' \<or> text = ''0'' then Inr False
      else Inl EINVAL)"

text \<open>The \<^verbatim>\<open>strsep\<close> loop with its array of \<open>limit\<close> values.\<close>

fun parse_parts :: "nat \<Rightarrow> string list \<Rightarrow> u32 list \<Rightarrow> errno + u32 list" where
  "parse_parts limit [] values = Inr values"
| "parse_parts limit (part # parts) values =
     (if length values \<ge> limit then Inl EINVAL
      else (case thermal_parse_unsigned part of Inl _ \<Rightarrow> Inl EINVAL
            | Inr v \<Rightarrow> parse_parts limit parts (values @ [v])))"

definition parse_thresholds :: "string \<Rightarrow> errno + curve_thresholds" where
  "parse_thresholds text =
     (if length text \<ge> 96 then Inl EINVAL
      else (case parse_parts 5 (split_on (CHR '','') text) [] of Inl e \<Rightarrow> Inl e
            | Inr [a, b, c, d, e] \<Rightarrow> Inr (thresholds a b c d e)
            | Inr _ \<Rightarrow> Inl EINVAL))"

definition parse_pwm_points :: "string \<Rightarrow> errno + curve_pwm_points" where
  "parse_pwm_points text =
     (if length text \<ge> 96 then Inl EINVAL
      else (case parse_parts 4 (split_on (CHR '','') text) [] of Inl e \<Rightarrow> Inl e
            | Inr [a, b, c, d] \<Rightarrow> Inr (pwm_points a b c d)
            | Inr _ \<Rightarrow> Inl EINVAL))"

definition trim :: "string \<Rightarrow> string" where
  "trim text = rstrip isspace (dropWhile isspace text)"

section \<open>Loading\<close>

text \<open>\<^verbatim>\<open>if (parse(value_text, &field) != 0) goto invalid_value;\<close>\<close>

definition set_field :: "errno + 'a \<Rightarrow> ('a \<Rightarrow> fan_curve_config) \<Rightarrow> errno + fan_curve_config" where
  "set_field r upd = (case r of Inl _ \<Rightarrow> Inl EINVAL | Inr v \<Rightarrow> Inr (upd v))"

definition set_key :: "string \<Rightarrow> string \<Rightarrow> fan_curve_config \<Rightarrow> errno + fan_curve_config" where
  "set_key key v c =
     (if key = ''profile'' then (if length v \<ge> 24 then Inl EINVAL else Inr (c\<lparr>profile := v\<rparr>))
      else if key = ''interval_seconds'' then set_field (thermal_parse_unsigned v) (\<lambda>x. c\<lparr>interval_seconds := x\<rparr>)
      else if key = ''downshift_delay_seconds'' then
        set_field (thermal_parse_unsigned v) (\<lambda>x. c\<lparr>downshift_delay_seconds := x\<rparr>)
      else if key = ''minimum_pwm'' then set_field (thermal_parse_unsigned v) (\<lambda>x. c\<lparr>minimum_pwm := x\<rparr>)
      else if key = ''failsafe_pwm'' then set_field (thermal_parse_unsigned v) (\<lambda>x. c\<lparr>failsafe_pwm := x\<rparr>)
      else if key = ''require_storage_sensor'' then
        set_field (parse_boolean v) (\<lambda>x. c\<lparr>require_storage_sensor := x\<rparr>)
      else if key = ''allow_unvalidated_writes'' then
        set_field (parse_boolean v) (\<lambda>x. c\<lparr>allow_unvalidated_writes := x\<rparr>)
      else if key = ''hdd_curve_enabled'' then set_field (parse_boolean v) (\<lambda>x. c\<lparr>hdd_curve_enabled := x\<rparr>)
      else if key = ''ssd_curve_enabled'' then set_field (parse_boolean v) (\<lambda>x. c\<lparr>ssd_curve_enabled := x\<rparr>)
      else if key = ''cpu'' then set_field (parse_thresholds v) (\<lambda>x. c\<lparr>cfg_cpu := x\<rparr>)
      else if key = ''hdd'' then set_field (parse_thresholds v) (\<lambda>x. c\<lparr>cfg_hdd := x\<rparr>)
      else if key = ''ssd'' then set_field (parse_thresholds v) (\<lambda>x. c\<lparr>cfg_ssd := x\<rparr>)
      else if key = ''pwm'' then set_field (parse_pwm_points v) (\<lambda>x. c\<lparr>cfg_pwm := x\<rparr>)
      else Inr c)"

definition apply_line :: "string \<Rightarrow> fan_curve_config \<Rightarrow> errno + fan_curve_config" where
  "apply_line line c =
     (let key = trim (c_str line) in
      if key = [] \<or> hd key = CHR ''#'' \<or> hd key = CHR '';'' then Inr c
      else (case strchr (CHR ''='') key of
              None \<Rightarrow> Inl EINVAL
            | Some (k, v) \<Rightarrow> set_key (trim k) (trim v) c))"

fun apply_lines :: "string list \<Rightarrow> fan_curve_config \<Rightarrow> errno + fan_curve_config" where
  "apply_lines [] c = Inr c"
| "apply_lines (line # lines) c =
     (case apply_line line c of Inl e \<Rightarrow> Inl e | Inr c' \<Rightarrow> apply_lines lines c')"

definition finish_config :: "fan_curve_config \<Rightarrow> errno + fan_curve_config" where
  "finish_config c =
     (if \<not> profile_is_valid (profile c) then Inl EINVAL
      else
        let c = (if profile c = ''custom'' then c\<lparr>system_pwm := cfg_pwm c, cpu_pwm := cfg_pwm c\<rparr>
                 else apply_stock_profile c)
        in (case fan_curve_validate_config c of Some e \<Rightarrow> Inl e | None \<Rightarrow> Inr c))"

definition parse_config :: "file_read \<Rightarrow> errno + fan_curve_config" where
  "parse_config r =
     (case r of Open_failed e \<Rightarrow> Inl e
      | File_data s err \<Rightarrow>
          (case apply_lines (fgets_lines 255 (err \<noteq> None) s) fan_curve_config_defaults of
             Inl e \<Rightarrow> Inl e | Inr c \<Rightarrow> finish_config c))"

definition fan_curve_load_config :: "env \<Rightarrow> string \<Rightarrow> (errno + fan_curve_config) io" where
  "fan_curve_load_config E path = do { r \<leftarrow> read_file E path; ret (parse_config r) }"

section \<open>Stock profiles\<close>

text \<open>
  Every stock profile is consistent: whatever curve points the file gave, a
  configuration that names a stock profile and has timing values and a failsafe PWM in range
  is valid once the profile's points are applied.
\<close>

theorem stock_profiles_validate:
  assumes "profile_is_valid (profile c)" "profile c \<noteq> ''custom''"
    and "2 \<le> interval_seconds c" "interval_seconds c \<le> 300" "downshift_delay_seconds c \<le> 3600"
    and "40 \<le> failsafe_pwm c" "failsafe_pwm c \<le> 255"
  shows "fan_curve_validate_config (apply_stock_profile c) = None"
proof -
  have range: "\<not> interval_seconds c < 2" "\<not> 300 < interval_seconds c" "\<not> 3600 < downshift_delay_seconds c"
    "\<not> failsafe_pwm c < 40" "\<not> 255 < failsafe_pwm c"
    using assms(3-7) by (simp_all add: not_less)
  have "profile c \<in> {''stock-4600'', ''stock-4800'', ''stock-4800s'', ''stock-4800plus'',
      ''stock-480tplus'', ''stock-6800pro'', ''stock-6800plus'', ''stock-6800''}"
    using assms(1,2) unfolding profile_is_valid_def by (simp only: insert_iff simp_thms)
  then show ?thesis
    by (elim insertE emptyE)
      (simp_all add: range profile_is_valid_def apply_stock_profile_def stock_points_def Let_def
        fan_curve_validate_config_def valid_thresholds_def valid_pwm_points_def THERMAL_MAX_CELSIUS_def)
qed

theorem stock_profiles_validate_witness:
  "fan_curve_validate_config (apply_stock_profile (fan_curve_config_defaults\<lparr>profile := ''stock-480tplus''\<rparr>)) = None"
  by (rule stock_profiles_validate) code_simp+

text \<open>
  \<^bold>\<open>C13.\<close>  What the loader accepts is safe to use: a configuration it returns has passed
  validation, and under the custom profile both channels use the shared PWM points while under
  a stock profile the minimum PWM is 40 whatever the file says.
\<close>

theorem load_config_validated:
  assumes "run_state (fan_curve_load_config E path) h = (Inr c, h')"
  shows "fan_curve_validate_config c = None \<and>
         (if profile c = ''custom'' then system_pwm c = cfg_pwm c \<and> cpu_pwm c = cfg_pwm c
          else minimum_pwm c = 40 \<and> cfg_pwm c = system_pwm c)"
proof -
  from assms obtain c0 where c: "finish_config c0 = Inr c"
    by (auto simp: fan_curve_load_config_def calls parse_config_def split: file_read.splits sum.splits)
  have stock: "profile (apply_stock_profile x) = profile x" "minimum_pwm (apply_stock_profile x) = 40"
    "cfg_pwm (apply_stock_profile x) = system_pwm (apply_stock_profile x)" for x
    by (simp_all add: apply_stock_profile_def stock_points_def Let_def)
  show ?thesis
    using c stock by (auto simp: finish_config_def Let_def split: if_splits option.splits)
qed

definition example_config_env :: env where
  "example_config_env = null_env\<lparr>
     e_read := (\<lambda>_ _. File_data (''profile = stock-4800'' @ [CHR 0x0A] @ ''minimum_pwm=90'') None)\<rparr>"

theorem load_config_validated_witness:
  "\<exists>c h'. run_state (fan_curve_load_config example_config_env ''/etc/fan.conf'') [] = (Inr c, h') \<and>
     fan_curve_validate_config c = None \<and> minimum_pwm c = 40"
proof -
  let ?r = "run_state (fan_curve_load_config example_config_env ''/etc/fan.conf'') []"
  have "(case fst ?r of Inl _ \<Rightarrow> False | Inr c \<Rightarrow> profile c = ''stock-4800'')" by code_simp
  then obtain c h' where r: "?r = (Inr c, h')" and "profile c = ''stock-4800''"
    by (cases ?r) (auto split: sum.splits)
  with load_config_validated [OF r] show ?thesis by auto
qed

section \<open>Every custom configuration can be written down\<close>

definition print_bool :: "bool \<Rightarrow> string" where
  "print_bool b = (if b then ''true'' else ''false'')"

definition print_list :: "u32 list \<Rightarrow> string" where
  "print_list vs = concat (map (\<lambda>v. CHR '','' # dec (unat v)) vs)"

definition print_thresholds :: "curve_thresholds \<Rightarrow> string" where
  "print_thresholds t =
     dec (unat (th_stop t)) @ print_list [th_start t, th_mid t, th_full t, th_maximum t]"

definition print_pwm_points :: "curve_pwm_points \<Rightarrow> string" where
  "print_pwm_points p = dec (unat (pt_idle p)) @ print_list [pt_mid p, pt_full p, pt_maximum p]"

definition config_fields :: "fan_curve_config \<Rightarrow> (string \<times> string) list" where
  "config_fields c =
     [(''profile'', profile c), (''interval_seconds'', dec (unat (interval_seconds c))),
      (''downshift_delay_seconds'', dec (unat (downshift_delay_seconds c))),
      (''minimum_pwm'', dec (unat (minimum_pwm c))), (''failsafe_pwm'', dec (unat (failsafe_pwm c))),
      (''require_storage_sensor'', print_bool (require_storage_sensor c)),
      (''allow_unvalidated_writes'', print_bool (allow_unvalidated_writes c)),
      (''hdd_curve_enabled'', print_bool (hdd_curve_enabled c)),
      (''ssd_curve_enabled'', print_bool (ssd_curve_enabled c)),
      (''cpu'', print_thresholds (cfg_cpu c)), (''hdd'', print_thresholds (cfg_hdd c)),
      (''ssd'', print_thresholds (cfg_ssd c)), (''pwm'', print_pwm_points (cfg_pwm c))]"

definition print_config :: "fan_curve_config \<Rightarrow> string" where
  "print_config c = concat (map (\<lambda>l. l @ [CHR 0x0A]) (map (\<lambda>(k, v). k @ ''='' @ v) (config_fields c)))"

lemma parse_unsigned_dec [simp]: "thermal_parse_unsigned (dec (unat x)) = Inr x"
proof -
  let ?w = "of_nat (unat x) :: u64"
  have n: "unat x < 4294967296" by simp
  then have parse: "strtoul10 (dec (unat x)) = (?w, [], False)"
    by (intro strtoul10_dec) (simp add: less_trans [OF n])
  have w: "unat ?w = unat x" by (intro unat_of_nat_u64 less_trans [OF n]) simp
  then have "\<not> ?w > 4294967295"
    unfolding word_less_unat by simp (use n in linarith)
  moreover have "ucast ?w = x"
    using unat_ucast_64_32 [of ?w] w n by (simp add: word_unat_eq_iff)
  ultimately show ?thesis using parse by (simp add: thermal_parse_unsigned_def)
qed

lemma split_print_list:
  "d \<notin> set s \<Longrightarrow> d = CHR '','' \<Longrightarrow> split_on d (s @ print_list vs) = s # map (\<lambda>v. dec (unat v)) vs"
proof (induction vs arbitrary: s)
  case Nil
  then show ?case by (simp add: print_list_def split_on_no_sep)
next
  case (Cons v vs)
  have "split_on d (s @ d # dec (unat v) @ print_list vs) = s # split_on d (dec (unat v) @ print_list vs)"
    using Cons.prems by (intro split_on_append)
  moreover have "split_on d (dec (unat v) @ print_list vs) = dec (unat v) # map (\<lambda>v. dec (unat v)) vs"
    using Cons.prems by (intro Cons.IH dec_not_in) (auto simp: isdigit_def)
  ultimately show ?case using Cons.prems by (simp add: print_list_def)
qed

lemma dec_u32_length: "length (dec (unat (x :: u32))) \<le> 10"
  by (rule dec_length) (simp_all add: less_trans [OF u32_less])

lemma print_list_length: "length (print_list vs) \<le> 11 * length vs"
proof (induction vs)
  case (Cons v vs)
  then show ?case using dec_u32_length [of v] by (simp add: print_list_def)
qed (simp add: print_list_def)

lemma comma_dec: "CHR '','' \<notin> set (dec n)"
  by (rule dec_not_in) (simp add: isdigit_def)

lemma parse_print_thresholds [simp]: "parse_thresholds (print_thresholds t) = Inr t"
  using dec_u32_length [of "th_stop t"] print_list_length [of "[th_start t, th_mid t, th_full t, th_maximum t]"]
  unfolding parse_thresholds_def print_thresholds_def split_print_list [OF comma_dec refl]
  by simp

lemma parse_print_pwm_points [simp]: "parse_pwm_points (print_pwm_points p) = Inr p"
  using dec_u32_length [of "pt_idle p"] print_list_length [of "[pt_mid p, pt_full p, pt_maximum p]"]
  unfolding parse_pwm_points_def print_pwm_points_def split_print_list [OF comma_dec refl]
  by simp

lemma parse_print_bool [simp]: "parse_boolean (print_bool b) = Inr b"
  by (simp add: parse_boolean_def print_bool_def)

text \<open>Texts without white space and NUL survive trimming.\<close>

definition plain :: "string \<Rightarrow> bool" where
  "plain s \<longleftrightarrow> (\<forall>c \<in> set s. \<not> isspace c \<and> c \<noteq> CHR 0x00)"

lemma plain_append [simp]: "plain (a @ b) \<longleftrightarrow> plain a \<and> plain b"
  by (auto simp: plain_def)

lemma plain_dec [simp]: "plain (dec n)"
  using isdigit_not_space by (auto simp: plain_def isdigit_def dest!: dec_digits)

lemma plain_print_list [simp]: "plain (print_list vs)"
  using plain_dec by (fastforce simp: plain_def print_list_def isspace_def)

lemma plain_bool [simp]: "plain (print_bool b)"
  by (auto simp: plain_def print_bool_def isspace_def)

lemma plain_strip:
  assumes "plain s"
  shows "dropWhile isspace (s @ [c]) = (if s = [] then dropWhile isspace [c] else s @ [c])"
    and "dropWhile isspace s = s" "rstrip isspace s = s"
proof -
  show "dropWhile isspace (s @ [c]) = (if s = [] then dropWhile isspace [c] else s @ [c])"
    "dropWhile isspace s = s"
    using assms by (cases s; simp add: plain_def)+
  show "rstrip isspace s = s" using assms by (intro rstrip_all) (simp add: plain_def)
qed

lemma trim_plain: "plain s \<Longrightarrow> trim s = s"
  by (simp add: trim_def plain_strip)

lemma rstrip_newline: "rstrip isspace (s @ [CHR 0x0A]) = rstrip isspace s"
  by (simp add: rstrip_def isspace_def)

lemma trim_line: "plain s \<Longrightarrow> trim (s @ [CHR 0x0A]) = s"
  unfolding trim_def by (simp add: plain_strip rstrip_newline) (simp add: rstrip_def isspace_def)

lemma apply_line_field:
  assumes "plain k" "plain v" "k \<noteq> []" "hd k \<noteq> CHR ''#''" "hd k \<noteq> CHR '';''" "CHR ''='' \<notin> set k"
  shows "apply_line (k @ ''='' @ v @ [CHR 0x0A]) c = set_key k v c"
proof -
  let ?s = "k @ ''='' @ v"
  have pl: "plain ?s" using assms by (auto simp: plain_def isspace_def)
  then have "c_str (?s @ [CHR 0x0A]) = ?s @ [CHR 0x0A]"
    unfolding c_str_def plain_def by (intro takeWhile_eq_all_conv [THEN iffD2]) auto
  then have t: "trim (c_str (k @ ''='' @ v @ [CHR 0x0A])) = ?s"
    using trim_line [OF pl] by simp
  have f: "strchr (CHR ''='') ?s = Some (k, v)"
  proof -
    have "takeWhile (\<lambda>x. x \<noteq> CHR ''='') ?s = k" "dropWhile (\<lambda>x. x \<noteq> CHR ''='') ?s = CHR ''='' # v"
      using assms(6) by (auto simp: takeWhile_append dropWhile_append)
    then show ?thesis by (simp add: strchr_def)
  qed
  show ?thesis
    unfolding apply_line_def Let_def t using f assms
    by (simp add: trim_plain hd_append)
qed

lemma config_fields_plain:
  "plain (profile c) \<Longrightarrow> (k, v) \<in> set (config_fields c) \<Longrightarrow>
   plain k \<and> plain v \<and> k \<noteq> [] \<and> hd k \<noteq> CHR ''#'' \<and> hd k \<noteq> CHR '';'' \<and> CHR ''='' \<notin> set k"
  unfolding config_fields_def print_thresholds_def print_pwm_points_def
  by (auto simp: plain_def [of "_ # _"] plain_def [of "[]"] isspace_def)

fun set_keys :: "(string \<times> string) list \<Rightarrow> fan_curve_config \<Rightarrow> errno + fan_curve_config" where
  "set_keys [] c = Inr c"
| "set_keys ((k, v) # fs) c = (case set_key k v c of Inl e \<Rightarrow> Inl e | Inr c' \<Rightarrow> set_keys fs c')"

lemma apply_lines_fields:
  assumes "\<And>k v. (k, v) \<in> set fs \<Longrightarrow> plain k \<and> plain v \<and> k \<noteq> [] \<and> hd k \<noteq> CHR ''#'' \<and>
             hd k \<noteq> CHR '';'' \<and> CHR ''='' \<notin> set k"
  shows "apply_lines (map (\<lambda>l. l @ [CHR 0x0A]) (map (\<lambda>(k, v). k @ ''='' @ v) fs)) c = set_keys fs c"
  using assms
proof (induction fs arbitrary: c)
  case (Cons f fs)
  obtain k v where f: "f = (k, v)" by fastforce
  have "apply_line (k @ ''='' @ v @ [CHR 0x0A]) c = set_key k v c"
    by (rule apply_line_field) (use Cons.prems [of k v] f in auto)
  with Cons f show ?case by (auto split: sum.splits)
qed simp

lemma config_line_length:
  assumes "length (profile c) < 24" "(k, v) \<in> set (config_fields c)"
  shows "length (k @ ''='' @ v) < 255"
proof -
  have b: "length (print_bool x) \<le> 5" for x by (simp add: print_bool_def)
  have t: "length (print_thresholds x) \<le> 54" for x
    using dec_u32_length [of "th_stop x"] print_list_length [of "[th_start x, th_mid x, th_full x, th_maximum x]"]
    by (simp add: print_thresholds_def)
  have q: "length (print_pwm_points x) \<le> 54" for x
    using dec_u32_length [of "pt_idle x"] print_list_length [of "[pt_mid x, pt_full x, pt_maximum x]"]
    by (simp add: print_pwm_points_def)
  have d: "length (dec (unat (x :: u32))) < 12" for x using dec_u32_length [of x] by simp
  show ?thesis
    using assms le_less_trans [OF b] le_less_trans [OF t] le_less_trans [OF q] less_trans [OF d]
    unfolding config_fields_def by auto
qed

text \<open>The fields a file cannot set, as the loader leaves them under the custom profile.\<close>

definition custom_config :: "fan_curve_config \<Rightarrow> bool" where
  "custom_config c \<longleftrightarrow>
     profile c = ''custom'' \<and> system_pwm c = cfg_pwm c \<and> cpu_pwm c = cfg_pwm c \<and>
     \<not> system_cpu_floor_enabled c \<and> system_cpu_floor_start_celsius c = 0 \<and>
     system_cpu_floor_end_celsius c = 0 \<and> system_cpu_floor_start_pwm c = 0 \<and>
     system_cpu_floor_end_pwm c = 0"

lemma set_keys_custom:
  assumes "custom_config c"
  shows "set_keys (config_fields c) fan_curve_config_defaults =
           Inr (c\<lparr>system_pwm := pwm_points 64 128 204 255, cpu_pwm := pwm_points 64 128 204 255\<rparr>)"
  using assms
  by (cases c) (simp add: config_fields_def set_key_def set_field_def fan_curve_config_defaults_def
      custom_config_def)

text \<open>
  \<^bold>\<open>C14.\<close>  Every valid custom configuration has a file: printing its fields as \<^verbatim>\<open>key=value\<close>
  lines and loading that text gives back exactly the same configuration.
\<close>

theorem custom_config_round_trip:
  assumes "custom_config c" "fan_curve_validate_config c = None"
  shows "parse_config (File_data (print_config c) None) = Inr c"
proof -
  have custom: "profile c = ''custom''" using assms(1) unfolding custom_config_def by blast
  have prof: "plain (profile c)" "length (profile c) < 24"
    unfolding custom by code_simp+
  have lines: "length l < 255 \<and> CHR 0x0A \<notin> set l"
    if "l \<in> set (map (\<lambda>(k, v). k @ ''='' @ v) (config_fields c))" for l
  proof -
    from that obtain k v where l: "l = k @ ''='' @ v" and kv: "(k, v) \<in> set (config_fields c)" by auto
    have "plain k" "plain v" using config_fields_plain [OF prof(1) kv] by auto
    moreover have "isspace (CHR 0x0A)" by code_simp
    ultimately have "CHR 0x0A \<notin> set k" "CHR 0x0A \<notin> set v" unfolding plain_def by blast+
    then have "CHR 0x0A \<notin> set l" unfolding l by simp
    with config_line_length [OF prof(2) kv] l show ?thesis by simp
  qed
  have split: "fgets_lines 255 False (print_config c) =
      map (\<lambda>l. l @ [CHR 0x0A]) (map (\<lambda>(k, v). k @ ''='' @ v) (config_fields c))"
    unfolding print_config_def by (rule fgets_lines_unlines) (rule lines)
  have "apply_lines (fgets_lines 255 False (print_config c)) fan_curve_config_defaults =
      set_keys (config_fields c) fan_curve_config_defaults"
    unfolding split by (rule apply_lines_fields) (use config_fields_plain [OF prof(1)] in blast)
  then have "parse_config (File_data (print_config c) None) =
      finish_config (c\<lparr>system_pwm := pwm_points 64 128 204 255, cpu_pwm := pwm_points 64 128 204 255\<rparr>)"
    by (simp add: parse_config_def set_keys_custom [OF assms(1)])
  also have "\<dots> = Inr c"
  proof -
    have same: "c\<lparr>system_pwm := cfg_pwm c, cpu_pwm := cfg_pwm c\<rparr> = c"
      using assms(1) by (cases c) (simp add: custom_config_def)
    show ?thesis
      using assms by (simp add: finish_config_def custom_config_def profile_is_valid_def same)
  qed
  finally show ?thesis .
qed

theorem custom_config_round_trip_witness:
  "parse_config (File_data (print_config (fan_curve_config_defaults\<lparr>hdd_curve_enabled := False, minimum_pwm := 60\<rparr>)) None) =
     Inr (fan_curve_config_defaults\<lparr>hdd_curve_enabled := False, minimum_pwm := 60\<rparr>)"
  by (rule custom_config_round_trip) code_simp+

end
