(* ===== verification/Thermal_Sensors.thy ===== *)
theory Thermal_Sensors
  imports Thermal_Curve
begin

text \<open>
  Reading temperatures (the sensor half of \<^verbatim>\<open>fan/thermal_curve.c\<close>): hwmon files for CPU, HDD
  and SSD, and, when no \<^verbatim>\<open>drivetemp\<close> node exists, ATA SMART data through \<^verbatim>\<open>SG_IO\<close>, which is only
  requested from a drive that reports it is spinning.  Byte buffers are lists; the walk over the
  sense descriptors checks every access, so that staying inside the buffer is a theorem.
\<close>

unbundle bit_operations_syntax

section \<open>Files and names\<close>

definition thermal_hwmon_root :: "env \<Rightarrow> string" where
  "thermal_hwmon_root E = env_or E ''UGREENCTL_THERMAL_HWMON_ROOT'' ''/sys/class/hwmon''"

definition thermal_block_root :: "env \<Rightarrow> string" where
  "thermal_block_root E = env_or E ''UGREENCTL_THERMAL_BLOCK_ROOT'' ''/sys/block''"

definition thermal_device_root :: "env \<Rightarrow> string" where
  "thermal_device_root E = env_or E ''UGREENCTL_THERMAL_DEVICE_ROOT'' ''/dev''"

definition is_hwmon_directory :: "string \<Rightarrow> bool" where
  "is_hwmon_directory name \<longleftrightarrow>
     starts_with ''hwmon'' name \<and> drop 5 name \<noteq> [] \<and> list_all isdigit (drop 5 name)"

text \<open>\<^verbatim>\<open>snprintf\<close> into a \<^verbatim>\<open>PATH_MAX\<close> buffer; \<open>None\<close> when the text does not fit.\<close>

definition fit_path :: "string \<Rightarrow> string option" where
  "fit_path p = (if length p \<ge> PATH_MAX then None else Some p)"

definition thermal_build_path :: "string \<Rightarrow> string \<Rightarrow> string option" where
  "thermal_build_path directory name = fit_path (directory @ ''/'' @ name)"

text \<open>One \<^verbatim>\<open>fgets\<close> into a buffer of \<open>n\<close> bytes, trailing white space removed.\<close>

definition first_line :: "nat \<Rightarrow> file_read \<Rightarrow> errno + string" where
  "first_line n r =
     (case r of Open_failed e \<Rightarrow> Inl e
      | File_data s err \<Rightarrow>
          (case fgets_lines (n - 1) (err \<noteq> None) s of
             [] \<Rightarrow> Inl (case err of Some e \<Rightarrow> e | None \<Rightarrow> EIO)
           | line # _ \<Rightarrow> Inr (rstrip isspace (c_str line))))"

definition read_text :: "env \<Rightarrow> string \<Rightarrow> nat \<Rightarrow> (errno + string) io" where
  "read_text E path n =
     (if n < 2 then fail EINVAL else do { r \<leftarrow> read_file E path; ret (first_line n r) })"

definition parse_celsius :: "string \<Rightarrow> errno + int" where
  "parse_celsius text =
     (let (v, end, erange) = strtol10 text in
      if erange \<or> text = [] \<or> end \<noteq> [] \<or> v < 0 \<or> v > 200000 then Inl EINVAL
      else let v = (if v > 1000 then v div 1000 else v) in
        if v > 125 then Inl ERANGE else Inr v)"

definition read_temperature_celsius :: "env \<Rightarrow> string \<Rightarrow> (errno + int) io" where
  "read_temperature_celsius E path = bindE (read_text E path 64) (\<lambda>text. ret (parse_celsius text))"

definition is_cpu_hwmon :: "string \<Rightarrow> bool" where
  "is_cpu_hwmon name \<longleftrightarrow> name \<in> {''coretemp'', ''k8temp'', ''k10temp'', ''zenpower''}"

definition is_hdd_hwmon :: "string \<Rightarrow> bool" where
  "is_hdd_hwmon name \<longleftrightarrow> name = ''drivetemp''"

definition is_ssd_hwmon :: "string \<Rightarrow> bool" where
  "is_ssd_hwmon name \<longleftrightarrow> name = ''nvme'' \<or> name = ''nvme-pci''"

section \<open>hwmon temperatures\<close>

fun first_temperature :: "env \<Rightarrow> string list \<Rightarrow> (int option) io" where
  "first_temperature E [] = ret None"
| "first_temperature E (path # paths) = do {
     r \<leftarrow> read_temperature_celsius E path;
     (case r of Inr t \<Rightarrow> ret (Some t) | Inl _ \<Rightarrow> first_temperature E paths) }"

text \<open>\<open>Some t\<close> is \<^verbatim>\<open>return true\<close> with the output set.\<close>

definition collect_first_hwmon_temperature :: "env \<Rightarrow> string \<Rightarrow> (int option) io" where
  "collect_first_hwmon_temperature E directory =
     (case fit_path (directory @ ''/temp*_input'') of None \<Rightarrow> ret None
      | Some pattern \<Rightarrow> do {
          m \<leftarrow> glob E pattern;
          (case m of None \<Rightarrow> ret None | Some paths \<Rightarrow> first_temperature E paths) })"

fun hottest_of :: "env \<Rightarrow> string \<Rightarrow> string list \<Rightarrow> int \<Rightarrow> int io" where
  "hottest_of E directory [] maximum = ret maximum"
| "hottest_of E directory (name # names) maximum =
     (if \<not> starts_with ''temp'' name \<or> \<not> contains ''_input'' name then hottest_of E directory names maximum
      else (case thermal_build_path directory name of
              None \<Rightarrow> hottest_of E directory names maximum
            | Some path \<Rightarrow> do {
                r \<leftarrow> read_temperature_celsius E path;
                (case r of Inl _ \<Rightarrow> hottest_of E directory names maximum
                 | Inr t \<Rightarrow> hottest_of E directory names (if t > maximum then t else maximum)) }))"

definition collect_hottest_hwmon_temperature :: "env \<Rightarrow> string \<Rightarrow> int \<Rightarrow> int io" where
  "collect_hottest_hwmon_temperature E directory maximum = do {
     d \<leftarrow> list_dir E directory;
     (case d of Inl _ \<Rightarrow> ret maximum | Inr names \<Rightarrow> hottest_of E directory names maximum) }"

section \<open>ATA SMART\<close>

text \<open>The loop over the 30 attributes of the page.\<close>

fun smart_scan :: "u8 list \<Rightarrow> nat list \<Rightarrow> int \<Rightarrow> errno + int" where
  "smart_scan data [] airflow = (if airflow \<ge> 0 then Inr airflow else Inl ENODATA)"
| "smart_scan data (index # indices) airflow =
     (let offset = 2 + index * 12; attribute = data ! offset; v = unat (data ! (offset + 5)) in
      if v = 0 \<or> v > 125 then smart_scan data indices airflow
      else if attribute = 194 then Inr (int v)
      else if attribute = 190 then smart_scan data indices (int v)
      else smart_scan data indices airflow)"

definition parse_ata_smart_temperature :: "u8 list \<Rightarrow> errno + int" where
  "parse_ata_smart_temperature data =
     (if length data < 512 then Inl EINVAL else smart_scan data [0..<30] (- 1))"

datatype sense_result = Bad_access | No_descriptor | Sector_count u8

function ata_descriptor_walk :: "u8 list \<Rightarrow> nat \<Rightarrow> nat \<Rightarrow> sense_result" where
  "ata_descriptor_walk sense sense_size offset =
     (if \<not> offset + 1 < sense_size then No_descriptor
      else if \<not> offset + 1 < length sense then Bad_access
      else let descriptor_size = unat (sense ! (offset + 1)) + 2 in
        if descriptor_size > sense_size - offset then No_descriptor
        else if sense ! offset = 0x09 \<and> descriptor_size \<ge> 14
        then (if offset + 5 < length sense then Sector_count (sense ! (offset + 5)) else Bad_access)
        else ata_descriptor_walk sense sense_size (offset + descriptor_size))"
  by pat_completeness auto
termination by (relation "measure (\<lambda>(sense, sense_size, offset). sense_size - offset)") auto

declare ata_descriptor_walk.simps [simp del]

definition ata_return_sector_count :: "u8 list \<Rightarrow> nat \<Rightarrow> sense_result" where
  "ata_return_sector_count sense sense_size =
     (if sense_size < 8 then No_descriptor
      else if sense = [] then Bad_access
      else if sense ! 0 AND 0x7f \<noteq> 0x72 then No_descriptor
      else ata_descriptor_walk sense sense_size 8)"

definition power_mode_cdb :: "u8 list" where
  "power_mode_cdb = [0x85, 0x06, 0x20, 0, 0, 0, 0, 0, 0, 0, 0, 0, 0, 0, 0xe5, 0]"

definition smart_read_cdb :: "u8 list" where
  "smart_read_cdb = [0x85, 0x08, 0x0e, 0, 0xd0, 0, 1, 0, 0, 0, 0x4f, 0, 0xc2, 0, 0xb0, 0]"

text \<open>What the kernel leaves in a zeroed buffer of \<open>n\<close> bytes.\<close>

definition into_buffer :: "nat \<Rightarrow> u8 list \<Rightarrow> u8 list" where
  "into_buffer n bytes = take n (bytes @ replicate n 0)"

definition power_mode_of :: "errno + sg_reply \<Rightarrow> errno + bool" where
  "power_mode_of r =
     (case r of Inl e \<Rightarrow> Inl e
      | Inr q \<Rightarrow>
          if sg_host_status q \<noteq> 0 \<or> sg_status q \<noteq> 2 then Inl EIO
          else (case ata_return_sector_count (into_buffer 32 (sg_sense q)) (sg_sb_len_wr q) of
                  Sector_count c \<Rightarrow> Inr (c \<noteq> 0)
                | _ \<Rightarrow> Inl EIO))"

definition ata_check_power_mode :: "env \<Rightarrow> nat \<Rightarrow> (errno + bool) io" where
  "ata_check_power_mode E fd = do { r \<leftarrow> sg_io E fd power_mode_cdb; ret (power_mode_of r) }"

definition ata_read_smart_data :: "env \<Rightarrow> nat \<Rightarrow> (errno + u8 list) io" where
  "ata_read_smart_data E fd = do {
     r \<leftarrow> sg_io E fd smart_read_cdb;
     (case r of Inl e \<Rightarrow> fail e
      | Inr q \<Rightarrow>
          if sg_status q \<noteq> 0 \<or> sg_host_status q \<noteq> 0 \<or> sg_driver_status q \<noteq> 0 \<or> sg_resid q \<noteq> 0
          then fail EIO else ok (into_buffer 512 (sg_data q))) }"

text \<open>Both attribute files of the block device, the second only if the first matched.\<close>

definition file_says :: "env \<Rightarrow> string \<Rightarrow> string \<Rightarrow> bool io" where
  "file_says E path expected =
     (case fit_path path of None \<Rightarrow> ret False
      | Some p \<Rightarrow> do { r \<leftarrow> read_text E p 64; ret (r = Inr expected) })"

definition is_sata_rotational_block_device :: "env \<Rightarrow> string \<Rightarrow> string \<Rightarrow> bool io" where
  "is_sata_rotational_block_device E block_root name =
     (if \<not> starts_with ''sd'' name \<or> drop 2 name = [] \<or> \<not> list_all islower (drop 2 name) then ret False
      else do {
        ata \<leftarrow> file_says E (block_root @ ''/'' @ name @ ''/device/vendor'') ''ATA'';
        (if \<not> ata then ret False
         else file_says E (block_root @ ''/'' @ name @ ''/queue/rotational'') ''1'') })"

text \<open>One drive: open, ask for the power mode, read SMART data only if it is running, close.\<close>

definition smart_drive_temperature :: "env \<Rightarrow> string \<Rightarrow> int \<Rightarrow> int io" where
  "smart_drive_temperature E device_path maximum = do {
     o' \<leftarrow> open_device E device_path;
     (case o' of Inl _ \<Rightarrow> ret maximum
      | Inr fd \<Rightarrow> do {
          p \<leftarrow> ata_check_power_mode E fd;
          t \<leftarrow> (if p \<noteq> Inr True then ret maximum
               else do {
                 d \<leftarrow> ata_read_smart_data E fd;
                 (case d of Inl _ \<Rightarrow> ret maximum
                  | Inr data \<Rightarrow>
                      (case parse_ata_smart_temperature data of Inl _ \<Rightarrow> ret maximum
                       | Inr t \<Rightarrow> ret (if t > maximum then t else maximum))) });
          close_fd fd;
          ret t }) }"

fun collect_smart_drives :: "env \<Rightarrow> string list \<Rightarrow> int \<Rightarrow> int io" where
  "collect_smart_drives E [] maximum = ret maximum"
| "collect_smart_drives E (name # names) maximum = do {
     rotational \<leftarrow> is_sata_rotational_block_device E (thermal_block_root E) name;
     m \<leftarrow> (if \<not> rotational then ret maximum
          else (case fit_path (thermal_device_root E @ ''/'' @ name) of None \<Rightarrow> ret maximum
                | Some path \<Rightarrow> smart_drive_temperature E path maximum));
     collect_smart_drives E names m }"

definition collect_smart_hdd_temperatures :: "env \<Rightarrow> int \<Rightarrow> int io" where
  "collect_smart_hdd_temperatures E maximum = do {
     d \<leftarrow> list_dir E (thermal_block_root E);
     (case d of Inl _ \<Rightarrow> ret maximum | Inr names \<Rightarrow> collect_smart_drives E names maximum) }"

section \<open>The snapshot\<close>

definition read_node :: "env \<Rightarrow> string \<Rightarrow> string \<Rightarrow> thermal_snapshot \<Rightarrow> thermal_snapshot io" where
  "read_node E device name s =
     (if is_cpu_hwmon name then do {
        s \<leftarrow> (if cpu_celsius s < 0
             then do {
               t \<leftarrow> collect_first_hwmon_temperature E device;
               ret (case t of None \<Rightarrow> s | Some v \<Rightarrow> s\<lparr>cpu_celsius := v\<rparr>) }
             else ret s);
        m \<leftarrow> collect_hottest_hwmon_temperature E device (cpu_peak_celsius s);
        ret (s\<lparr>cpu_peak_celsius := m\<rparr>) }
      else if is_hdd_hwmon name then do {
        m \<leftarrow> collect_hottest_hwmon_temperature E device (hdd_celsius s);
        ret (s\<lparr>hdd_celsius := m\<rparr>) }
      else if is_ssd_hwmon name then do {
        m \<leftarrow> collect_hottest_hwmon_temperature E device (ssd_celsius s);
        ret (s\<lparr>ssd_celsius := m\<rparr>) }
      else ret s)"

fun read_nodes :: "env \<Rightarrow> string \<Rightarrow> string list \<Rightarrow> thermal_snapshot \<Rightarrow> thermal_snapshot io" where
  "read_nodes E root [] s = ret s"
| "read_nodes E root (entry # entries) s =
     (if \<not> is_hwmon_directory entry then read_nodes E root entries s
      else (case thermal_build_path root entry of
              None \<Rightarrow> read_nodes E root entries s
            | Some device \<Rightarrow>
                (case thermal_build_path device ''name'' of
                   None \<Rightarrow> read_nodes E root entries s
                 | Some name_path \<Rightarrow> do {
                     n \<leftarrow> read_text E name_path 64;
                     (case n of Inl _ \<Rightarrow> read_nodes E root entries s
                      | Inr name \<Rightarrow> do {
                          s \<leftarrow> read_node E device name s;
                          read_nodes E root entries s }) })))"

definition read_thermal_snapshot :: "env \<Rightarrow> (errno + thermal_snapshot) io" where
  "read_thermal_snapshot E =
     bindE (list_dir E (thermal_hwmon_root E)) (\<lambda>entries. do {
       s \<leftarrow> read_nodes E (thermal_hwmon_root E) entries
             \<lparr>cpu_celsius = -1, hdd_celsius = -1, ssd_celsius = -1, cpu_peak_celsius = -1\<rparr>;
       (if hdd_celsius s < 0
        then do {
          m \<leftarrow> collect_smart_hdd_temperatures E (hdd_celsius s);
          ok (s\<lparr>hdd_celsius := m\<rparr>) }
        else ok s) })"

section \<open>Temperatures are plausible\<close>

abbreviation celsius_ok :: "int \<Rightarrow> bool" where
  "celsius_ok t \<equiv> -1 \<le> t \<and> t \<le> 125"

lemma parse_celsius_range: "parse_celsius s = Inr t \<Longrightarrow> 0 \<le> t \<and> t \<le> 125"
  by (auto simp: parse_celsius_def Let_def split: prod.splits if_splits)

text \<open>The value and the number of an attribute slot, and whether the value is a temperature.\<close>

definition smart_value :: "u8 list \<Rightarrow> nat \<Rightarrow> nat" where
  "smart_value data i = unat (data ! (2 + i * 12 + 5))"

definition smart_slot :: "u8 list \<Rightarrow> u8 \<Rightarrow> nat \<Rightarrow> bool" where
  "smart_slot data attribute i \<longleftrightarrow>
     data ! (2 + i * 12) = attribute \<and> 1 \<le> smart_value data i \<and> smart_value data i \<le> 125"

lemma smart_scan_Cons:
  "smart_scan data (i # is) a =
     (if smart_slot data 194 i then Inr (int (smart_value data i))
      else if smart_slot data 190 i then smart_scan data is (int (smart_value data i))
      else smart_scan data is a)"
  by (auto simp: Let_def smart_slot_def smart_value_def)

lemma smart_scan_spec:
  "smart_scan data is a =
     (case find (smart_slot data 194) is of
        Some i \<Rightarrow> Inr (int (smart_value data i))
      | None \<Rightarrow>
          (case rev (filter (smart_slot data 190) is) of
             i # _ \<Rightarrow> Inr (int (smart_value data i))
           | [] \<Rightarrow> if a \<ge> 0 then Inr a else Inl ENODATA))"
proof (induction "is" arbitrary: a)
  case (Cons i "is")
  then show ?case
    unfolding smart_scan_Cons
    by (cases "rev (filter (smart_slot data 190) is)") (auto split: option.splits)
qed simp

lemma smart_scan_range:
  assumes "smart_scan data is (- 1) = Inr t"
  shows "1 \<le> t \<and> t \<le> 125"
proof -
  have slot: "1 \<le> int (smart_value data i) \<and> int (smart_value data i) \<le> 125"
    if "smart_slot data n i" for i n using that by (simp add: smart_slot_def)
  have "find P xs = Some i \<Longrightarrow> P i" for P and xs :: "nat list" and i
    by (auto simp: find_Some_iff)
  moreover have "rev (filter P xs) = i # js \<Longrightarrow> P i" for P and xs :: "nat list" and i js
    by (drule arg_cong [where f = set]) auto
  ultimately show ?thesis
    using assms unfolding smart_scan_spec [of data "is" "- 1"]
    by (simp split: option.splits list.splits) (metis slot of_nat_1 of_nat_le_iff of_nat_numeral)+
qed

lemma read_temperature_range:
  "wp (read_temperature_celsius E p) (\<lambda>r _. \<forall>t. r = Inr t \<longrightarrow> 0 \<le> t \<and> t \<le> 125) h"
  unfolding read_temperature_celsius_def read_text_def calls
  by (intro wp_intros) (auto dest: parse_celsius_range)

lemma first_temperature_range:
  "wp (first_temperature E ps) (\<lambda>r _. \<forall>t. r = Some t \<longrightarrow> 0 \<le> t \<and> t \<le> 125) h"
  by (induction ps arbitrary: h)
    (auto simp: wp_return intro!: wp_bindI wp_mono [OF read_temperature_range] split: sum.splits)

lemma hottest_of_range: "celsius_ok m \<Longrightarrow> wp (hottest_of E d ns m) (\<lambda>r _. celsius_ok r) h"
proof (induction ns arbitrary: m h)
  case (Cons n ns)
  have "wp (read_temperature_celsius E p) (\<lambda>r. wp (case r of Inl _ \<Rightarrow> hottest_of E d ns m
      | Inr t \<Rightarrow> hottest_of E d ns (if t > m then t else m)) (\<lambda>r _. celsius_ok r)) g" for p g
    by (rule wp_mono [OF read_temperature_range]) (auto intro!: Cons split: sum.splits)
  then show ?case by (auto simp: wp_bind intro!: Cons split: option.splits)
qed (simp add: wp_return)

lemma collect_hottest_range:
  "celsius_ok m \<Longrightarrow> wp (collect_hottest_hwmon_temperature E d m) (\<lambda>r _. celsius_ok r) h"
  unfolding collect_hottest_hwmon_temperature_def calls
  by (intro wp_intros hottest_of_range) auto

lemma collect_first_range:
  "wp (collect_first_hwmon_temperature E d) (\<lambda>r _. \<forall>t. r = Some t \<longrightarrow> 0 \<le> t \<and> t \<le> 125) h"
  unfolding collect_first_hwmon_temperature_def calls
  by (intro wp_intros first_temperature_range) auto

definition snapshot_ok :: "thermal_snapshot \<Rightarrow> bool" where
  "snapshot_ok s \<longleftrightarrow> celsius_ok (cpu_celsius s) \<and> celsius_ok (hdd_celsius s) \<and>
     celsius_ok (ssd_celsius s) \<and> celsius_ok (cpu_peak_celsius s)"

lemma read_node_ok: "snapshot_ok s \<Longrightarrow> wp (read_node E d n s) (\<lambda>r _. snapshot_ok r) h"
  unfolding read_node_def
  by (auto simp: snapshot_ok_def wp_return split: option.splits
      intro!: wp_ifI wp_bindI wp_mono [OF collect_first_range] wp_mono [OF collect_hottest_range])

lemma read_nodes_ok: "snapshot_ok s \<Longrightarrow> wp (read_nodes E root es s) (\<lambda>r _. snapshot_ok r) h"
proof (induction es arbitrary: s h)
  case (Cons e es)
  show ?case
    unfolding read_nodes.simps read_text_def calls
    by (intro wp_intros Cons wp_mono [OF read_node_ok]) auto
qed (simp add: wp_return)

lemma smart_drive_range: "celsius_ok m \<Longrightarrow> wp (smart_drive_temperature E p m) (\<lambda>r _. celsius_ok r) h"
  unfolding smart_drive_temperature_def ata_check_power_mode_def ata_read_smart_data_def calls
  by (intro wp_intros)
    (auto simp: parse_ata_smart_temperature_def split: if_splits dest!: smart_scan_range)

lemma collect_smart_range: "celsius_ok m \<Longrightarrow> wp (collect_smart_drives E ns m) (\<lambda>r _. celsius_ok r) h"
proof (induction ns arbitrary: m h)
  case (Cons n ns)
  show ?case
    unfolding collect_smart_drives.simps
    by (rule wp_bindI, rule wp_mono [OF wp_True], rule wp_bindI)
      (auto intro!: wp_intros Cons wp_mono [OF smart_drive_range])
qed (simp add: wp_return)

text \<open>
  Whatever the sensor files and the drives answer, a temperature of the snapshot is
  either -1, meaning that no sensor delivered it, or lies between 0 and 125 degrees.
\<close>

theorem thermal_snapshot_plausible:
  assumes "run_state (read_thermal_snapshot E) h = (Inr s, h')"
  shows "\<forall>t \<in> {cpu_celsius s, hdd_celsius s, ssd_celsius s, cpu_peak_celsius s}. t = -1 \<or> 0 \<le> t \<and> t \<le> 125"
proof -
  have nodes: "wp (read_nodes E root es \<lparr>cpu_celsius = -1, hdd_celsius = -1, ssd_celsius = -1, cpu_peak_celsius = -1\<rparr>)
      (\<lambda>r _. snapshot_ok r) g" for root es g
    by (rule read_nodes_ok) (simp add: snapshot_ok_def)
  have smart: "celsius_ok m \<Longrightarrow> wp (collect_smart_hdd_temperatures E m) (\<lambda>r _. celsius_ok r) g" for m g
    unfolding collect_smart_hdd_temperatures_def calls by (intro wp_intros collect_smart_range) auto
  have "wp (read_thermal_snapshot E) (\<lambda>r _. \<forall>s. r = Inr s \<longrightarrow> snapshot_ok s) h"
    unfolding read_thermal_snapshot_def calls
    by (auto intro!: wp_intros wp_mono [OF nodes] wp_mono [OF smart] simp: snapshot_ok_def)
  with assms have "snapshot_ok s" by (simp add: wp_def)
  then show ?thesis by (auto simp: snapshot_ok_def)
qed

definition example_thermal_file :: "string \<Rightarrow> file_read" where
  "example_thermal_file p =
     (if p = ''/sys/class/hwmon/hwmon1/name'' then File_data (''coretemp'' @ [CHR 0x0A]) None
      else if p = ''/sys/class/hwmon/hwmon1/temp1_input'' then File_data (''54000'' @ [CHR 0x0A]) None
      else if p = ''/sys/class/hwmon/hwmon1/temp2_input'' then File_data (''61000'' @ [CHR 0x0A]) None
      else Open_failed ENOENT)"

definition example_thermal_env :: env where
  "example_thermal_env = null_env\<lparr>
     e_read := (\<lambda>_. example_thermal_file),
     e_listdir := (\<lambda>_ p. if p = ''/sys/class/hwmon'' then Inr [''hwmon1'']
       else if p = ''/sys/class/hwmon/hwmon1'' then Inr [''name'', ''temp1_input'', ''temp2_input''] else Inl ENOENT),
     e_glob := (\<lambda>_ _. Some [''/sys/class/hwmon/hwmon1/temp1_input'', ''/sys/class/hwmon/hwmon1/temp2_input''])\<rparr>"

theorem thermal_snapshot_plausible_witness:
  "\<exists>s h'. run_state (read_thermal_snapshot example_thermal_env) [] = (Inr s, h') \<and>
     cpu_celsius s = 54 \<and> (ssd_celsius s = -1 \<or> 0 \<le> ssd_celsius s \<and> ssd_celsius s \<le> 125)"
proof -
  let ?r = "run_state (read_thermal_snapshot example_thermal_env) []"
  have "(case fst ?r of Inl _ \<Rightarrow> False | Inr s \<Rightarrow> cpu_celsius s = 54)" by code_simp
  then obtain s h' where r: "?r = (Inr s, h')" and c: "cpu_celsius s = 54"
    by (cases ?r) (auto split: sum.splits)
  with thermal_snapshot_plausible [OF r] show ?thesis by auto
qed

text \<open>
  The SMART page parser: the value of the first slot with attribute 194 and a value of
  1 to 125 is the temperature; without one, the last such slot with attribute 190; without
  either there is no temperature, and a page shorter than 512 bytes is refused.
\<close>

theorem smart_temperature_spec:
  "parse_ata_smart_temperature data =
     (if length data < 512 then Inl EINVAL
      else (case find (smart_slot data 194) [0..<30] of
              Some i \<Rightarrow> Inr (int (smart_value data i))
            | None \<Rightarrow>
                (case rev (filter (smart_slot data 190) [0..<30]) of
                   i # _ \<Rightarrow> Inr (int (smart_value data i))
                 | [] \<Rightarrow> Inl ENODATA)))"
  unfolding parse_ata_smart_temperature_def smart_scan_spec by (simp split: option.splits list.splits)

section \<open>The walk over the sense descriptors\<close>

text \<open>The specification: the descriptors are type-length-value records, cut off where one does
  not fit.\<close>

function tlv :: "u8 list \<Rightarrow> u8 list list" where
  "tlv bs =
     (if length bs < 2 then []
      else let n = unat (bs ! 1) + 2 in
        if n > length bs then [] else take n bs # tlv (drop n bs))"
  by pat_completeness auto
termination by (relation "measure length") auto

declare tlv.simps [simp del]

definition return_descriptor :: "u8 list \<Rightarrow> bool" where
  "return_descriptor d \<longleftrightarrow> d ! 0 = 0x09 \<and> length d \<ge> 14"

lemma descriptor_walk_tlv:
  assumes "sense_size \<le> length sense"
  shows "ata_descriptor_walk sense sense_size offset =
    (case find return_descriptor (tlv (drop offset (take sense_size sense))) of
       Some d \<Rightarrow> Sector_count (d ! 5) | None \<Rightarrow> No_descriptor)"
  using assms
proof (induction sense sense_size offset rule: ata_descriptor_walk.induct)
  case (1 sense sense_size offset)
  let ?bs = "drop offset (take sense_size sense)"
  show ?case
  proof (cases "offset + 1 < sense_size")
    case False
    then show ?thesis by (simp add: ata_descriptor_walk.simps [of _ _ offset] tlv.simps [of ?bs])
  next
    case True
    define n where "n = unat (sense ! (offset + 1)) + 2"
    have len: "length ?bs = sense_size - offset" "\<not> length ?bs < 2" using 1(2) True by auto
    have byte: "?bs ! i = sense ! (offset + i)" if "i < sense_size - offset" for i
      using that 1(2) by simp
    have n: "unat (?bs ! 1) + 2 = n" using byte [of 1] True by (simp add: n_def)
    show ?thesis
    proof (cases "n > sense_size - offset")
      case big: True
      then show ?thesis
        using True 1(2) n len n_def by (simp add: ata_descriptor_walk.simps [of _ _ offset] tlv.simps [of ?bs])
    next
      case fits: False
      let ?rest = "drop (offset + n) (take sense_size sense)"
      let ?hit = "sense ! offset = 0x09 \<and> n \<ge> 14"
      have walk: "ata_descriptor_walk sense sense_size offset =
          (if ?hit then Sector_count (sense ! (offset + 5)) else ata_descriptor_walk sense sense_size (offset + n))"
        using True fits 1(2) unfolding n_def by (subst ata_descriptor_walk.simps) (auto simp: Let_def)
      have step: "tlv ?bs = take n ?bs # tlv ?rest"
        using len fits unfolding tlv.simps [of ?bs] n Let_def by (simp add: add.commute)
      have head: "return_descriptor (take n ?bs) \<longleftrightarrow> ?hit"
        using byte [of 0] True fits len n_def by (auto simp: return_descriptor_def)
      have five: "take n ?bs ! 5 = sense ! (offset + 5)" if "n \<ge> 14"
        using byte [of 5] that fits by simp
      have IH: "ata_descriptor_walk sense sense_size (offset + n) =
          (case find return_descriptor (tlv ?rest) of Some d \<Rightarrow> Sector_count (d ! 5) | None \<Rightarrow> No_descriptor)"
        if "\<not> ?hit"
        unfolding n_def by (rule 1(1)) (use True fits that 1(2) n_def in auto)
      show ?thesis
        unfolding walk step using five IH by (cases ?hit) (auto simp: head)
    qed
  qed
qed

text \<open>
  If the kernel reports no more sense bytes than the buffer holds, the descriptor walk
  never reads outside the buffer and finds exactly the sector count (byte 5) of the first ATA
  return descriptor among the descriptors the sense data consists of.
\<close>

theorem sense_walk_spec:
  assumes "sense_size \<le> length sense"
  shows "ata_return_sector_count sense sense_size =
    (if sense_size < 8 \<or> sense ! 0 AND 0x7f \<noteq> 0x72 then No_descriptor
     else (case find return_descriptor (tlv (drop 8 (take sense_size sense))) of
             Some d \<Rightarrow> Sector_count (d ! 5) | None \<Rightarrow> No_descriptor))"
  using assms descriptor_walk_tlv [OF assms] by (auto simp: ata_return_sector_count_def)

definition example_sense :: "u8 list" where
  "example_sense = [0x72, 0, 0, 0, 0, 0, 0, 18] @ [0x00, 2, 1, 1] @
     [0x09, 12, 0, 0, 0, 0xff, 0, 0, 0, 0, 0, 0, 0, 0x50] @ replicate 6 0"

theorem sense_walk_spec_witness:
  "ata_return_sector_count example_sense 26 = Sector_count 0xff"
proof -
  have "26 \<le> length example_sense" "\<not> (26 < (8 :: nat) \<or> example_sense ! 0 AND 0x7f \<noteq> 0x72)"
    "find return_descriptor (tlv (drop 8 (take 26 example_sense))) =
       Some [0x09, 12, 0, 0, 0, 0xff, 0, 0, 0, 0, 0, 0, 0, 0x50]"
    by code_simp+
  then show ?thesis using sense_walk_spec [of 26 example_sense] by simp
qed

section \<open>A sleeping drive is left alone\<close>

text \<open>Every SMART READ in a stretch of history comes right after a power-mode check of the same
  drive that reported a running disk.\<close>

definition smart_read_of :: "event \<Rightarrow> nat option" where
  "smart_read_of e = (case e of Sg_io fd cdb _ \<Rightarrow> if cdb = smart_read_cdb then Some fd else None | _ \<Rightarrow> None)"

definition reported_running :: "nat \<Rightarrow> event \<Rightarrow> bool" where
  "reported_running fd e \<longleftrightarrow> (\<exists>r. e = Sg_io fd power_mode_cdb r \<and> power_mode_of r = Inr True)"

definition no_wake :: "trace \<Rightarrow> bool" where
  "no_wake es \<longleftrightarrow> (\<forall>i < length es. \<forall>fd. smart_read_of (es ! i) = Some fd \<longrightarrow>
     0 < i \<and> reported_running fd (es ! (i - 1)))"

interpretation waking: segments no_wake
proof unfold_locales
  fix es fs :: trace
  assume es: "no_wake es" and fs: "no_wake fs"
  show "no_wake (es @ fs)"
    unfolding no_wake_def
  proof (intro allI impI)
    fix i fd
    assume i: "i < length (es @ fs)" and r: "smart_read_of ((es @ fs) ! i) = Some fd"
    show "0 < i \<and> reported_running fd ((es @ fs) ! (i - 1))"
    proof (cases "i < length es")
      case True
      then have "0 < i \<and> reported_running fd (es ! (i - 1))"
        using es r unfolding no_wake_def by (simp add: nth_append)
      with True show ?thesis by (simp add: nth_append less_imp_diff_less)
    next
      case False
      let ?j = "i - length es"
      have "?j < length fs" "smart_read_of (fs ! ?j) = Some fd" using i r False by (auto simp: nth_append)
      then have j: "0 < ?j" "reported_running fd (fs ! (?j - 1))" using fs unfolding no_wake_def by blast+
      then have "\<not> i - 1 < length es" by linarith
      then have "(es @ fs) ! (i - 1) = fs ! (?j - 1)" by (simp add: nth_append)
      with j show ?thesis by simp
    qed
  qed
qed (simp add: no_wake_def)

lemma no_wake_other: "smart_read_of e = None \<Longrightarrow> no_wake [e]"
  by (simp add: no_wake_def)

lemma cdb_distinct [simp]: "power_mode_cdb \<noteq> smart_read_cdb"
  by (simp add: power_mode_cdb_def smart_read_cdb_def)

lemma no_wake_probe:
  "no_wake [Open_device p x, Sg_io fd power_mode_cdb r, Close_fd fd]"
  "power_mode_of r = Inr True \<Longrightarrow>
   no_wake [Open_device p x, Sg_io fd power_mode_cdb r, Sg_io fd smart_read_cdb q, Close_fd fd]"
  by (auto simp: no_wake_def less_Suc_eq smart_read_of_def reported_running_def)

lemma no_wake_calls:
  "appends no_wake (read_file E p)" "appends no_wake (list_dir E p)" "appends no_wake (glob E p)"
  "appends no_wake (open_device E p)" "appends no_wake (close_fd fd)"
  unfolding calls by (auto intro!: appends_prim no_wake_other simp: smart_read_of_def)

lemma no_wake_read_text: "appends no_wake (read_text E p n)"
  unfolding read_text_def by (intro waking.intros appends_cases no_wake_calls)

lemma no_wake_hwmon:
  "appends no_wake (first_temperature E ps)" "appends no_wake (hottest_of E d ns m)"
proof -
  have t: "appends no_wake (read_temperature_celsius E p)" for p
    unfolding read_temperature_celsius_def by (intro waking.intros no_wake_read_text)
  show "appends no_wake (first_temperature E ps)"
    by (induction ps) (auto intro!: waking.intros appends_cases t)
  show "appends no_wake (hottest_of E d ns m)"
    by (induction ns arbitrary: m) (auto intro!: waking.intros appends_cases t)
qed

lemma no_wake_nodes: "appends no_wake (read_nodes E root es s)"
proof (induction es arbitrary: s)
  case (Cons e es)
  show ?case
    unfolding read_nodes.simps read_node_def collect_first_hwmon_temperature_def
      collect_hottest_hwmon_temperature_def
    by (intro waking.intros appends_cases Cons no_wake_read_text no_wake_calls no_wake_hwmon)
qed (simp add: waking.return)

text \<open>The one place that reads SMART data: the power mode was the call before it.\<close>

lemma no_wake_drive: "appends no_wake (smart_drive_temperature E p m)"
  unfolding appends_def smart_drive_temperature_def ata_check_power_mode_def ata_read_smart_data_def calls
  by (auto intro: no_wake_probe no_wake_other simp: smart_read_of_def split: sum.splits)

lemma no_wake_drives: "appends no_wake (collect_smart_drives E ns m)"
proof (induction ns arbitrary: m)
  case (Cons n ns)
  show ?case
    unfolding collect_smart_drives.simps is_sata_rotational_block_device_def file_says_def
    by (intro waking.intros appends_cases Cons no_wake_read_text no_wake_drive)
qed (simp add: waking.return)

text \<open>
  \<^bold>\<open>C7.\<close>  Reading temperatures never wakes a disk: in everything a snapshot does, each SMART
  READ DATA command is immediately preceded by a power-mode check of the same drive whose answer
  says that the disk is running.
\<close>

theorem thermal_snapshot_never_wakes:
  "\<exists>es. snd (run_state (read_thermal_snapshot E) h) = h @ es \<and> no_wake es"
proof -
  have "appends no_wake (read_thermal_snapshot E)"
    unfolding read_thermal_snapshot_def collect_smart_hdd_temperatures_def
    by (intro waking.intros appends_cases no_wake_calls no_wake_nodes no_wake_drives)
  then show ?thesis by (auto simp: appends_def)
qed

end
