(* ===== verification/Fan_Daemon.thy ===== *)
theory Fan_Daemon
  imports Thermal_Config Thermal_Sensors
begin

text \<open>
  The fan-curve daemon (\<^verbatim>\<open>core/fan_daemon.c\<close>).  It owns no hardware access: each PWM change runs
  the \<^verbatim>\<open>ugreenctl\<close> program.  One turn of the main loop is \<open>daemon_cycle\<close>; the loop itself, which a
  signal can end after any turn, is the step relation \<open>daemon_step\<close>.  The text of error messages
  (the last line of the state file) and the way the state file is replaced (directory, temporary
  file, rename) are left out: writing it is one event with the fields it records.
\<close>

section \<open>Model routes\<close>

datatype fan_channel = FAN_CHANNEL_CPU | FAN_CHANNEL_SYSTEM

type_synonym fan_target = "string \<times> fan_channel"

record model_route =
  dmi_product :: string
  route_id :: string
  targets :: "fan_target list"
  requires_force :: bool

abbreviation sys_target :: "fan_target list" where
  "sys_target \<equiv> [(''sys'', FAN_CHANNEL_SYSTEM)]"

abbreviation cpu_and_sys :: "fan_target list" where
  "cpu_and_sys \<equiv> [(''cpu'', FAN_CHANNEL_CPU), (''sys'', FAN_CHANNEL_SYSTEM)]"

abbreviation mk_route :: "string \<Rightarrow> string \<Rightarrow> fan_target list \<Rightarrow> bool \<Rightarrow> model_route" where
  "mk_route p i t f \<equiv> \<lparr>dmi_product = p, route_id = i, targets = t, requires_force = f\<rparr>"

definition model_routes :: "model_route list" where
  "model_routes =
     [mk_route ''DX4600'' ''dx4600'' sys_target True,
      mk_route ''DX4600+'' ''dx4600'' sys_target True,
      mk_route ''DX4600 Pro'' ''dx4600'' sys_target True,
      mk_route ''DXP4800'' ''dxp4800'' sys_target True,
      mk_route ''DXP4800 Plus'' ''dxp4800plus'' cpu_and_sys False,
      mk_route ''DXP4800 Pro'' ''dxp4800plus'' cpu_and_sys False,
      mk_route ''DXP4800S'' ''dxp4800s'' sys_target True,
      mk_route ''DXP480T Plus'' ''dxp480tplus'' [(''cpu'', FAN_CHANNEL_CPU), (''all'', FAN_CHANNEL_SYSTEM)] False,
      mk_route ''DXP6800'' ''dxp6800'' cpu_and_sys True,
      mk_route ''DXP6800 Plus'' ''dxp6800plus'' cpu_and_sys True,
      mk_route ''DXP6800 Pro'' ''dxp6800pro'' cpu_and_sys True]"

definition find_model_route :: "string \<Rightarrow> model_route option" where
  "find_model_route product = find (\<lambda>r. dmi_product r = product) model_routes"

definition stock_profile_for_route :: "model_route \<Rightarrow> string option" where
  "stock_profile_for_route r =
     map_of [(''dx4600'', ''stock-4600''), (''dxp4800'', ''stock-4800''), (''dxp4800s'', ''stock-4800s''),
             (''dxp4800plus'', ''stock-4800plus''), (''dxp480tplus'', ''stock-480tplus''),
             (''dxp6800'', ''stock-6800''), (''dxp6800pro'', ''stock-6800pro''),
             (''dxp6800plus'', ''stock-6800plus'')] (route_id r)"

definition profile_matches_route :: "fan_curve_config \<Rightarrow> model_route \<Rightarrow> errno option" where
  "profile_matches_route c r =
     (if profile c = ''custom'' then None
      else if stock_profile_for_route r = Some (profile c) then None else Some EINVAL)"

section \<open>The hold on downshifts\<close>

record pwm_hold_state =
  applied_pwm :: u32
  pending_lower_pwm :: u32
  pending_since :: int
  applied_known :: bool

definition hold_initial :: pwm_hold_state where
  "hold_initial = \<lparr>applied_pwm = 0, pending_lower_pwm = 0, pending_since = 0, applied_known = False\<rparr>"

text \<open>\<^verbatim>\<open>time_t\<close> is an \<open>int\<close>; the difference is converted to \<^verbatim>\<open>unsigned long\<close>.\<close>

definition hold_lower_pwm :: "env \<Rightarrow> pwm_hold_state \<Rightarrow> u32 \<Rightarrow> u32 \<Rightarrow> (pwm_hold_state \<times> u32) io" where
  "hold_lower_pwm E st desired delay =
     (if \<not> applied_known st \<or> desired \<ge> applied_pwm st
      then ret (st\<lparr>pending_lower_pwm := 0, pending_since := 0\<rparr>, desired)
      else do {
        now \<leftarrow> clock E;
        let st = (if pending_lower_pwm st \<noteq> desired
                  then st\<lparr>pending_lower_pwm := desired, pending_since := now\<rparr> else st);
        ret (st, if (word_of_int (now - pending_since st) :: u64) < ucast delay
                 then applied_pwm st else desired) })"

section \<open>Applying a PWM\<close>

definition ugreenctl_argv :: "string \<Rightarrow> string \<Rightarrow> bool \<Rightarrow> string \<Rightarrow> u32 \<Rightarrow> string list" where
  "ugreenctl_argv binary plugin_dir force target pwm =
     [binary, ''--plugin-dir'', plugin_dir] @ (if force then [''--force''] else []) @
     [''--apply'', ''fan'', ''set'', target, dec (unat pwm)]"

definition invoke_ugreenctl ::
    "env \<Rightarrow> string \<Rightarrow> string \<Rightarrow> bool \<Rightarrow> string \<Rightarrow> u32 \<Rightarrow> (errno + unit) io" where
  "invoke_ugreenctl E binary plugin_dir force target pwm =
     (if length (dec (unat pwm)) \<ge> 16 then fail EINVAL
      else do {
        r \<leftarrow> spawn E (ugreenctl_argv binary plugin_dir force target pwm);
        (case r of Fork_failed e \<Rightarrow> fail e
         | Wait_failed e \<Rightarrow> fail e
         | Killed \<Rightarrow> fail EIO
         | Exited n \<Rightarrow> if n \<noteq> 0 then fail EIO else ok ()) })"

definition apply_pwm ::
    "env \<Rightarrow> model_route \<Rightarrow> string \<Rightarrow> string \<Rightarrow> bool \<Rightarrow> string \<Rightarrow> u32 \<Rightarrow> (errno + unit) io" where
  "apply_pwm E route binary plugin_dir allow_unvalidated target pwm =
     (let force = requires_force route \<or> allow_unvalidated in
      if requires_force route \<and> \<not> allow_unvalidated then fail EPERM
      else invoke_ugreenctl E binary plugin_dir force target pwm)"

definition desired_for_target :: "fan_target \<Rightarrow> fan_curve_plan \<Rightarrow> u32" where
  "desired_for_target t plan =
     (if snd t = FAN_CHANNEL_CPU then plan_cpu_pwm plan else plan_system_pwm plan)"

section \<open>Starting\<close>

record daemon_args =
  config_path :: "string option"
  state_path :: "string option"
  binary :: "string option"
  plugin_dir :: "string option"
  once :: bool

definition no_args :: daemon_args where
  "no_args = \<lparr>config_path = None, state_path = None, binary = None, plugin_dir = None, once = False\<rparr>"

text \<open>\<^verbatim>\<open>argv[1..]\<close>; \<open>None\<close> prints the usage and exits.\<close>

fun parse_args :: "string list \<Rightarrow> daemon_args \<Rightarrow> daemon_args option" where
  "parse_args [] a = Some a"
| "parse_args (x # xs) a =
     (if x \<in> {''--config'', ''--state'', ''--ugreenctl'', ''--plugin-dir''} \<and> xs \<noteq> []
      then (let v = hd xs in
        parse_args (tl xs)
          (if x = ''--config'' then a\<lparr>config_path := Some v\<rparr>
           else if x = ''--state'' then a\<lparr>state_path := Some v\<rparr>
           else if x = ''--ugreenctl'' then a\<lparr>binary := Some v\<rparr>
           else a\<lparr>plugin_dir := Some v\<rparr>))
      else if x = ''--once'' then parse_args xs (a\<lparr>once := True\<rparr>)
      else None)"

fun read_dmi_paths :: "env \<Rightarrow> string list \<Rightarrow> (errno + string) io" where
  "read_dmi_paths E [] = fail ENOENT"
| "read_dmi_paths E (path # paths) = do {
     r \<leftarrow> read_file E path;
     (case r of Open_failed _ \<Rightarrow> read_dmi_paths E paths
      | File_data s err \<Rightarrow>
          (case fgets_lines 255 (err \<noteq> None) s of
             [] \<Rightarrow> read_dmi_paths E paths
           | line # _ \<Rightarrow>
               let product = rstrip (\<lambda>c. c = CHR 0x0A \<or> c = CHR 0x0D) (c_str line) in
               if product = [] then fail ENODEV else ok product)) }"

definition read_dmi_product :: "env \<Rightarrow> (errno + string) io" where
  "read_dmi_product E = read_dmi_paths E
     [''/sys/class/dmi/id/product_name'', ''/sys/devices/virtual/dmi/id/product_name'']"

definition acquire_daemon_lock :: "env \<Rightarrow> (errno + nat) io" where
  "acquire_daemon_lock E =
     bindE (open_lock E (env_or E ''UGREENCTL_FAN_CURVE_LOCK'' ''/run/ugreenctl-fand.lock'')) (\<lambda>fd. do {
       l \<leftarrow> flock E fd True;
       (case l of Some e \<Rightarrow> do { close_fd fd; fail e } | None \<Rightarrow> ok fd) })"

text \<open>What the main loop works with.\<close>

record daemon =
  d_config :: fan_curve_config
  d_route :: model_route
  d_binary :: string
  d_plugin_dir :: string
  d_state_path :: string
  d_once :: bool
  d_lock :: nat

text \<open>Everything in \<^verbatim>\<open>main\<close> before the loop; \<open>None\<close> is \<^verbatim>\<open>return EXIT_FAILURE\<close>.\<close>

definition daemon_start :: "env \<Rightarrow> string list \<Rightarrow> (daemon option) io" where
  "daemon_start E argv =
     (case parse_args argv no_args of None \<Rightarrow> ret None
      | Some a \<Rightarrow>
        (case (config_path a, state_path a, binary a, plugin_dir a) of
           (Some cfg, Some st, Some bin, Some dir) \<Rightarrow> do {
             x \<leftarrow> access E bin X_OK;
             (if \<not> x then ret None else do {
             y \<leftarrow> access E dir R_OK;
             (if \<not> y then ret None else do {
             r \<leftarrow> fan_curve_load_config E cfg;
             (case r of Inl _ \<Rightarrow> ret None | Inr c \<Rightarrow> do {
             p \<leftarrow> read_dmi_product E;
             (case p of Inl _ \<Rightarrow> ret None | Inr product \<Rightarrow>
             (case find_model_route product of None \<Rightarrow> ret None | Some route \<Rightarrow>
               if profile_matches_route c route \<noteq> None then ret None
               else do {
                 l \<leftarrow> acquire_daemon_lock E;
                 (case l of Inl _ \<Rightarrow> ret None
                  | Inr fd \<Rightarrow> ret (Some \<lparr>d_config = c, d_route = route, d_binary = bin,
                      d_plugin_dir = dir, d_state_path = st, d_once = once a, d_lock = fd\<rparr>)) })) }) }) }) }
         | _ \<Rightarrow> ret None))"

section \<open>The main loop\<close>

record daemon_state =
  s_states :: "pwm_hold_state list"
  s_snapshot :: thermal_snapshot
  s_last_plan :: fan_curve_plan

definition no_temperatures :: thermal_snapshot where
  "no_temperatures = \<lparr>cpu_celsius = -1, hdd_celsius = -1, ssd_celsius = -1, cpu_peak_celsius = -1\<rparr>"

definition daemon_initial :: "daemon \<Rightarrow> daemon_state" where
  "daemon_initial D = \<lparr>s_states = replicate 3 hold_initial, s_snapshot = no_temperatures,
     s_last_plan = \<lparr>plan_cpu_pwm = minimum_pwm (d_config D), plan_system_pwm = minimum_pwm (d_config D)\<rparr>\<rparr>"

text \<open>The loop over the targets, with the states that belong to them; it stops at the first write
  that fails and leaves the remaining states alone.\<close>

fun update_targets ::
    "env \<Rightarrow> daemon \<Rightarrow> fan_curve_plan \<Rightarrow> fan_target list \<Rightarrow> pwm_hold_state list \<Rightarrow>
     ((errno + unit) \<times> pwm_hold_state list) io" where
  "update_targets E D plan (t # ts) (st # sts) = do {
     (st, target_pwm) \<leftarrow> hold_lower_pwm E st (desired_for_target t plan)
                             (downshift_delay_seconds (d_config D));
     (if \<not> applied_known st \<or> target_pwm \<noteq> applied_pwm st
      then do {
        w \<leftarrow> apply_pwm E (d_route D) (d_binary D) (d_plugin_dir D)
               (allow_unvalidated_writes (d_config D)) (fst t) target_pwm;
        (case w of Inl e \<Rightarrow> ret (Inl e, st # sts)
         | Inr _ \<Rightarrow> do {
             (r, sts') \<leftarrow> update_targets E D plan ts sts;
             ret (r, st\<lparr>applied_pwm := target_pwm, applied_known := True\<rparr> # sts') }) }
      else do {
        (r, sts') \<leftarrow> update_targets E D plan ts sts;
        ret (r, st # sts') }) }"
| "update_targets E D plan _ sts = ret (Inr (), sts)"

text \<open>The PWM the state file reports per channel, -1 when none was applied yet.\<close>

definition applied_channels :: "model_route \<Rightarrow> pwm_hold_state list \<Rightarrow> int \<times> int" where
  "applied_channels route sts =
     fold (\<lambda>(t, st) (cpu, sys). if \<not> applied_known st then (cpu, sys)
            else if snd t = FAN_CHANNEL_CPU then (sint (applied_pwm st), sys)
            else (cpu, sint (applied_pwm st)))
       (zip (targets route) sts) (-1, -1)"

definition maximum_applied :: "int \<Rightarrow> int \<Rightarrow> int" where
  "maximum_applied cpu sys = (if cpu < 0 then sys else if sys < 0 then cpu else if cpu > sys then cpu else sys)"

definition write_state :: "env \<Rightarrow> daemon \<Rightarrow> daemon_state \<Rightarrow> fan_curve_plan \<Rightarrow> string \<Rightarrow> unit io" where
  "write_state E D s plan status = do {
     now \<leftarrow> clock E;
     let (cpu, sys) = applied_channels (d_route D) (s_states s);
     let fields =
       [(''timestamp'', dec_int now), (''model'', route_id (d_route D)), (''profile'', profile (d_config D)),
        (''status'', status), (''cpu_celsius'', dec_int (cpu_celsius (s_snapshot s))),
        (''cpu_peak_celsius'', dec_int (cpu_peak_celsius (s_snapshot s))),
        (''hdd_celsius'', dec_int (hdd_celsius (s_snapshot s))),
        (''ssd_celsius'', dec_int (ssd_celsius (s_snapshot s))),
        (''desired_pwm'', dec (unat (maximum_of (plan_cpu_pwm plan) (plan_system_pwm plan)))),
        (''applied_pwm'', dec_int (maximum_applied cpu sys)),
        (''desired_cpu_pwm'', dec (unat (plan_cpu_pwm plan))),
        (''desired_system_pwm'', dec (unat (plan_system_pwm plan))),
        (''applied_cpu_pwm'', dec_int cpu), (''applied_system_pwm'', dec_int sys)];
     prim (\<lambda>_. ()) (\<lambda>_. Write_state (d_state_path D) fields) }"

text \<open>The temperatures of this turn and the plan made from them.\<close>

definition daemon_plan :: "env \<Rightarrow> daemon \<Rightarrow> (thermal_snapshot \<times> fan_curve_plan \<times> bool) io" where
  "daemon_plan E D = do {
     r \<leftarrow> read_thermal_snapshot E;
     let failsafe = \<lparr>plan_cpu_pwm = failsafe_pwm (d_config D), plan_system_pwm = failsafe_pwm (d_config D)\<rparr>;
     (case r of Inl _ \<Rightarrow> ret (no_temperatures, failsafe, False)
      | Inr s \<Rightarrow>
          (case fan_curve_evaluate_plan (d_config D) s of
             (Some _, _) \<Rightarrow> ret (s, failsafe, False)
           | (None, plan) \<Rightarrow> ret (s, plan, True))) }"

text \<open>One turn: the new state and whether every write succeeded.\<close>

definition daemon_cycle :: "env \<Rightarrow> daemon \<Rightarrow> daemon_state \<Rightarrow> (daemon_state \<times> bool) io" where
  "daemon_cycle E D s = do {
     (snapshot, plan, good) \<leftarrow> daemon_plan E D;
     (w, sts) \<leftarrow> update_targets E D plan (targets (d_route D)) (s_states s);
     let s' = \<lparr>s_states = sts, s_snapshot = snapshot, s_last_plan = plan\<rparr>;
     write_state E D s' plan (if w = Inr () then (if good then ''running'' else ''failsafe'') else ''error'');
     ret (s', w = Inr ()) }"

text \<open>\<^verbatim>\<open>sleep(1)\<close> up to \<^verbatim>\<open>interval_seconds\<close> times; a signal can end the wait after any of them.\<close>

fun daemon_wait :: "nat \<Rightarrow> unit io" where
  "daemon_wait n = (if n = 0 then ret () else do { sleep_ms 1000; daemon_wait (n - 1) })"

declare daemon_wait.simps [simp del]

definition daemon_stop :: "env \<Rightarrow> daemon \<Rightarrow> daemon_state \<Rightarrow> unit io" where
  "daemon_stop E D s = do { write_state E D s (s_last_plan s) ''stopped''; close_fd (d_lock D) }"

text \<open>\<^verbatim>\<open>--once\<close>: a single turn; the result is the exit status.\<close>

definition daemon_once :: "env \<Rightarrow> daemon \<Rightarrow> bool io" where
  "daemon_once E D = do {
     (s, good) \<leftarrow> daemon_cycle E D (daemon_initial D);
     close_fd (d_lock D);
     ret good }"

text \<open>A turn followed by the wait, as long as no signal arrived before it; \<open>n\<close> seconds were waited
  when it ended.\<close>

inductive daemon_step :: "env \<Rightarrow> daemon \<Rightarrow> daemon_state \<times> trace \<Rightarrow> daemon_state \<times> trace \<Rightarrow> bool"
  for E D where
  turn: "run_state (daemon_cycle E D s) h = ((s', good), h1) \<Longrightarrow> n \<le> unat (interval_seconds (d_config D)) \<Longrightarrow>
    run_state (daemon_wait n) h1 = (u, h2) \<Longrightarrow> daemon_step E D (s, h) (s', h2)"

inductive daemon_reaches :: "env \<Rightarrow> daemon \<Rightarrow> trace \<Rightarrow> daemon_state \<times> trace \<Rightarrow> bool" for E D h0 where
  start: "daemon_reaches E D h0 (daemon_initial D, h0)"
| turn: "daemon_reaches E D h0 x \<Longrightarrow> daemon_step E D x y \<Longrightarrow> daemon_reaches E D h0 y"

inductive_cases daemon_stepE: "daemon_step E D (s, h) y"

section \<open>The hold never lets a fan run too slowly\<close>

lemma hold_spec:
  "wp (hold_lower_pwm E st desired delay)
     (\<lambda>(st', v) _. desired \<le> v \<and> (v = desired \<or> applied_known st \<and> v = applied_pwm st) \<and>
        applied_pwm st' = applied_pwm st \<and> applied_known st' = applied_known st) h"
  unfolding hold_lower_pwm_def calls by (auto simp: wp_simps Let_def)

lemma word_of_int_less_u64:
  "0 \<le> d \<Longrightarrow> d < 9223372036854775808 \<Longrightarrow> (word_of_int d :: u64) < ucast (delay :: u32) \<longleftrightarrow> d < uint delay"
proof -
  assume "0 \<le> d" "d < 9223372036854775808"
  moreover have "uint (ucast delay :: u64) = uint delay" by (metis uint_nat unat_ucast_32_64)
  ultimately show ?thesis by (simp add: word_less_def uint_word_of_int)
qed


definition example_hold :: pwm_hold_state where
  "example_hold = \<lparr>applied_pwm = 200, pending_lower_pwm = 100, pending_since = 950, applied_known = True\<rparr>"


section \<open>What the daemon may do\<close>

text \<open>No port access and no file writes; a program is started only as the configured
  \<^verbatim>\<open>ugreenctl\<close> with a fan command of the route, a PWM of the safe range, and only if the model
  does not need \<^verbatim>\<open>--force\<close> or the configuration allows it.\<close>

definition daemon_event_ok :: "daemon \<Rightarrow> event \<Rightarrow> bool" where
  "daemon_event_ok D e \<longleftrightarrow>
     (case e of
        Spawn argv _ \<Rightarrow>
          (\<exists>t \<in> set (targets (d_route D)). \<exists>pwm. minimum_pwm (d_config D) \<le> pwm \<and> pwm \<le> 255 \<and>
             (requires_force (d_route D) \<longrightarrow> allow_unvalidated_writes (d_config D)) \<and>
             argv = ugreenctl_argv (d_binary D) (d_plugin_dir D)
                      (allow_unvalidated_writes (d_config D)) (fst t) pwm)
      | Outb _ _ \<Rightarrow> False
      | Inb _ _ \<Rightarrow> False
      | Write_file _ _ _ \<Rightarrow> False
      | _ \<Rightarrow> True)"

definition quiet :: "event \<Rightarrow> bool" where
  "quiet e \<longleftrightarrow> (case e of Spawn _ _ \<Rightarrow> False | Outb _ _ \<Rightarrow> False | Inb _ _ \<Rightarrow> False
     | Write_file _ _ _ \<Rightarrow> False | _ \<Rightarrow> True)"

lemma quiet_ok: "quiet e \<Longrightarrow> daemon_event_ok D e"
  by (cases e) (auto simp: quiet_def daemon_event_ok_def)

lemma quiet_calls [emits_intros]:
  "emits quiet (read_file E p)" "emits quiet (list_dir E p)" "emits quiet (glob E p)"
  "emits quiet (open_device E p)" "emits quiet (close_fd fd)" "emits quiet (sg_io E fd cdb)"
  "emits quiet (clock E)" "emits quiet (sleep_ms n)"
  unfolding calls by (auto intro!: emits_prim simp: quiet_def)

lemma quiet_read_text [emits_intros]: "emits quiet (read_text E p n)"
  unfolding read_text_def by (intro emits_intros)

lemma quiet_temperature [emits_intros]: "emits quiet (read_temperature_celsius E p)"
  unfolding read_temperature_celsius_def by (intro emits_intros)

lemma quiet_temperatures [emits_intros]:
  "emits quiet (first_temperature E ps)" "emits quiet (hottest_of E d ns m)"
proof -
  show "emits quiet (first_temperature E ps)"
    by (induction ps) (auto intro!: emits_intros)
  show "emits quiet (hottest_of E d ns m)"
    by (induction ns arbitrary: m) (auto intro!: emits_intros)
qed

lemma quiet_node [emits_intros]: "emits quiet (read_node E d n s)"
  unfolding read_node_def collect_first_hwmon_temperature_def collect_hottest_hwmon_temperature_def
  by (intro emits_intros)

lemma quiet_nodes [emits_intros]: "emits quiet (read_nodes E root es s)"
  by (induction es arbitrary: s) (auto intro!: emits_intros)

lemma quiet_drives [emits_intros]: "emits quiet (collect_smart_drives E ns m)"
  unfolding is_sata_rotational_block_device_def file_says_def smart_drive_temperature_def
    ata_check_power_mode_def ata_read_smart_data_def
proof (induction ns arbitrary: m)
  case (Cons n ns)
  show ?case
    unfolding collect_smart_drives.simps is_sata_rotational_block_device_def file_says_def
      smart_drive_temperature_def ata_check_power_mode_def ata_read_smart_data_def
    by (intro emits_intros Cons)
qed (auto intro!: emits_intros)

lemma quiet_snapshot [emits_intros]: "emits quiet (read_thermal_snapshot E)"
  unfolding read_thermal_snapshot_def collect_smart_hdd_temperatures_def by (intro emits_intros)

lemma quiet_hold [emits_intros]: "emits quiet (hold_lower_pwm E st d delay)"
  unfolding hold_lower_pwm_def by (intro emits_intros)

lemma quiet_plan [emits_intros]: "emits quiet (daemon_plan E D)"
  unfolding daemon_plan_def by (intro emits_intros)

lemma quiet_write_state [emits_intros]: "emits quiet (write_state E D s plan status)"
  unfolding write_state_def by (intro emits_intros) (simp add: quiet_def)

lemma quiet_wait [emits_intros]: "emits quiet (daemon_wait n)"
  by (induction n) (subst daemon_wait.simps, intro emits_intros, simp)+

section \<open>The invariant of the main loop\<close>

definition hold_ok :: "fan_curve_config \<Rightarrow> pwm_hold_state \<Rightarrow> bool" where
  "hold_ok c st \<longleftrightarrow> (applied_known st \<longrightarrow> minimum_pwm c \<le> applied_pwm st \<and> applied_pwm st \<le> 255)"

definition plan_ok :: "fan_curve_config \<Rightarrow> fan_curve_plan \<Rightarrow> bool" where
  "plan_ok c plan \<longleftrightarrow> minimum_pwm c \<le> plan_cpu_pwm plan \<and> plan_cpu_pwm plan \<le> 255 \<and>
     minimum_pwm c \<le> plan_system_pwm plan \<and> plan_system_pwm plan \<le> 255"

lemma hold_ok_same:
  "hold_ok c st \<Longrightarrow> applied_pwm st' = applied_pwm st \<Longrightarrow> applied_known st' = applied_known st \<Longrightarrow> hold_ok c st'"
  by (simp add: hold_ok_def)

lemma desired_ok: "plan_ok c plan \<Longrightarrow> minimum_pwm c \<le> desired_for_target t plan \<and> desired_for_target t plan \<le> 255"
  by (simp add: plan_ok_def desired_for_target_def)

lemma validated_plan_ok:
  assumes "fan_curve_validate_config c = None" "fan_curve_evaluate_plan c s = (r, plan)"
  shows "plan_ok c plan"
  using assms(2) validated [OF assms(1)] system_target_bounds [OF assms(1), of s]
    source_bounds [OF validated(7) [OF assms(1)] validated(5) [OF assms(1)]]
  by (auto simp: plan_ok_def fan_curve_evaluate_plan_def Let_def maximum_of_max split: if_splits)

lemma daemon_plan_ok:
  assumes "fan_curve_validate_config (d_config D) = None"
  shows "wp (daemon_plan E D) (\<lambda>(s, plan, good) _. plan_ok (d_config D) plan) h"
proof -
  have fs: "plan_ok (d_config D) \<lparr>plan_cpu_pwm = failsafe_pwm (d_config D), plan_system_pwm = failsafe_pwm (d_config D)\<rparr>"
    using validated(2,3) [OF assms] by (simp add: plan_ok_def)
  show ?thesis
    unfolding daemon_plan_def
    by (rule wp_bindI, rule wp_mono [OF wp_True])
      (auto simp: wp_return Let_def fs split: sum.splits prod.splits option.splits
        dest: validated_plan_ok [OF assms])
qed

lemma apply_pwm_ok:
  assumes "t \<in> set (targets (d_route D))" "minimum_pwm (d_config D) \<le> pwm" "pwm \<le> 255"
  shows "emits (daemon_event_ok D) (apply_pwm E (d_route D) (d_binary D) (d_plugin_dir D)
           (allow_unvalidated_writes (d_config D)) (fst t) pwm)"
proof -
  have sp: "emits (daemon_event_ok D) (spawn E (ugreenctl_argv (d_binary D) (d_plugin_dir D) force (fst t) pwm))"
    if "requires_force (d_route D) \<longrightarrow> allow_unvalidated_writes (d_config D)"
      "force = allow_unvalidated_writes (d_config D)" for force
    unfolding calls using assms that by (intro emits_prim) (auto simp: daemon_event_ok_def)
  show ?thesis
    unfolding apply_pwm_def invoke_ugreenctl_def Let_def
    by (auto intro!: emits_intros sp split: spawn_result.splits)
qed

text \<open>What an update of the targets guarantees: the recorded PWMs stay in range, only allowed
  events happen, and after a success every fan runs at least as fast as planned.\<close>

definition cooled :: "fan_curve_plan \<Rightarrow> fan_target list \<Rightarrow> pwm_hold_state list \<Rightarrow> bool" where
  "cooled plan ts sts \<longleftrightarrow>
     list_all (\<lambda>(t, st). applied_known st \<and> desired_for_target t plan \<le> applied_pwm st) (zip ts sts)"

lemma update_targets_spec:
  assumes "plan_ok (d_config D) plan" "set ts \<subseteq> set (targets (d_route D))"
    and "list_all (hold_ok (d_config D)) sts" "extends (daemon_event_ok D) h0 h"
  shows "wp (update_targets E D plan ts sts)
     (\<lambda>(r, sts') h'. length sts' = length sts \<and> list_all (hold_ok (d_config D)) sts' \<and>
        extends (daemon_event_ok D) h0 h' \<and> (r = Inr () \<longrightarrow> cooled plan ts sts')) h"
  using assms
proof (induction ts arbitrary: sts h)
  case Nil
  then show ?case by (simp add: wp_return cooled_def)
next
  case (Cons t ts)
  note prems = Cons.prems and IH = Cons.IH
  show ?case
  proof (cases sts)
    case Nil
    then show ?thesis using prems by (simp add: wp_return cooled_def)
  next
    case (Cons st sts0)
    let ?d = "desired_for_target t plan"
    let ?A = "daemon_event_ok D"
    have hold: "wp (hold_lower_pwm E st ?d (downshift_delay_seconds (d_config D)))
        (\<lambda>(st', v) g. extends ?A h0 g \<and> ?d \<le> v \<and> (v = ?d \<or> applied_known st \<and> v = applied_pwm st) \<and>
           applied_pwm st' = applied_pwm st \<and> applied_known st' = applied_known st) h"
      by (rule wp_mono [OF wp_conj [OF emits_extends [OF appends_mono [OF quiet_hold] prems(4)] hold_spec]])
        (auto simp: list_all_iff quiet_ok)
    have rest: "wp (update_targets E D plan ts sts0)
        (\<lambda>(r, sts') h'. length sts' = length sts0 \<and> list_all (hold_ok (d_config D)) sts' \<and>
           extends ?A h0 h' \<and> (r = Inr () \<longrightarrow> cooled plan ts sts')) g" if "extends ?A h0 g" for g
      by (rule IH) (use prems Cons that in auto)
    have ok: "minimum_pwm (d_config D) \<le> v \<and> v \<le> 255"
      if "v = ?d \<or> applied_known st \<and> v = applied_pwm st" for v
      using that desired_ok [OF prems(1), of t] prems(3) Cons by (auto simp: hold_ok_def)
    have store: "wp (apply_pwm E (d_route D) (d_binary D) (d_plugin_dir D)
        (allow_unvalidated_writes (d_config D)) (fst t) v) (\<lambda>_ g'. extends ?A h0 g') g"
      if "v = ?d \<or> applied_known st \<and> v = applied_pwm st" "extends ?A h0 g" for v g
      by (rule emits_extends [OF apply_pwm_ok that(2)]) (use prems ok [OF that(1)] in auto)
    let ?Q = "\<lambda>(r, sts') h'. length sts' = Suc (length sts0) \<and> list_all (hold_ok (d_config D)) sts' \<and>
        extends ?A h0 h' \<and> (r = Inr () \<longrightarrow> cooled plan (t # ts) sts')"
    have tail: "wp (do { (r, sts') \<leftarrow> update_targets E D plan ts sts0; ret (r, st' # sts') }) ?Q g"
      if "hold_ok (d_config D) st'" "applied_known st'" "?d \<le> applied_pwm st'" "extends ?A h0 g" for st' g
      by (rule wp_bindI, rule wp_mono [OF rest [OF that(4)]])
        (use that in \<open>auto simp: wp_return cooled_def\<close>)
    have each_write: "wp (case w of Inl e \<Rightarrow> ret (Inl e, st' # sts0)
         | Inr _ \<Rightarrow> do { (r, sts') \<leftarrow> update_targets E D plan ts sts0;
                         ret (r, st'\<lparr>applied_pwm := v, applied_known := True\<rparr> # sts') }) ?Q g"
      if "hold_ok (d_config D) st'" "minimum_pwm (d_config D) \<le> v \<and> v \<le> 255" "?d \<le> v" "extends ?A h0 g"
      for w st' v g
    proof (cases w)
      case (Inl e)
      then show ?thesis using that prems(3) Cons by (simp add: wp_return)
    next
      case (Inr u)
      then show ?thesis using that tail [of "st'\<lparr>applied_pwm := v, applied_known := True\<rparr>" g]
        by (simp add: hold_ok_def)
    qed
    have st: "hold_ok (d_config D) st" using prems(3) Cons by simp
    show ?thesis
      unfolding Cons update_targets.simps length_Cons
      apply (rule wp_bindI, rule wp_mono [OF hold])
      subgoal for x g
        apply (cases x)
        apply (simp only: prod.case)
        apply (elim conjE)
        apply (rule wp_ifI)
         apply (rule wp_bindI, rule wp_mono [OF store], assumption, assumption)
         apply (rule each_write)
        using ok apply (auto intro: hold_ok_same [OF st])[4]
        apply (rule tail)
        using ok apply (auto intro: hold_ok_same [OF st])
        done
      done
  qed
qed

definition state_ok :: "daemon \<Rightarrow> daemon_state \<Rightarrow> bool" where
  "state_ok D s \<longleftrightarrow> length (s_states s) = 3 \<and> list_all (hold_ok (d_config D)) (s_states s) \<and>
     plan_ok (d_config D) (s_last_plan s)"

lemma daemon_cycle_spec:
  assumes ok: "fan_curve_validate_config (d_config D) = None" "state_ok D s" "extends (daemon_event_ok D) h0 h"
  shows "wp (daemon_cycle E D s)
     (\<lambda>(s', good) h'. state_ok D s' \<and> extends (daemon_event_ok D) h0 h' \<and>
        (good \<longrightarrow> cooled (s_last_plan s') (targets (d_route D)) (s_states s'))) h"
proof -
  let ?A = "daemon_event_ok D"
  have quietly: "wp m (\<lambda>_ g'. extends ?A h0 g') g" if "emits quiet m" "extends ?A h0 g" for m :: "'x io" and g
    by (rule emits_extends [OF appends_mono [OF that(1)] that(2)]) (auto simp: list_all_iff quiet_ok)
  have plan: "wp (daemon_plan E D) (\<lambda>(t, plan, good) g. plan_ok (d_config D) plan \<and> extends ?A h0 g) h"
    by (rule wp_mono [OF wp_conj [OF daemon_plan_ok [OF ok(1)] quietly [OF quiet_plan ok(3)]]]) auto
  have update: "wp (update_targets E D p (targets (d_route D)) (s_states s))
      (\<lambda>(r, sts') h'. length sts' = 3 \<and> list_all (hold_ok (d_config D)) sts' \<and>
        extends ?A h0 h' \<and> (r = Inr () \<longrightarrow> cooled p (targets (d_route D)) sts')) g"
    if "plan_ok (d_config D) p" "extends ?A h0 g" for p g
    by (rule wp_mono [OF update_targets_spec [OF that(1) _ _ that(2)]]) (use ok(2) in \<open>auto simp: state_ok_def\<close>)
  have report: "wp (write_state E D s' p status) (\<lambda>_ g'. extends ?A h0 g') g" if "extends ?A h0 g" for s' p status g
    by (rule quietly [OF quiet_write_state that])
  show ?thesis
    unfolding daemon_cycle_def
    apply (rule wp_bindI, rule wp_mono [OF plan], clarify)
    apply (rule wp_bindI, rule wp_mono [OF update], assumption, assumption, clarify)
    apply (rule wp_LetI, rule wp_bindI, rule wp_mono [OF report], assumption)
    apply (auto simp: wp_return state_ok_def)
    done
qed

lemma daemon_reaches_ok:
  assumes "daemon_reaches E D h0 x" "fan_curve_validate_config (d_config D) = None"
  shows "state_ok D (fst x) \<and> extends (daemon_event_ok D) h0 (snd x)"
  using assms(1)
proof induction
  case start
  show ?case
    using validated [OF assms(2)]
    by (auto simp: state_ok_def daemon_initial_def plan_ok_def hold_ok_def hold_initial_def list_all_iff
        intro: order.trans)
next
  case (turn x y)
  from turn(2) show ?case
  proof cases
    case (turn s h s' good h1 n u h2)
    have "state_ok D s' \<and> extends (daemon_event_ok D) h0 h1"
      using wp_run [OF turn(3) daemon_cycle_spec [OF assms(2)]] turn.IH turn(1) by auto
    moreover have "extends (daemon_event_ok D) h0 h2" if "extends (daemon_event_ok D) h0 h1"
    proof -
      have "emits (daemon_event_ok D) (daemon_wait n)"
        by (rule appends_mono [OF quiet_wait]) (auto simp: list_all_iff quiet_ok)
      from wp_run [OF turn(5) emits_extends [OF this that]] show ?thesis by simp
    qed
    ultimately show ?thesis using turn(2) by simp
  qed
qed

lemma load_config_wp:
  "wp (fan_curve_load_config E p) (\<lambda>r _. \<forall>c. r = Inr c \<longrightarrow> fan_curve_validate_config c = None) h"
  unfolding fan_curve_load_config_def calls
  by (auto simp: wp_simps parse_config_def finish_config_def Let_def
      split: file_read.splits sum.splits if_splits option.splits)

lemma find_route_mem: "find_model_route p = Some r \<Longrightarrow> r \<in> set model_routes"
  unfolding find_model_route_def by (auto simp: find_Some_iff)

lemma daemon_start_wp:
  "wp (daemon_start E argv) (\<lambda>r _. \<forall>D. r = Some D \<longrightarrow>
     fan_curve_validate_config (d_config D) = None \<and> d_route D \<in> set model_routes \<and>
     profile_matches_route (d_config D) (d_route D) = None) h"
proof -
  let ?Q = "\<lambda>r _. \<forall>D. r = Some D \<longrightarrow> fan_curve_validate_config (d_config D) = None \<and>
     d_route D \<in> set model_routes \<and> profile_matches_route (d_config D) (d_route D) = None"
  have lock: "wp (acquire_daemon_lock E) (\<lambda>l. wp (case l of Inl _ \<Rightarrow> ret None | Inr fd \<Rightarrow> ret (Some (f fd))) ?Q) g"
    if "\<And>fd. fan_curve_validate_config (d_config (f fd)) = None \<and> d_route (f fd) \<in> set model_routes \<and>
       profile_matches_route (d_config (f fd)) (d_route (f fd)) = None" for f g
    by (rule wp_mono [OF wp_True]) (use that in \<open>auto simp: wp_return split: sum.splits\<close>)
  have dmi: "wp (read_dmi_product E) (\<lambda>p. wp (case p of Inl _ \<Rightarrow> ret None | Inr product \<Rightarrow>
       (case find_model_route product of None \<Rightarrow> ret None | Some route \<Rightarrow>
         if profile_matches_route c route \<noteq> None then ret None
         else do { l \<leftarrow> acquire_daemon_lock E;
                   (case l of Inl _ \<Rightarrow> ret None
                    | Inr fd \<Rightarrow> ret (Some \<lparr>d_config = c, d_route = route, d_binary = bin,
                        d_plugin_dir = dir, d_state_path = st, d_once = o', d_lock = fd\<rparr>)) })) ?Q) g"
    if "fan_curve_validate_config c = None" for c bin dir st o' g
    by (rule wp_mono [OF wp_True])
      (use that in \<open>auto simp: wp_return dest!: find_route_mem
        intro!: wp_sumI wp_optionI wp_ifI wp_bindI lock\<close>)
  show ?thesis
    unfolding daemon_start_def access_def
    apply (rule wp_optionI, simp add: wp_return)
    apply (simp only: prod.case)
    apply (intro wp_optionI; (simp only: wp_return option.simps simp_thms)?)
    apply (intro wp_bindI wp_primI wp_ifI; (simp only: wp_return option.simps simp_thms)?)
    apply (rule wp_mono [OF load_config_wp], rule wp_sumI)
     apply (simp only: wp_return option.simps simp_thms)
    apply (rule wp_bindI, rule dmi, simp)
    done
qed

text \<open>
  \<^bold>\<open>C5.\<close>  However long the daemon runs, and whatever sensors, clock and child processes do:
  every PWM it has recorded as applied lies between the configured minimum (at least 40) and
  255, it accesses no port and writes no file, and every program it starts is the configured
  \<^verbatim>\<open>ugreenctl\<close> setting a fan of the detected model to a PWM in that range; on a model whose
  writes need \<^verbatim>\<open>--force\<close> it starts none unless the configuration allows unvalidated writes.
\<close>

theorem daemon_stays_safe:
  assumes "run_state (daemon_start E argv) h = (Some D, h0)"
    and "daemon_reaches E D h0 (s, h1)"
  shows "40 \<le> minimum_pwm (d_config D) \<and>
    (\<forall>st \<in> set (s_states s). applied_known st \<longrightarrow>
       minimum_pwm (d_config D) \<le> applied_pwm st \<and> applied_pwm st \<le> 255) \<and>
    (\<exists>es. h1 = h0 @ es \<and> list_all (daemon_event_ok D) es)"
proof -
  have v: "fan_curve_validate_config (d_config D) = None"
    using wp_run [OF assms(1) daemon_start_wp] by simp
  show ?thesis
    using daemon_reaches_ok [OF assms(2) v] validated(1) [OF v]
    by (auto simp: state_ok_def list_all_iff hold_ok_def extends_def)
qed


text \<open>A machine on which the daemon starts: a DXP4800 Plus with one CPU sensor.\<close>

definition example_daemon_file :: "string \<Rightarrow> file_read" where
  "example_daemon_file p =
     (if p = ''/etc/fan.conf'' then File_data (''profile=stock-4800plus'' @ [CHR 0x0A]) None
      else if p = ''/sys/class/dmi/id/product_name'' then File_data (''DXP4800 Plus'' @ [CHR 0x0A]) None
      else example_thermal_file p)"

definition example_daemon_env :: env where
  "example_daemon_env = example_thermal_env\<lparr>e_read := (\<lambda>_. example_daemon_file), e_access := (\<lambda>_ _ _. True),
     e_open_lock := (\<lambda>_ _. Inr 4)\<rparr>"

abbreviation example_argv :: "string list" where
  "example_argv \<equiv> [''--config'', ''/etc/fan.conf'', ''--state'', ''/run/fan.state'',
     ''--ugreenctl'', ''/usr/bin/ugreenctl'', ''--plugin-dir'', ''/usr/lib/ugreenctl'']"

lemma daemon_reaches_one:
  assumes "run_state (daemon_cycle E D (daemon_initial D)) h0 = ((s, good), h1)"
  shows "daemon_reaches E D h0 (s, h1)"
proof -
  have "run_state (daemon_wait 0) h1 = ((), h1)" by (subst daemon_wait.simps) simp
  with assms have "daemon_step E D (daemon_initial D, h0) (s, h1)"
    by (intro daemon_step.turn [where n = 0]) auto
  with daemon_reaches.start show ?thesis by (rule daemon_reaches.turn)
qed

definition example_started :: "daemon option \<times> trace" where
  "example_started = run_state (daemon_start example_daemon_env example_argv) []"

definition example_turn :: "(daemon_state \<times> bool) \<times> trace" where
  "example_turn = run_state (daemon_cycle example_daemon_env (the (fst example_started))
     (daemon_initial (the (fst example_started)))) (snd example_started)"

lemma example_start_ok: "fst example_started \<noteq> None"
  by code_simp

lemma example_turn_ok:
  "snd (fst example_turn)" "map applied_pwm (s_states (fst (fst example_turn))) = [95, 98, 0]"
  by code_simp+

theorem daemon_stays_safe_witness:
  "\<exists>D h0 s h1. run_state (daemon_start example_daemon_env example_argv) [] = (Some D, h0) \<and>
     daemon_reaches example_daemon_env D h0 (s, h1) \<and> 40 \<le> minimum_pwm (d_config D) \<and>
     (\<exists>es. h1 = h0 @ es \<and> list_all (daemon_event_ok D) es)"
proof -
  let ?D = "the (fst example_started)" and ?h0 = "snd example_started"
  have start: "run_state (daemon_start example_daemon_env example_argv) [] = (Some ?D, ?h0)"
    using example_start_ok unfolding example_started_def by (metis option.collapse prod.collapse)
  have "daemon_reaches example_daemon_env ?D ?h0 (fst (fst example_turn), snd example_turn)"
    by (rule daemon_reaches_one [where good = "snd (fst example_turn)"]) (simp add: example_turn_def)
  with daemon_stays_safe [OF start this] start show ?thesis by blast
qed


section \<open>A clock set back\<close>

text \<open>When the wall clock is set back while a decrease is pending, the elapsed time wraps and the decrease is applied
  at once, whatever the configured delay.\<close>

lemma wrapped_below:
  assumes "- (2 ^ 63) < d" "d < 0"
  shows "\<not> (word_of_int d :: u64) < ucast (n :: u32)"
proof -
  have "uint (word_of_int d :: u64) = d mod 2 ^ 64" by (simp only: unsigned_of_int take_bit_eq_mod) simp
  also have "\<dots> = d + 2 ^ 64"
    using assms mod_pos_pos_trivial [of "d + 2 ^ 64" "2 ^ 64"] by simp
  finally have big: "uint (word_of_int d :: u64) = d + 2 ^ 64" .
  have "unat n < 4294967296" by simp
  then have "int (unat n) < int 4294967296" by (simp only: of_nat_less_iff)
  then have "uint n < 2 ^ 63" unfolding uint_nat by simp
  moreover have "uint (ucast n :: u64) = uint n" unfolding uint_nat by simp
  ultimately show ?thesis unfolding word_less_def big using assms by simp
qed

lemma hold_lower_clock_set_back:
  assumes st: "applied_known st" "desired < applied_pwm st" "pending_lower_pwm st = desired"
    and late: "e_time E h < pending_since st" "pending_since st - e_time E h < 2 ^ 63"
  shows "fst (run_state (hold_lower_pwm E st desired delay) h) = (st, desired)"
proof -
  have "\<not> (word_of_int (e_time E h - pending_since st) :: u64) < ucast delay"
    by (rule wrapped_below) (use late in linarith)+
  with st show ?thesis
    unfolding hold_lower_pwm_def calls by (simp add: Let_def not_le del: of_int_diff)
qed

end
