(* ===== verification/Led_Protocol.thy ===== *)
theory Led_Protocol
  imports Ugreen_Prelude
begin

text \<open>
  The LED data model (\<^verbatim>\<open>led/led.h\<close>) and the wire protocol of the LED controller
  (\<^verbatim>\<open>led/led_protocol.c\<close>): status frames of 11 bytes and command frames of 12, both closed by
  a 16-bit sum, and the validation of a requested change (a patch) in itself, against what a
  LED can do, and against its current state.  Enumerations are their wire values, as a caller
  may pass any number; a missing string is \<open>None\<close>.
\<close>

unbundle bit_operations_syntax

section \<open>Data\<close>

abbreviation (input) LED_MODE_OFF :: u32 where "LED_MODE_OFF \<equiv> 0"
abbreviation (input) LED_MODE_ON :: u32 where "LED_MODE_ON \<equiv> 1"
abbreviation (input) LED_MODE_BLINK :: u32 where "LED_MODE_BLINK \<equiv> 2"
abbreviation (input) LED_MODE_BREATH :: u32 where "LED_MODE_BREATH \<equiv> 3"

abbreviation (input) LED_COLOR_NONE :: u32 where "LED_COLOR_NONE \<equiv> 0"
abbreviation (input) LED_COLOR_WHITE :: u32 where "LED_COLOR_WHITE \<equiv> 1"
abbreviation (input) LED_COLOR_ORANGE :: u32 where "LED_COLOR_ORANGE \<equiv> 2"
abbreviation (input) LED_COLOR_WHITE_ORANGE :: u32 where "LED_COLOR_WHITE_ORANGE \<equiv> 3"
abbreviation (input) LED_COLOR_RED :: u32 where "LED_COLOR_RED \<equiv> 4"
abbreviation (input) LED_COLOR_CHANNEL1 :: u32 where "LED_COLOR_CHANNEL1 \<equiv> 7"
abbreviation (input) LED_COLOR_CHANNEL2 :: u32 where "LED_COLOR_CHANNEL2 \<equiv> 8"
abbreviation (input) LED_COLOR_MAX :: u32 where "LED_COLOR_MAX \<equiv> 9"

text \<open>\<^verbatim>\<open>UGREENCTL_LED_MODE_BIT\<close> and \<^verbatim>\<open>UGREENCTL_LED_COLOR_BIT\<close>: \<^verbatim>\<open>1U << n\<close>, for validated \<open>n\<close>.\<close>

definition enum_bit :: "u32 \<Rightarrow> u32" where
  "enum_bit n = push_bit (unat n) 1"

datatype chip_read = CHIP_WORD_LE | CHIP_BYTES_BE | CHIP_DRIVER_PROBE

record led_descriptor =
  ld_name :: string
  ld_id :: u8
  bay :: u32
  rgb :: bool
  mode_mask :: u32
  max_brightness :: u32
  color_mask :: u32
  sysfs_name :: string
  min_on_ms :: u32
  min_off_ms :: u32
  min_brightness :: u32
  min_breath_on_ms :: u32
  min_breath_off_ms :: u32
  max_cycle_ms :: u32
  timing_quantum_ms :: u32

record led_profile =
  lp_id :: string
  product_name :: string
  product_version :: "string option"
  protocol :: string
  disk_count :: u32
  experimental :: bool
  evidence :: string
  leds :: "led_descriptor list"
  bus_prefix :: "string option"
  i2c_address :: u16
  expected_chip_id :: u16
  chip_register :: u8
  lp_chip_read :: chip_read
  sysfs_driver :: "string option"
  dt_compatible :: "string option"

record led_value =
  mode :: u32
  brightness :: u32
  red :: u32
  green :: u32
  blue :: u32
  on_ms :: u32
  off_ms :: u32
  color :: u32
  unknown_fields :: u32
  cached_fields :: u32
  n76_mode_valid :: bool
  unverified_write :: bool
  n76_modes :: "u8 \<times> u8"
  n76_version :: u8

text \<open>\<^verbatim>\<open>memset(value, 0, sizeof(*value))\<close>.\<close>

definition zero_value :: led_value where
  "zero_value = \<lparr>mode = 0, brightness = 0, red = 0, green = 0, blue = 0, on_ms = 0, off_ms = 0, color = 0,
     unknown_fields = 0, cached_fields = 0, n76_mode_valid = False, unverified_write = False,
     n76_modes = (0, 0), n76_version = 0\<rparr>"

abbreviation (input) PATCH_MODE :: u32 where "PATCH_MODE \<equiv> 1"
abbreviation (input) PATCH_RGB :: u32 where "PATCH_RGB \<equiv> 2"
abbreviation (input) PATCH_BRIGHTNESS :: u32 where "PATCH_BRIGHTNESS \<equiv> 4"
abbreviation (input) PATCH_TIMING :: u32 where "PATCH_TIMING \<equiv> 8"
abbreviation (input) PATCH_COLOR :: u32 where "PATCH_COLOR \<equiv> 16"

record led_patch =
  patch_fields :: u32
  pv :: led_value

definition has :: "led_patch \<Rightarrow> u32 \<Rightarrow> bool" where
  "has p f \<longleftrightarrow> patch_fields p AND f \<noteq> 0"

section \<open>Frames\<close>

definition checksum :: "u8 list \<Rightarrow> u32" where
  "checksum data = foldl (\<lambda>sum b. sum + ucast b) 0 data"

definition be16 :: "u8 \<Rightarrow> u8 \<Rightarrow> u32" where
  "be16 hi lo = push_bit 8 (ucast hi) OR ucast lo"

definition led_decode :: "u8 list \<Rightarrow> errno + led_value" where
  "led_decode frame =
     (if length frame \<noteq> 11 then Inl EINVAL
      else if checksum (take 9 frame) \<noteq> be16 (frame ! 9) (frame ! 10) \<or> frame ! 0 > 3 then Inl EBADMSG
      else let cycle = be16 (frame ! 5) (frame ! 6); on = be16 (frame ! 7) (frame ! 8) in
        if on > cycle then Inl EBADMSG
        else Inr \<lparr>mode = ucast (frame ! 0), brightness = ucast (frame ! 1), red = ucast (frame ! 2),
                  green = ucast (frame ! 3), blue = ucast (frame ! 4), on_ms = on, off_ms = cycle - on,
                  color = 0, unknown_fields = 0, cached_fields = 0, n76_mode_valid = False,
                  unverified_write = False, n76_modes = (0, 0), n76_version = 0\<rparr>)"

definition led_encode :: "u8 \<Rightarrow> u8 \<Rightarrow> u8 list \<Rightarrow> errno + u8 list" where
  "led_encode i command parameters =
     (if i > 9 \<or> command < 1 \<or> command > 5 then Inl EINVAL
      else
        let body = [0xa0, 1, 0, 0, command] @ take 4 parameters;
            sum = checksum body
        in Inr (i # body @ [ucast (drop_bit 8 sum), ucast sum]))"

definition led_encode_smbus :: "u8 \<Rightarrow> u8 list \<Rightarrow> bool \<Rightarrow> errno + u8 list" where
  "led_encode_smbus command parameters little_endian_checksum =
     (case led_encode 0 command parameters of Inl e \<Rightarrow> Inl e
      | Inr legacy \<Rightarrow>
          let frame = take 11 (drop 1 legacy);
              frame = (if little_endian_checksum
                       then frame[9 := legacy ! 11, 10 := legacy ! 10] else frame)
          in Inr (frame @ [0]))"

section \<open>Names\<close>

definition led_mode_name :: "u32 \<Rightarrow> string" where
  "led_mode_name m =
     (if m = LED_MODE_OFF then ''off'' else if m = LED_MODE_ON then ''on''
      else if m = LED_MODE_BLINK then ''blink'' else if m = LED_MODE_BREATH then ''breath'' else ''unknown'')"

definition led_color_name :: "u32 \<Rightarrow> string" where
  "led_color_name c =
     (let names = [''none'', ''white'', ''orange'', ''white-orange'', ''red'', ''green'', ''blue'',
                   ''channel1'', ''channel2'', ''both''] in
      if unat c < length names then names ! unat c else ''unknown'')"

section \<open>Validation\<close>

definition led_validate_patch :: "led_patch \<Rightarrow> errno option" where
  "led_validate_patch p =
     (let v = pv p; known = PATCH_MODE OR PATCH_RGB OR PATCH_BRIGHTNESS OR PATCH_TIMING OR PATCH_COLOR in
      if patch_fields p = 0 \<or> patch_fields p AND NOT known \<noteq> 0 then Some EINVAL
      else if has p PATCH_RGB \<and> (red v > 255 \<or> green v > 255 \<or> blue v > 255) then Some EINVAL
      else if has p PATCH_BRIGHTNESS \<and> brightness v > 255 then Some EINVAL
      else if has p PATCH_COLOR \<and> (color v > LED_COLOR_MAX \<or> has p PATCH_RGB) then Some EINVAL
      else if has p PATCH_MODE \<and> mode v > LED_MODE_BREATH then Some EINVAL
      else if has p PATCH_TIMING \<and>
        (\<not> has p PATCH_MODE \<or> (mode v \<noteq> LED_MODE_BLINK \<and> mode v \<noteq> LED_MODE_BREATH)) then Some EINVAL
      else if has p PATCH_MODE \<and> (mode v = LED_MODE_BLINK \<or> mode v = LED_MODE_BREATH) \<and>
        \<not> has p PATCH_TIMING then Some EINVAL
      else if has p PATCH_TIMING \<and>
        (on_ms v > 65535 \<or> off_ms v > 65535 \<or> on_ms v > 65535 - off_ms v) then Some EINVAL
      else None)"

definition led_validate_target_patch :: "led_descriptor option \<Rightarrow> led_patch \<Rightarrow> errno option" where
  "led_validate_target_patch target p =
     (case led_validate_patch p of Some e \<Rightarrow> Some e
      | None \<Rightarrow>
        (case target of None \<Rightarrow> Some ENOTSUP
         | Some t \<Rightarrow>
           let v = pv p in
           if has p PATCH_RGB \<and> \<not> rgb t then Some ENOTSUP
           else if has p PATCH_COLOR \<and> color_mask t AND enum_bit (color v) = 0 then Some ENOTSUP
           else if has p PATCH_MODE \<and> mode_mask t AND enum_bit (mode v) = 0 then Some ENOTSUP
           else if has p PATCH_BRIGHTNESS \<and> max_brightness t = 0 then Some ENOTSUP
           else if has p PATCH_BRIGHTNESS \<and> brightness v > max_brightness t then Some ENOTSUP
           else if has p PATCH_BRIGHTNESS \<and> brightness v < min_brightness t then Some ENOTSUP
           else if \<not> rgb t \<and> max_brightness t = 1 \<and> has p PATCH_MODE \<and> has p PATCH_BRIGHTNESS \<and>
             mode v \<le> LED_MODE_ON \<and> (mode v = LED_MODE_ON) \<noteq> (brightness v \<noteq> 0) then Some ENOTSUP
           else if has p PATCH_TIMING \<and> mode v = LED_MODE_BLINK \<and>
             (on_ms v < min_on_ms t \<or> off_ms v < min_off_ms t) then Some ENOTSUP
           else if has p PATCH_TIMING \<and> mode v = LED_MODE_BREATH \<and>
             (on_ms v < min_breath_on_ms t \<or> off_ms v < min_breath_off_ms t) then Some ENOTSUP
           else if has p PATCH_TIMING \<and> max_cycle_ms t \<noteq> 0 \<and> on_ms v + off_ms v > max_cycle_ms t
           then Some ENOTSUP
           else if has p PATCH_TIMING \<and> timing_quantum_ms t \<noteq> 0 \<and>
             (on_ms v mod timing_quantum_ms t \<noteq> 0 \<or> off_ms v mod timing_quantum_ms t \<noteq> 0)
           then Some ENOTSUP
           else None))"

definition led_validate_state_patch ::
    "led_profile \<Rightarrow> led_descriptor option \<Rightarrow> led_value \<Rightarrow> led_patch \<Rightarrow> errno option" where
  "led_validate_state_patch pr target before p =
     (case led_validate_target_patch target p of Some e \<Rightarrow> Some e
      | None \<Rightarrow>
        if protocol pr \<noteq> ''sysfs-n76'' then None
        else
          let m = (if has p PATCH_MODE then mode (pv p) else mode before);
              c = (if has p PATCH_COLOR then color (pv p) else color before)
          in
          if \<not> has p PATCH_MODE \<and>
            (unknown_fields before AND PATCH_MODE \<noteq> 0 \<or> (m \<noteq> LED_MODE_ON \<and> m \<noteq> LED_MODE_OFF))
          then Some ENOTSUP
          else if max_brightness (the target) > 1 \<and> has p PATCH_BRIGHTNESS \<and> brightness (pv p) = 1
          then Some ENOTSUP
          else if (m = LED_MODE_ON \<or> m = LED_MODE_BLINK) \<and> \<not> has p PATCH_COLOR \<and>
            unknown_fields before AND PATCH_COLOR \<noteq> 0 then Some ENOTSUP
          else if m = LED_MODE_ON \<and> c = LED_COLOR_NONE then Some ENOTSUP
          else if m = LED_MODE_BLINK \<and> c \<noteq> LED_COLOR_WHITE \<and> c \<noteq> LED_COLOR_ORANGE then Some ENOTSUP
          else None)"

section \<open>The sum on natural numbers\<close>

definition byte_sum :: "u8 list \<Rightarrow> nat" where
  "byte_sum bs = sum_list (map unat bs)"

lemma byte_sum_bound: "byte_sum bs \<le> 255 * length bs"
proof (induction bs)
  case (Cons b bs)
  have "byte_sum (b # bs) = unat b + byte_sum bs" by (simp add: byte_sum_def)
  also have "\<dots> \<le> 255 + 255 * length bs" by (intro add_mono u8_le Cons)
  finally show ?case by simp
qed (simp add: byte_sum_def)

lemma checksum_foldl:
  "unat (s :: u32) + byte_sum bs < 4294967296 \<Longrightarrow> unat (foldl (\<lambda>sum b. sum + ucast b) s bs) = unat s + byte_sum bs"
proof (induction bs arbitrary: s)
  case (Cons b bs)
  have le: "unat s + unat b < 4294967296" using Cons.prems by (simp add: byte_sum_def)
  then have "unat (s + ucast b) = unat s + unat b"
    by (subst unat_add_lem [THEN iffD1]) simp_all
  with Cons show ?case by (simp add: byte_sum_def)
qed (simp add: byte_sum_def)

lemma unat_checksum: "length bs \<le> 16 \<Longrightarrow> unat (checksum bs) = byte_sum bs"
  unfolding checksum_def using byte_sum_bound [of bs] by (subst checksum_foldl) simp_all

lemma byte_sum_update:
  "i < length bs \<Longrightarrow> byte_sum (bs[i := b]) + unat (bs ! i) = byte_sum bs + unat b"
  unfolding byte_sum_def
  by (induction bs arbitrary: i) (auto simp: nth_Cons' split: nat.splits)

lemma be16_add: "be16 hi lo = ucast hi * 256 + ucast lo"
proof -
  have "push_bit 8 (ucast hi) AND ucast lo = (0 :: u32)"
    by (rule bit_word_eqI) (auto simp: bit_simps dest: bit_imp_le_length)
  then have "be16 hi lo = push_bit 8 (ucast hi) + ucast lo"
    unfolding be16_def by (rule disjunctive_add_eq_or [symmetric])
  then show ?thesis by (simp add: push_bit_eq_mult)
qed

lemma unat_be16: "unat (be16 hi lo) = 256 * unat hi + unat lo"
proof -
  have b: "unat hi \<le> 255" "unat lo \<le> 255" by simp_all
  then have "unat hi * 256 \<le> 65535" "unat hi * 256 + unat lo \<le> 65535" by linarith+
  then have small: "unat hi * 256 < 2 ^ 32" "unat hi * 256 + unat lo < 2 ^ 32"
    by (auto elim: le_less_trans)
  have m: "unat (ucast hi * 256 :: u32) = unat hi * 256"
    using unat_mult_lem [THEN iffD1, of "ucast hi :: u32" 256] small(1) by simp
  show ?thesis
    using unat_add_lem [THEN iffD1, of "ucast hi * 256 :: u32" "ucast lo"] m small(2)
    unfolding be16_add by simp
qed

lemma be16_eq_iff: "be16 a b = be16 c d \<longleftrightarrow> a = c \<and> b = d"
proof
  assume "be16 a b = be16 c d"
  then have e: "256 * unat a + unat b = 256 * unat c + unat d" by (metis unat_be16)
  have split: "(256 * unat x + unat y) div 256 = unat x" "(256 * unat x + unat y) mod 256 = unat y"
    for x y :: u8 by simp_all
  show "a = c \<and> b = d"
    using split [of a b] split [of c d] unfolding e by (simp add: word_unat_eq_iff)
qed simp

section \<open>Frames are protected\<close>

definition frame_sum_ok :: "u8 list \<Rightarrow> bool" where
  "frame_sum_ok frame \<longleftrightarrow> length frame = 11 \<and> checksum (take 9 frame) = be16 (frame ! 9) (frame ! 10)"

lemma decode_sum: "led_decode frame = Inr v \<Longrightarrow> frame_sum_ok frame"
  by (auto simp: led_decode_def frame_sum_ok_def split: if_splits)

lemma frame_corruption:
  assumes ok: "frame_sum_ok frame" and i: "i < 11" and b: "b \<noteq> frame ! i"
  shows "\<not> frame_sum_ok (frame[i := b])"
proof
  let ?g = "frame[i := b]"
  assume bad: "frame_sum_ok ?g"
  have len: "length frame = 11" using ok by (simp add: frame_sum_ok_def)
  have sums: "byte_sum (take 9 frame) = 256 * unat (frame ! 9) + unat (frame ! 10)"
    "byte_sum (take 9 ?g) = 256 * unat (?g ! 9) + unat (?g ! 10)"
    using ok bad unat_checksum [of "take 9 frame"] unat_checksum [of "take 9 ?g"]
    by (simp_all add: frame_sum_ok_def unat_be16)
  show False
  proof (cases "i < 9")
    case True
    have "take 9 ?g = (take 9 frame)[i := b]" by (simp add: take_update_swap)
    then have "byte_sum (take 9 ?g) + unat (frame ! i) = byte_sum (take 9 frame) + unat b"
      using byte_sum_update [of i "take 9 frame" b] True len by simp
    moreover have "?g ! 9 = frame ! 9" "?g ! 10 = frame ! 10" using True by simp_all
    ultimately have "unat b = unat (frame ! i)" using sums by simp
    with b show False by (simp add: word_unat_eq_iff)
  next
    case False
    then have same: "take 9 ?g = take 9 frame" by simp
    have "be16 (?g ! 9) (?g ! 10) = be16 (frame ! 9) (frame ! 10)"
      using ok bad by (simp add: frame_sum_ok_def same)
    then have "?g ! 9 = frame ! 9 \<and> ?g ! 10 = frame ! 10" by (simp only: be16_eq_iff)
    moreover have "i = 9 \<or> i = 10" using False i by linarith
    ultimately show False using b len by auto
  qed
qed

text \<open>
  \<^bold>\<open>C16.\<close>  Corrupting any single byte of an accepted status frame makes the decoder reject it.
\<close>

theorem led_decode_detects_corruption:
  assumes "led_decode frame = Inr v" "i < 11" "b \<noteq> frame ! i"
  shows "led_decode (frame[i := b]) = Inl EBADMSG"
  using frame_corruption [OF decode_sum [OF assms(1)] assms(2,3)] decode_sum [OF assms(1)]
  by (auto simp: led_decode_def frame_sum_ok_def)

definition example_frame :: "u8 list" where
  "example_frame = [1, 0x80, 0xff, 0x40, 0x10, 0x03, 0xe8, 0x01, 0xf4, 0x03, 0xb0]"

theorem led_decode_detects_corruption_witness:
  "(\<exists>v. led_decode example_frame = Inr v) \<and> led_decode (example_frame[3 := 0x41]) = Inl EBADMSG"
proof -
  have "(case led_decode example_frame of Inl _ \<Rightarrow> False | Inr v \<Rightarrow> True)" by code_simp
  then obtain v where v: "led_decode example_frame = Inr v" by (auto split: sum.splits)
  have "led_decode (example_frame[3 := 0x41]) = Inl EBADMSG"
    by (rule led_decode_detects_corruption [OF v]) (simp_all add: example_frame_def)
  with v show ?thesis by blast
qed

section \<open>Encoding is lossless\<close>

lemma unat_high_byte: "unat (ucast (drop_bit 8 (x :: u32)) :: u8) = unat x div 256 mod 256"
  by (simp add: unsigned_ucast_eq take_bit_eq_mod drop_bit_eq_div unat_div)

lemma unat_low_byte: "unat (ucast (x :: u32) :: u8) = unat x mod 256"
  by (simp add: unsigned_ucast_eq take_bit_eq_mod)

text \<open>Splitting a 16-bit number into two bytes and reading it back.\<close>

lemma be16_split: "unat x < 65536 \<Longrightarrow> be16 (ucast (drop_bit 8 x)) (ucast x) = x"
  by (simp add: word_unat_eq_iff unat_be16 unat_high_byte) (simp add: unat_low_byte)

lemma ucast_8_back: "(x :: u32) \<le> 255 \<Longrightarrow> ucast (ucast x :: u8) = x"
  by (simp add: word_unat_eq_iff word_le_unat unat_low_byte)

lemma checksum_small: "length bs \<le> 16 \<Longrightarrow> unat (checksum bs) < 65536"
  using byte_sum_bound [of bs] by (simp add: unat_checksum)

text \<open>
  A command is encoded exactly when the LED is one of 0 to 9 and the command one of 1 to
  5; the frame then has 12 bytes, carries the LED, the fixed header, the command and the four
  parameters unchanged, and its last two bytes are the big-endian sum of the nine bytes after
  the LED.
\<close>

theorem led_encode_spec:
  assumes "length parameters = 4"
  shows "if i \<le> 9 \<and> 1 \<le> command \<and> command \<le> 5
         then \<exists>frame. led_encode i command parameters = Inr frame \<and> length frame = 12 \<and>
                frame ! 0 = i \<and> take 4 (drop 1 frame) = [0xa0, 1, 0, 0] \<and> frame ! 5 = command \<and>
                take 4 (drop 6 frame) = parameters \<and>
                be16 (frame ! 10) (frame ! 11) = checksum (take 9 (drop 1 frame))
         else led_encode i command parameters = Inl EINVAL"
proof -
  obtain a b c d where p: "parameters = [a, b, c, d]"
    using assms by (auto simp: length_Suc_conv numeral_eq_Suc)
  have "be16 (ucast (drop_bit 8 (checksum [0xa0, 1, 0, 0, command, a, b, c, d])))
      (ucast (checksum [0xa0, 1, 0, 0, command, a, b, c, d])) = checksum [0xa0, 1, 0, 0, command, a, b, c, d]"
    by (intro be16_split checksum_small) simp
  then show ?thesis by (auto simp: led_encode_def p Let_def not_less not_le)
qed

theorem led_encode_spec_witness:
  "\<exists>frame. led_encode 2 4 [1, 2, 3, 4] = Inr frame \<and> take 4 (drop 6 frame) = [1, 2, 3, 4] \<and>
     be16 (frame ! 10) (frame ! 11) = checksum (take 9 (drop 1 frame))"
  using led_encode_spec [of "[1, 2, 3, 4]" 2 4] by auto

text \<open>The status frame a controller sends for a value.\<close>

definition status_frame :: "led_value \<Rightarrow> u8 list" where
  "status_frame v =
     (let cycle = on_ms v + off_ms v;
          body = [ucast (mode v), ucast (brightness v), ucast (red v), ucast (green v), ucast (blue v),
                  ucast (drop_bit 8 cycle), ucast cycle, ucast (drop_bit 8 (on_ms v)), ucast (on_ms v)]
      in body @ [ucast (drop_bit 8 (checksum body)), ucast (checksum body)])"

definition wire_value :: "led_value \<Rightarrow> bool" where
  "wire_value v \<longleftrightarrow> mode v \<le> 3 \<and> brightness v \<le> 255 \<and> red v \<le> 255 \<and> green v \<le> 255 \<and> blue v \<le> 255 \<and>
     unat (on_ms v) + unat (off_ms v) \<le> 65535 \<and> color v = 0 \<and> unknown_fields v = 0 \<and> cached_fields v = 0 \<and>
     \<not> n76_mode_valid v \<and> \<not> unverified_write v \<and> n76_modes v = (0, 0) \<and> n76_version v = 0"

lemma cycle_facts:
  assumes "unat (on_ms v) + unat (off_ms v) \<le> 65535"
  shows "unat (on_ms v + off_ms v) = unat (on_ms v) + unat (off_ms v)" "on_ms v \<le> on_ms v + off_ms v"
proof -
  have "unat (on_ms v) + unat (off_ms v) < 2 ^ LENGTH(32)" using assms by (simp add: le_less_trans)
  then show "unat (on_ms v + off_ms v) = unat (on_ms v) + unat (off_ms v)" by (rule unat_add_lem [THEN iffD1])
  then show "on_ms v \<le> on_ms v + off_ms v" by (simp add: word_le_unat)
qed

lemma led_decode_bytes:
  "led_decode [a0, a1, a2, a3, a4, a5, a6, a7, a8, a9, a10] =
     (if checksum [a0, a1, a2, a3, a4, a5, a6, a7, a8] \<noteq> be16 a9 a10 \<or> a0 > 3 then Inl EBADMSG
      else if be16 a7 a8 > be16 a5 a6 then Inl EBADMSG
      else Inr \<lparr>mode = ucast a0, brightness = ucast a1, red = ucast a2, green = ucast a3, blue = ucast a4,
                on_ms = be16 a7 a8, off_ms = be16 a5 a6 - be16 a7 a8, color = 0, unknown_fields = 0,
                cached_fields = 0, n76_mode_valid = False, unverified_write = False, n76_modes = (0, 0),
                n76_version = 0\<rparr>)"
  by (simp add: led_decode_def Let_def)

text \<open>
  Decoding inverts the frame layout: every value that fits the wire (mode 0 to 3, bytes,
  and an on/off cycle of at most 65535 ms) is recovered exactly from its status frame.
\<close>

theorem led_status_round_trip:
  assumes "wire_value v"
  shows "led_decode (status_frame v) = Inr v"
proof -
  let ?cycle = "on_ms v + off_ms v"
  have w: "mode v \<le> 3" "unat (on_ms v) + unat (off_ms v) \<le> 65535" using assms by (auto simp: wire_value_def)
  have cyc: "be16 (ucast (drop_bit 8 ?cycle)) (ucast ?cycle) = ?cycle"
    using w(2) by (intro be16_split) (simp add: cycle_facts)
  have on: "be16 (ucast (drop_bit 8 (on_ms v))) (ucast (on_ms v)) = on_ms v"
    using w(2) by (intro be16_split) simp
  have sum: "be16 (ucast (drop_bit 8 (checksum bs))) (ucast (checksum bs)) = checksum bs"
    if "length bs \<le> 16" for bs using that by (intro be16_split checksum_small)
  have m: "\<not> (3 :: u8) < ucast (mode v)"
    using w(1) by (simp add: not_less word_le_unat unat_low_byte)
  show ?thesis
    using assms m cycle_facts(2) [OF w(2)]
    unfolding status_frame_def Let_def append.simps led_decode_bytes cyc on
    by (subst sum, simp) (cases v, simp add: ucast_8_back wire_value_def not_less order.trans [of _ 3 255])
qed

definition example_value :: led_value where
  "example_value = \<lparr>mode = 2, brightness = 200, red = 255, green = 16, blue = 0, on_ms = 700, off_ms = 1300,
     color = 0, unknown_fields = 0, cached_fields = 0, n76_mode_valid = False, unverified_write = False,
     n76_modes = (0, 0), n76_version = 0\<rparr>"

theorem led_status_round_trip_witness: "led_decode (status_frame example_value) = Inr example_value"
  by (rule led_status_round_trip) code_simp

section \<open>What validation guarantees\<close>

lemma validated_timing:
  assumes "led_validate_patch p = None" "has p PATCH_TIMING"
  shows "unat (on_ms (pv p)) + unat (off_ms (pv p)) \<le> 65535"
proof -
  have "off_ms (pv p) \<le> 65535" "on_ms (pv p) \<le> 65535 - off_ms (pv p)"
    using assms by (auto simp: led_validate_patch_def Let_def not_less split: if_splits)
  then have "unat (on_ms (pv p)) \<le> 65535 - unat (off_ms (pv p))" "unat (off_ms (pv p)) \<le> 65535"
    by (simp_all add: word_le_unat unat_sub)
  then show ?thesis by linarith
qed

text \<open>
  A patch accepted for a LED asks only for what that LED can do and what fits the wire:
  colour bytes and brightness within range, a mode and palette colour the LED has, and for an
  effect both durations present, no shorter than the LED's minimum, and a whole cycle, computed
  without wrap-around, of at most 65535 ms and at most the LED's maximum.
\<close>

theorem led_target_patch_sound:
  assumes "led_validate_target_patch (Some t) p = None"
  shows "(has p PATCH_RGB \<longrightarrow> rgb t \<and> red (pv p) \<le> 255 \<and> green (pv p) \<le> 255 \<and> blue (pv p) \<le> 255) \<and>
    (has p PATCH_BRIGHTNESS \<longrightarrow> min_brightness t \<le> brightness (pv p) \<and> brightness (pv p) \<le> max_brightness t \<and>
       brightness (pv p) \<le> 255) \<and>
    (has p PATCH_COLOR \<longrightarrow> \<not> has p PATCH_RGB \<and> bit (color_mask t) (unat (color (pv p)))) \<and>
    (has p PATCH_MODE \<longrightarrow> mode (pv p) \<le> 3 \<and> bit (mode_mask t) (unat (mode (pv p)))) \<and>
    (has p PATCH_TIMING \<longleftrightarrow> has p PATCH_MODE \<and> (mode (pv p) = 2 \<or> mode (pv p) = 3)) \<and>
    (has p PATCH_TIMING \<longrightarrow>
       unat (on_ms (pv p)) + unat (off_ms (pv p)) \<le> 65535 \<and>
       (max_cycle_ms t \<noteq> 0 \<longrightarrow> unat (on_ms (pv p)) + unat (off_ms (pv p)) \<le> unat (max_cycle_ms t)) \<and>
       (mode (pv p) = 2 \<longrightarrow> min_on_ms t \<le> on_ms (pv p) \<and> min_off_ms t \<le> off_ms (pv p)) \<and>
       (mode (pv p) = 3 \<longrightarrow> min_breath_on_ms t \<le> on_ms (pv p) \<and> min_breath_off_ms t \<le> off_ms (pv p)))"
proof -
  have ok: "led_validate_patch p = None"
    using assms by (auto simp: led_validate_target_patch_def split: option.splits)
  have mask: "(m AND enum_bit n \<noteq> 0) = bit m (unat n)" for m n :: u32
    unfolding enum_bit_def push_bit_of_1 and_exp_eq_0_iff_not_bit by simp
  have patch: "(has p PATCH_RGB \<longrightarrow> red (pv p) \<le> 255 \<and> green (pv p) \<le> 255 \<and> blue (pv p) \<le> 255)"
    "(has p PATCH_BRIGHTNESS \<longrightarrow> brightness (pv p) \<le> 255)"
    "(has p PATCH_COLOR \<longrightarrow> \<not> has p PATCH_RGB)" "(has p PATCH_MODE \<longrightarrow> mode (pv p) \<le> 3)"
    "has p PATCH_TIMING \<longleftrightarrow> has p PATCH_MODE \<and> (mode (pv p) = 2 \<or> mode (pv p) = 3)"
    using ok by (auto simp: led_validate_patch_def Let_def not_less split: if_splits)
  have target: "has p PATCH_RGB \<Longrightarrow> rgb t"
    "has p PATCH_BRIGHTNESS \<Longrightarrow> min_brightness t \<le> brightness (pv p) \<and> brightness (pv p) \<le> max_brightness t"
    "has p PATCH_COLOR \<Longrightarrow> color_mask t AND enum_bit (color (pv p)) \<noteq> 0"
    "has p PATCH_MODE \<Longrightarrow> mode_mask t AND enum_bit (mode (pv p)) \<noteq> 0"
    "has p PATCH_TIMING \<Longrightarrow> mode (pv p) = 2 \<Longrightarrow> min_on_ms t \<le> on_ms (pv p) \<and> min_off_ms t \<le> off_ms (pv p)"
    "has p PATCH_TIMING \<Longrightarrow> mode (pv p) = 3 \<Longrightarrow> min_breath_on_ms t \<le> on_ms (pv p) \<and> min_breath_off_ms t \<le> off_ms (pv p)"
    "has p PATCH_TIMING \<Longrightarrow> max_cycle_ms t \<noteq> 0 \<Longrightarrow> on_ms (pv p) + off_ms (pv p) \<le> max_cycle_ms t"
    using assms ok unfolding led_validate_target_patch_def Let_def
    by (simp_all add: not_less split: if_splits)
  have cycle: "unat (on_ms (pv p)) + unat (off_ms (pv p)) \<le> unat (max_cycle_ms t)"
    if "has p PATCH_TIMING" "max_cycle_ms t \<noteq> 0"
    using target(7) [OF that] cycle_facts(1) [OF validated_timing [OF ok that(1)]] by (simp add: word_le_unat)
  show ?thesis
    using patch target cycle validated_timing [OF ok] unfolding mask by blast
qed

definition example_led :: led_descriptor where
  "example_led = \<lparr>ld_name = ''disk1'', ld_id = 2, bay = 1, rgb = True, mode_mask = 0xf, max_brightness = 255,
     color_mask = 0, sysfs_name = ''disk1'', min_on_ms = 100, min_off_ms = 100, min_brightness = 0,
     min_breath_on_ms = 1000, min_breath_off_ms = 500, max_cycle_ms = 12750, timing_quantum_ms = 50\<rparr>"

theorem led_target_patch_sound_witness:
  "led_validate_target_patch (Some example_led) \<lparr>patch_fields = 9, pv = example_value\<rparr> = None \<and>
   unat (on_ms example_value) + unat (off_ms example_value) \<le> unat (max_cycle_ms example_led)"
proof -
  let ?p = "\<lparr>patch_fields = 9, pv = example_value\<rparr> :: led_patch"
  have "led_validate_target_patch (Some example_led) ?p = None" "has ?p 8" "max_cycle_ms example_led \<noteq> 0"
    by code_simp+
  with led_target_patch_sound [of example_led ?p] show ?thesis by simp
qed

end
