(* ===== verification/Led_Profiles.thy ===== *)
theory Led_Profiles
  imports Led_Protocol
begin

text \<open>
  The per-model LED tables (\<^verbatim>\<open>models/led_profiles.c\<close>): which LEDs a model has, how its
  controller is reached, and the exact lookup by product name and revision.
\<close>

section \<open>LED layouts\<close>

definition UGREENCTL_MAX_LEDS :: nat where "UGREENCTL_MAX_LEDS = 16"

text \<open>The initialiser macros; a field they do not name is zero.\<close>

definition rgb_led :: "string \<Rightarrow> u8 \<Rightarrow> u32 \<Rightarrow> string \<Rightarrow> led_descriptor" where
  "rgb_led n i b s = \<lparr>ld_name = n, ld_id = i, bay = b, rgb = True, mode_mask = 0x0f, max_brightness = 255,
     color_mask = 0, sysfs_name = s, min_on_ms = 0, min_off_ms = 0, min_brightness = 0,
     min_breath_on_ms = 0, min_breath_off_ms = 0, max_cycle_ms = 0, timing_quantum_ms = 0\<rparr>"

definition common_rgb :: "led_descriptor list" where
  "common_rgb = [rgb_led ''power'' 0 0 ''power'', rgb_led ''netdev'' 1 0 ''network_stat'']"

definition rgb2 :: "led_descriptor list" where
  "rgb2 = common_rgb @ [rgb_led ''disk1'' 2 1 ''disk1'', rgb_led ''disk2'' 3 2 ''disk2'']"

definition rgb4 :: "led_descriptor list" where
  "rgb4 = rgb2 @ [rgb_led ''disk3'' 4 3 ''disk3'', rgb_led ''disk4'' 5 4 ''disk4'']"

definition rgb6 :: "led_descriptor list" where
  "rgb6 = rgb4 @ [rgb_led ''disk5'' 6 5 ''disk5'', rgb_led ''disk6'' 7 6 ''disk6'']"

definition rgb8 :: "led_descriptor list" where
  "rgb8 = rgb6 @ [rgb_led ''disk7'' 8 7 ''disk7'', rgb_led ''disk8'' 9 8 ''disk8'']"

definition idx6 :: "led_descriptor list" where
  "idx6 = common_rgb @ [rgb_led ''netdev2'' 2 0 ''network_stat2'',
     rgb_led ''disk1'' 3 1 ''disk1'', rgb_led ''disk2'' 4 2 ''disk2'', rgb_led ''disk3'' 5 3 ''disk3'',
     rgb_led ''disk4'' 6 4 ''disk4'', rgb_led ''disk5'' 7 5 ''disk5'', rgb_led ''disk6'' 8 6 ''disk6'']"

definition N76_COLORS :: u32 where
  "N76_COLORS = enum_bit LED_COLOR_WHITE OR enum_bit LED_COLOR_ORANGE OR enum_bit LED_COLOR_WHITE_ORANGE"

definition n76_led :: "string \<Rightarrow> u8 \<Rightarrow> u32 \<Rightarrow> led_descriptor" where
  "n76_led n i b = \<lparr>ld_name = n, ld_id = i, bay = b, rgb = False, mode_mask = 7, max_brightness = 254,
     color_mask = N76_COLORS, sysfs_name = n, min_on_ms = 20, min_off_ms = 20, min_brightness = 2,
     min_breath_on_ms = 0, min_breath_off_ms = 0, max_cycle_ms = 0, timing_quantum_ms = 0\<rparr>"

definition n76_power :: "led_descriptor list" where
  "n76_power = [n76_led ''power'' 0 0]"

definition dh2600_led :: "string \<Rightarrow> u8 \<Rightarrow> u32 \<Rightarrow> led_descriptor" where
  "dh2600_led n i b = \<lparr>ld_name = n, ld_id = i, bay = b, rgb = False, mode_mask = 7, max_brightness = 1,
     color_mask = N76_COLORS, sysfs_name = n, min_on_ms = 20, min_off_ms = 20, min_brightness = 0,
     min_breath_on_ms = 0, min_breath_off_ms = 0, max_cycle_ms = 0, timing_quantum_ms = 0\<rparr>"

definition n76_dh2600 :: "led_descriptor list" where
  "n76_dh2600 = [dh2600_led ''power'' 0 0, dh2600_led ''disk1'' 1 1, dh2600_led ''disk2'' 2 2]"

definition gpio_colors :: "u32 \<Rightarrow> u32" where
  "gpio_colors second = enum_bit LED_COLOR_WHITE OR enum_bit second OR enum_bit LED_COLOR_CHANNEL1 OR
     enum_bit LED_COLOR_CHANNEL2"

definition gpio_led :: "string \<Rightarrow> u8 \<Rightarrow> u32 \<Rightarrow> string \<Rightarrow> u32 \<Rightarrow> led_descriptor" where
  "gpio_led n i b s c = \<lparr>ld_name = n, ld_id = i, bay = b, rgb = False, mode_mask = 3, max_brightness = 1,
     color_mask = gpio_colors c, sysfs_name = s, min_on_ms = 0, min_off_ms = 0, min_brightness = 0,
     min_breath_on_ms = 0, min_breath_off_ms = 0, max_cycle_ms = 0, timing_quantum_ms = 0\<rparr>"

definition gpio2 :: "led_descriptor list" where
  "gpio2 = [gpio_led ''power'' 0 0 ''power'' LED_COLOR_ORANGE, gpio_led ''netdev'' 1 0 ''network_stat'' LED_COLOR_ORANGE,
     gpio_led ''disk1'' 2 1 ''disk1'' LED_COLOR_ORANGE, gpio_led ''disk2'' 3 2 ''disk2'' LED_COLOR_ORANGE]"

definition gpio4 :: "led_descriptor list" where
  "gpio4 = [gpio_led ''power'' 0 0 ''power'' LED_COLOR_RED, gpio_led ''netdev'' 1 0 ''network_stat'' LED_COLOR_RED,
     gpio_led ''disk1'' 2 1 ''disk1'' LED_COLOR_RED, gpio_led ''disk2'' 3 2 ''disk2'' LED_COLOR_RED,
     gpio_led ''disk3'' 4 3 ''disk3'' LED_COLOR_RED, gpio_led ''disk4'' 5 4 ''disk4'' LED_COLOR_RED]"

definition cs201x_led :: "string \<Rightarrow> u8 \<Rightarrow> u32 \<Rightarrow> string \<Rightarrow> led_descriptor" where
  "cs201x_led n i b s = \<lparr>ld_name = n, ld_id = i, bay = b, rgb = True, mode_mask = 0x0f, max_brightness = 255,
     color_mask = 0, sysfs_name = s, min_on_ms = 100, min_off_ms = 100, min_brightness = 0,
     min_breath_on_ms = 1000, min_breath_off_ms = 500, max_cycle_ms = 12750, timing_quantum_ms = 50\<rparr>"

definition cs201x2 :: "led_descriptor list" where
  "cs201x2 = [cs201x_led ''power'' 0 0 ''power'', cs201x_led ''netdev'' 1 0 ''network_stat'',
     cs201x_led ''disk1'' 2 1 ''disk1'', cs201x_led ''disk2'' 3 2 ''disk2'']"

section \<open>Profiles\<close>

definition MODELS_EVIDENCE :: string where
  "MODELS_EVIDENCE = ''docs/ALL_MODELS_LED_EVIDENCE.zh-CN.md''"

definition mcu_profile ::
    "string \<Rightarrow> string \<Rightarrow> string option \<Rightarrow> string \<Rightarrow> u32 \<Rightarrow> led_descriptor list \<Rightarrow> string \<Rightarrow> string \<Rightarrow> led_profile" where
  "mcu_profile key model revision proto bays layout bus proof =
     \<lparr>lp_id = key, product_name = model, product_version = revision, protocol = proto, disk_count = bays,
      experimental = True, evidence = proof, leds = layout, bus_prefix = Some bus, i2c_address = 0x3a,
      expected_chip_id = 0xc5b2, chip_register = 0x5a, lp_chip_read = CHIP_WORD_LE, sysfs_driver = None,
      dt_compatible = None\<rparr>"

definition legacy :: "string \<Rightarrow> string \<Rightarrow> u32 \<Rightarrow> led_descriptor list \<Rightarrow> led_profile" where
  "legacy key model bays layout =
     mcu_profile key model None ''legacy-i2c-block'' bays layout ''SMBus I801 adapter'' MODELS_EVIDENCE"

definition n76_profile :: "string \<Rightarrow> string \<Rightarrow> u32 \<Rightarrow> led_descriptor list \<Rightarrow> string \<Rightarrow> led_profile" where
  "n76_profile key model bays layout module =
     \<lparr>lp_id = key, product_name = model, product_version = None, protocol = ''sysfs-n76'', disk_count = bays,
      experimental = True, evidence = MODELS_EVIDENCE, leds = layout, bus_prefix = None, i2c_address = 0,
      expected_chip_id = 0xa5b5, chip_register = 0x5a, lp_chip_read = CHIP_DRIVER_PROBE,
      sysfs_driver = Some module, dt_compatible = None\<rparr>"

definition gpio_profile :: "string \<Rightarrow> string \<Rightarrow> u32 \<Rightarrow> led_descriptor list \<Rightarrow> string \<Rightarrow> led_profile" where
  "gpio_profile key model bays layout dt =
     \<lparr>lp_id = key, product_name = model, product_version = None, protocol = ''sysfs-gpio'', disk_count = bays,
      experimental = True, evidence = MODELS_EVIDENCE, leds = layout, bus_prefix = None, i2c_address = 0,
      expected_chip_id = 0, chip_register = 0, lp_chip_read = CHIP_DRIVER_PROBE,
      sysfs_driver = Some ''ug_gpio_leds'', dt_compatible = Some dt\<rparr>"

definition issue_128 :: string where
  "issue_128 = ''https://github.com/miskcoo/ugreen_leds_controller/issues/128''"

definition led_profiles :: "led_profile list" where
  "led_profiles =
     [legacy ''dx4600-legacy'' ''DX4600'' 4 rgb4,
      legacy ''dx4600plus-legacy'' ''DX4600+'' 4 rgb4,
      legacy ''dx4600pro-legacy'' ''DX4600 Pro'' 4 rgb4,
      legacy ''dx4700-legacy'' ''DX4700'' 4 rgb4,
      legacy ''dx4700plus-legacy'' ''DX4700+'' 4 rgb4,
      mcu_profile ''dxp2800-em-legacy'' ''DXP2800'' (Some ''EM_DXP2800_V1.0.24'') ''legacy-i2c-block'' 2 rgb2
        ''SMBus I801 adapter'' issue_128,
      mcu_profile ''dxp2800-v12-block'' ''DXP2800'' (Some ''DXP2800 V1.2 251215'') ''smbus-block-le'' 2 rgb2
        ''SMBus I801 adapter'' issue_128,
      \<lparr>lp_id = ''dxp2800gt-cs201x'', product_name = ''DXP2800 GT'', product_version = None,
       protocol = ''cs201x-sio'', disk_count = 2, experimental = True,
       evidence = ''docs/DXP2800_GT_LED_REVERSE.zh-CN.md'', leds = cs201x2, bus_prefix = None, i2c_address = 0,
       expected_chip_id = 0x2011, chip_register = 0, lp_chip_read = CHIP_WORD_LE, sysfs_driver = None,
       dt_compatible = None\<rparr>,
      legacy ''dxp4800-legacy'' ''DXP4800'' 4 rgb4,
      legacy ''dxp4800s-legacy'' ''DXP4800S'' 4 rgb4,
      legacy ''dxp4800plus-legacy'' ''DXP4800 Plus'' 4 rgb4,
      legacy ''dxp4800pro-legacy'' ''DXP4800 Pro'' 4 rgb4,
      mcu_profile ''dxp4800gt-block'' ''DXP4800 GT'' None ''smbus-block-be'' 4 rgb4
        ''SMBus PIIX4 adapter'' MODELS_EVIDENCE,
      mcu_profile ''dxp6800-block'' ''DXP6800'' None ''smbus-block-be'' 6 rgb6
        ''SMBus I801 adapter'' MODELS_EVIDENCE,
      legacy ''dxp6800plus-legacy'' ''DXP6800 Plus'' 6 rgb6,
      legacy ''dxp6800pro-legacy'' ''DXP6800 Pro'' 6 rgb6,
      legacy ''dxp6800ultra-legacy'' ''DXP6800 Ultra'' 6 rgb6,
      legacy ''dxp8800-legacy'' ''DXP8800'' 8 rgb8,
      legacy ''dxp8800plus-legacy'' ''DXP8800 Plus'' 8 rgb8,
      legacy ''dxp8800pro-legacy'' ''DXP8800 Pro'' 8 rgb8,
      legacy ''dxp8800ultra-legacy'' ''DXP8800 Ultra'' 8 rgb8,
      mcu_profile ''idx6011pro-block'' ''iDX6011 Pro'' None ''smbus-block-be'' 6 idx6
        ''SMBus I801 adapter'' MODELS_EVIDENCE,
      n76_profile ''dxp480t-n76'' ''DXP480T Plus'' 0 n76_power ''leds_mcu_n76e003'',
      n76_profile ''dh2600-n76'' ''DH2600'' 2 n76_dh2600 ''leds_mcu_n76e003_dh2600'',
      gpio_profile ''dh2300-gpio'' ''DH2300'' 2 gpio2 ''rockchip,rk3576'',
      gpio_profile ''dh4300plus-gpio'' ''DH4300 Plus'' 4 gpio4 ''rockchip,rk3588'']"

text \<open>\<^verbatim>\<open>product_version\<close> of the machine is \<open>None\<close> when it could not be read.\<close>

definition led_profile_find :: "string \<Rightarrow> string option \<Rightarrow> led_profile option" where
  "led_profile_find name version =
     find (\<lambda>p. product_name p = name \<and> (product_version p = None \<or> product_version p = version)) led_profiles"

text \<open>The number of LEDs of the profile and those copied to an array of the given capacity.\<close>

definition led_descriptors :: "led_profile \<Rightarrow> nat \<Rightarrow> nat \<times> led_descriptor list" where
  "led_descriptors p capacity =
     (if length (leds p) > UGREENCTL_MAX_LEDS then (0, [])
      else (length (leds p), take capacity (leds p)))"

section \<open>The tables are consistent\<close>

text \<open>One profile: LED numbers the protocol can address, all different; names all different; the
  disk bays are exactly 1 to \<^verbatim>\<open>disk_count\<close>, in order.\<close>

definition layout_ok :: "led_profile \<Rightarrow> bool" where
  "layout_ok p \<longleftrightarrow>
     length (leds p) \<le> UGREENCTL_MAX_LEDS \<and> distinct (map ld_id (leds p)) \<and> distinct (map ld_name (leds p)) \<and>
     list_all (\<lambda>l. ld_id l \<le> 9) (leds p) \<and>
     filter (\<lambda>b. b \<noteq> 0) (map (\<lambda>l. unat (bay l)) (leds p)) = [1..<Suc (unat (disk_count p))]"

lemmas led_profile_tables = led_profiles_def legacy_def mcu_profile_def n76_profile_def gpio_profile_def

lemma led_profile_keys_distinct: "distinct (map lp_id led_profiles)"
  by (simp add: led_profile_tables)

lemma led_profile_pairs:
  "list_all (\<lambda>p. list_all (\<lambda>q. product_name p = product_name q \<and> lp_id p \<noteq> lp_id q \<longrightarrow>
      product_version p \<noteq> None \<and> product_version q \<noteq> None \<and> product_version p \<noteq> product_version q) led_profiles) led_profiles"
  by (simp add: led_profile_tables)

lemma led_profiles_separated:
  assumes "p \<in> set led_profiles" "q \<in> set led_profiles" "product_name p = product_name q" "p \<noteq> q"
  shows "product_version p \<noteq> None \<and> product_version q \<noteq> None \<and> product_version p \<noteq> product_version q"
proof -
  have "lp_id p \<noteq> lp_id q"
    using assms led_profile_keys_distinct by (auto simp: distinct_map inj_on_def)
  with assms led_profile_pairs show ?thesis unfolding list_all_iff by blast
qed

lemmas led_layouts = rgb8_def rgb6_def rgb4_def rgb2_def common_rgb_def idx6_def n76_power_def n76_dh2600_def
  gpio2_def gpio4_def cs201x2_def

lemmas led_kinds = rgb_led_def n76_led_def dh2600_led_def gpio_led_def cs201x_led_def

definition bays_ok :: "u32 \<Rightarrow> led_descriptor list \<Rightarrow> bool" where
  "bays_ok n ls \<longleftrightarrow>
     length ls \<le> UGREENCTL_MAX_LEDS \<and> distinct (map ld_id ls) \<and> distinct (map ld_name ls) \<and>
     list_all (\<lambda>l. ld_id l \<le> 9) ls \<and>
     filter (\<lambda>b. b \<noteq> 0) (map (\<lambda>l. unat (bay l)) ls) = [1..<Suc (unat n)]"

text \<open>Each layout is checked once, whatever the number of profiles that use it.\<close>

lemma layouts_ok [simp]:
  "bays_ok 2 rgb2" "bays_ok 4 rgb4" "bays_ok 6 rgb6" "bays_ok 8 rgb8" "bays_ok 6 idx6"
  "bays_ok 0 n76_power" "bays_ok 2 n76_dh2600" "bays_ok 2 gpio2" "bays_ok 4 gpio4" "bays_ok 2 cs201x2"
  by (simp_all add: bays_ok_def led_layouts led_kinds UGREENCTL_MAX_LEDS_def upt_rec)

lemma layout_ok_simps: "layout_ok p \<longleftrightarrow> bays_ok (disk_count p) (leds p)"
  by (simp add: layout_ok_def bays_ok_def)

text \<open>
  \<^bold>\<open>C17.\<close>  Every profile's layout is consistent (LED numbers and names unique, numbers the frame
  encoding accepts, bays numbered 1 to the disk count), profile keys are unique, and two profiles
  of one product are both restricted to a revision, and to different ones.
\<close>

theorem led_profiles_consistent:
  "list_all layout_ok led_profiles \<and> distinct (map lp_id led_profiles) \<and>
   (\<forall>p q. p \<in> set led_profiles \<and> q \<in> set led_profiles \<and> product_name p = product_name q \<and> p \<noteq> q \<longrightarrow>
      product_version p \<noteq> None \<and> product_version q \<noteq> None \<and> product_version p \<noteq> product_version q)"
proof -
  have "list_all layout_ok led_profiles"
    by (simp add: led_profile_tables layout_ok_simps)
  with led_profile_keys_distinct led_profiles_separated show ?thesis by blast
qed

definition dxp2800_em :: led_profile where
  "dxp2800_em = led_profiles ! 5"

definition dxp2800_v12 :: led_profile where
  "dxp2800_v12 = led_profiles ! 6"

lemma dxp2800_profiles:
  "dxp2800_em \<in> set led_profiles \<and> dxp2800_v12 \<in> set led_profiles \<and>
   product_name dxp2800_em = ''DXP2800'' \<and> product_name dxp2800_v12 = ''DXP2800'' \<and> dxp2800_em \<noteq> dxp2800_v12"
proof -
  have "length led_profiles = 26" by (simp add: led_profiles_def)
  then have "dxp2800_em \<in> set led_profiles" "dxp2800_v12 \<in> set led_profiles"
    unfolding dxp2800_em_def dxp2800_v12_def by (auto intro: nth_mem)
  moreover have "product_name dxp2800_em = ''DXP2800''" "product_name dxp2800_v12 = ''DXP2800''"
    "lp_id dxp2800_em \<noteq> lp_id dxp2800_v12"
    by (simp_all add: dxp2800_em_def dxp2800_v12_def led_profile_tables)
  ultimately show ?thesis by metis
qed

theorem led_profiles_consistent_witness:
  "layout_ok dxp2800_em \<and> layout_ok dxp2800_v12 \<and> product_version dxp2800_em \<noteq> product_version dxp2800_v12"
  using led_profiles_consistent dxp2800_profiles unfolding list_all_iff by metis

text \<open>
  The lookup is exact: it returns a profile exactly when one matches the product name
  and its revision restriction, and what it returns does.
\<close>

theorem led_profile_find_exact:
  "led_profile_find name version = Some p \<longleftrightarrow>
     p \<in> set led_profiles \<and> product_name p = name \<and> (product_version p = None \<or> product_version p = version)"
proof (cases "led_profile_find name version")
  case None
  then have "\<not> (\<exists>q. q \<in> set led_profiles \<and> product_name q = name \<and>
      (product_version q = None \<or> product_version q = version))"
    by (auto simp: led_profile_find_def find_None_iff)
  with None show ?thesis by auto
next
  case (Some q)
  then have q: "q \<in> set led_profiles" "product_name q = name" "product_version q = None \<or> product_version q = version"
    by (auto simp: led_profile_find_def find_Some_iff)
  have "q = p" if "p \<in> set led_profiles" "product_name p = name" "product_version p = None \<or> product_version p = version"
    using led_profiles_separated [of q p] q that by metis
  with Some q show ?thesis by (metis option.inject)
qed

end
