(* ===== verification/Main_CLI.thy ===== *)
theory Main_CLI
  imports Plugin_Loader Wake_CLI Fan_Daemon Led_Profiles
begin

text \<open>
  The command line (\<^verbatim>\<open>core/main.c\<close>): options, plugin choice, and the thermal, fan, power and
  information commands.  A run returns \<^verbatim>\<open>EXIT_FAILURE\<close>, or \<^verbatim>\<open>EXIT_SUCCESS\<close> with the lines it prints
  on \<^verbatim>\<open>stdout\<close>; the text on \<^verbatim>\<open>stderr\<close> is not modelled.  The LED and disk commands are handled by
  \<^verbatim>\<open>ugreenctl_hardware_cli\<close>, a parameter here.
\<close>

section \<open>Output\<close>

definition startup_policy_name :: "startup_policy \<Rightarrow> string" where
  "startup_policy_name p =
     (case p of STARTUP_ON \<Rightarrow> ''on'' | STARTUP_OFF \<Rightarrow> ''off'' | STARTUP_RESTORE \<Rightarrow> ''restore'' | STARTUP_UNKNOWN \<Rightarrow> ''unknown'')"

definition wol_policy_name :: "wol_policy \<Rightarrow> string" where
  "wol_policy_name p = (case p of WOL_ON \<Rightarrow> ''on'' | WOL_OFF \<Rightarrow> ''off'' | WOL_UNKNOWN \<Rightarrow> ''unknown'')"

text \<open>\<^verbatim>\<open>snprintf\<close> with \<^verbatim>\<open>%-<n>s\<close>.\<close>

definition pad_right :: "nat \<Rightarrow> string \<Rightarrow> string" where
  "pad_right n s = s @ replicate (n - length s) (CHR '' '')"

fun join_comma :: "string list \<Rightarrow> string" where
  "join_comma [] = []"
| "join_comma [s] = s"
| "join_comma (s # ss) = s @ '', '' @ join_comma ss"

definition print_capabilities :: "nat \<Rightarrow> string" where
  "print_capabilities capabilities =
     (let names = (if bit capabilities 0 then [''fan''] else []) @ (if bit capabilities 1 then [''led''] else []) @
                  (if bit capabilities 2 then [''power''] else []) @ (if bit capabilities 3 then [''wol''] else [])
      in if names = [] then ''none (profile only)'' else join_comma names)"

definition print_fan_status :: "fan_status \<Rightarrow> string" where
  "print_fan_status f =
     fan_id f @ '':'' @
     (if pwm_known f then '' pwm='' @ dec (unat (fan_pwm f)) else '' pwm=unknown'') @
     (if mode_known f then '' mode='' @ (if manual f then ''manual'' else ''auto'') else '' mode=unknown'') @
     '' tach='' @ dec (unat (tachometer f)) @ '' rpm='' @ dec (unat (rpm f))"

definition print_status :: "plugin_status \<Rightarrow> string list" where
  "print_status s =
     [''controller: '' @ st_controller s, ''startup: '' @ startup_policy_name (st_startup_policy s),
      ''wol: '' @ wol_policy_name (st_wol_policy s)] @ map (\<lambda>f. ''fan '' @ print_fan_status f) (st_fans s)"

definition print_thermal_snapshot :: "thermal_snapshot \<Rightarrow> string" where
  "print_thermal_snapshot s =
     ''cpu_celsius='' @ dec_int (cpu_celsius s) @ '' cpu_peak_celsius='' @ dec_int (cpu_peak_celsius s) @
     '' hdd_celsius='' @ dec_int (hdd_celsius s) @ '' ssd_celsius='' @ dec_int (ssd_celsius s)"

definition print_model :: "plugin \<Rightarrow> string" where
  "print_model p =
     pad_right 14 (pl_id p) @ '' '' @ pad_right 36 (pl_display_name p) @ '' '' @ print_capabilities (pl_capabilities p) @
     concat (map (\<lambda>l. ''; led-profile='' @ lp_id l @ '' (experimental'' @
                      (if product_version l \<noteq> None then '', revision restricted'' else []) @ '')'')
       (filter (\<lambda>l. list_ex (\<lambda>n. n = product_name l) (pl_products p)) led_profiles))"

definition UGREENCTL_VERSION :: string where "UGREENCTL_VERSION = ''0.3.0''"

definition usage :: "string list" where
  "usage =
     [''ugreenctl 0.3.0 - UGREEN NAS Hardware Management Utility'',
      [],
      ''Usage:'',
      ''  ugreenctl [options] models'',
      ''  ugreenctl [options] info'',
      ''  ugreenctl [options] thermal status'',
      ''  ugreenctl [options] fan status'',
      ''  ugreenctl [options] fan set <fan-id> <0-255>'',
      ''  ugreenctl [options] power startup get'',
      ''  ugreenctl [options] power startup set <on|off|restore>'',
      ''  ugreenctl [options] power rtc-wake models|get'',
      ''  ugreenctl [options] power rtc-wake set <unix-epoch>'',
      ''  ugreenctl [options] power rtc-wake clear'',
      ''  ugreenctl [options] network wol models|get [--interface NAME]'',
      ''  ugreenctl [options] network wol set <on|off> [--interface NAME]'',
      ''  ugreenctl led list'',
      ''  ugreenctl led status [all|power|netdev|diskN...] [--json]'',
      ''  ugreenctl led set <targets...> --color <blue|#RRGGBB|R,G,B>'',
      ''              [--brightness <0-255|N%>] [--mode on|off|blink|breath]'',
      ''              [--on-ms N --off-ms N] [--force --apply]'',
      ''  ugreenctl led on|off <targets...> [--force --apply]'',
      ''  ugreenctl led identify <target> [--seconds N] [--force --apply]'',
      ''  ugreenctl disk list|map [--json]'',
      ''  ugreenctl disk locate <device|serial|slotN> [--seconds N] [--force --apply]'',
      [],
      ''Options (LED/disk options may also follow the command):'',
      ''  --model <id>        select an exact model (wake commands use independent profiles)'',
      ''  --plugin-dir <dir>  directory containing model .so files'',
      ''  --apply             perform a requested write (writes are dry runs otherwise)'',
      ''  --force             acknowledge an experimental model write'',
      ''  --json              structured output for LED/disk commands'',
      ''  --version           print the version'',
      ''  --help              print this help'',
      [],
      ''Fan control prefers the Linux hwmon node named it8613. If it is absent,'',
      ''a guarded direct Super I/O fallback is available only with no active owner.'',
      ''Writes require an exact DMI match and always select manual PWM mode.'']"

section \<open>Arguments\<close>

record cli_options =
  model_directory :: string
  model_id :: "string option"
  co_force :: bool
  co_apply :: bool

definition default_options :: cli_options where
  "default_options = \<lparr>model_directory = default_model_dir, model_id = None, co_force = False, co_apply = False\<rparr>"

text \<open>Parsing ends with options and the remaining arguments, or the program ends.\<close>

datatype parsed_options = Options cli_options "string list" | Show_usage | Show_version | Bad_option

fun parse_options :: "cli_options \<Rightarrow> string list \<Rightarrow> parsed_options" where
  "parse_options opts [] = Options opts []"
| "parse_options opts (a # rest) =
     (if \<not> starts_with ''--'' a then Options opts (a # rest)
      else if a = ''--help'' then Show_usage
      else if a = ''--version'' then Show_version
      else if a = ''--force'' then parse_options (opts\<lparr>co_force := True\<rparr>) rest
      else if a = ''--apply'' then parse_options (opts\<lparr>co_apply := True\<rparr>) rest
      else (case rest of [] \<Rightarrow> Bad_option
            | v # rest' \<Rightarrow>
                if a = ''--model'' then parse_options (opts\<lparr>model_id := Some v\<rparr>) rest'
                else if a = ''--plugin-dir'' then parse_options (opts\<lparr>model_directory := v\<rparr>) rest'
                else Bad_option))"

definition parse_pwm :: "string \<Rightarrow> u8 option" where
  "parse_pwm s =
     (let (v, rest, range) = strtol10 s in
      if range \<or> s = [] \<or> rest \<noteq> [] \<or> v < 0 \<or> v > 255 then None else Some (word_of_int v))"

definition parse_startup_policy :: "string \<Rightarrow> startup_policy" where
  "parse_startup_policy s =
     (if s = ''on'' then STARTUP_ON else if s = ''off'' then STARTUP_OFF
      else if s = ''restore'' \<or> s = ''last'' then STARTUP_RESTORE else STARTUP_UNKNOWN)"

section \<open>Calling a plugin\<close>

definition choose_plugin :: "env \<Rightarrow> plugin list \<Rightarrow> cli_options \<Rightarrow> (errno + plugin) io" where
  "choose_plugin E ps opts = do {
     dmi \<leftarrow> loader_read_dmi_product E 256;
     (case model_id opts of
        Some key \<Rightarrow>
          (case find_plugin ps key of None \<Rightarrow> fail ENOENT
           | Some p \<Rightarrow>
               (case dmi of Inr product \<Rightarrow> if list_ex (\<lambda>n. n = product) (pl_products p) then ok p else fail ENODEV
                | Inl e \<Rightarrow> fail e))
      | None \<Rightarrow>
          (case dmi of Inl e \<Rightarrow> fail e
           | Inr product \<Rightarrow> (case match_product ps product of None \<Rightarrow> fail ENODEV | Some p \<Rightarrow> ok p))) }"

definition plugin_controller_name :: "plugin \<Rightarrow> string" where
  "plugin_controller_name p =
     (case pl_controller_name p of
        Some n \<Rightarrow> if pl_abi_version p \<ge> 4 \<and> n \<noteq> [] then n else ''model-defined controller''
      | None \<Rightarrow> ''model-defined controller'')"

definition through_status :: "plugin \<Rightarrow> bool \<Rightarrow> (plugin_status \<Rightarrow> 'a) \<Rightarrow> (errno + 'a) io" where
  "through_status p force field =
     (case pl_read_status p of None \<Rightarrow> fail ENOTSUP | Some f \<Rightarrow> bindE (f force) (\<lambda>s. ok (field s)))"

definition plugin_read_fans :: "plugin \<Rightarrow> bool \<Rightarrow> (errno + fan_status list) io" where
  "plugin_read_fans p force =
     (case pl_read_fans p of
        Some f \<Rightarrow> if pl_abi_version p \<ge> 4 then f force else through_status p force st_fans
      | None \<Rightarrow> through_status p force st_fans)"

definition plugin_read_startup_policy :: "plugin \<Rightarrow> bool \<Rightarrow> (errno + startup_policy) io" where
  "plugin_read_startup_policy p force =
     (case pl_read_startup_policy p of
        Some f \<Rightarrow> if pl_abi_version p \<ge> 4 then f force else through_status p force st_startup_policy
      | None \<Rightarrow> through_status p force st_startup_policy)"

definition plugin_read_wol_policy :: "plugin \<Rightarrow> bool \<Rightarrow> (errno + wol_policy) io" where
  "plugin_read_wol_policy p force =
     (case pl_read_wol_policy p of
        Some f \<Rightarrow> if pl_abi_version p \<ge> 5 then f force else fail ENOTSUP
      | None \<Rightarrow> fail ENOTSUP)"

section \<open>Commands\<close>

definition report :: "('a \<Rightarrow> string list) \<Rightarrow> errno + 'a \<Rightarrow> cli_result" where
  "report output r = (case r of Inl _ \<Rightarrow> Exit_failure | Inr x \<Rightarrow> Exit_success (output x))"

definition dry_run :: "string \<Rightarrow> cli_result" where
  "dry_run description = Exit_success [''dry-run: would '' @ description, ''rerun with --apply to write hardware state'']"

definition info_command :: "plugin \<Rightarrow> bool \<Rightarrow> cli_result io" where
  "info_command p force = do {
     fans \<leftarrow> plugin_read_fans p force;
     startup \<leftarrow> plugin_read_startup_policy p force;
     wol \<leftarrow> plugin_read_wol_policy p force;
     (case (fans, startup) of
        (Inl _, Inl _) \<Rightarrow> ret Exit_failure
      | _ \<Rightarrow> ret (Exit_success ((''model: '' @ pl_id p @ '' ('' @ pl_display_name p @ '')'') #
             print_status \<lparr>st_controller = take 31 (plugin_controller_name p),
               st_startup_policy = (case startup of Inl _ \<Rightarrow> STARTUP_UNKNOWN | Inr s \<Rightarrow> s),
               st_fans = (case fans of Inl _ \<Rightarrow> [] | Inr fs \<Rightarrow> fs),
               st_wol_policy = (case wol of Inl _ \<Rightarrow> WOL_UNKNOWN | Inr w \<Rightarrow> w)\<rparr>))) }"

definition fan_set_command :: "plugin \<Rightarrow> cli_options \<Rightarrow> string \<Rightarrow> string \<Rightarrow> cli_result io" where
  "fan_set_command p opts target text =
     (case (parse_pwm text, pl_set_fan_pwm p) of
        (Some pwm, Some set_fan) \<Rightarrow>
          if \<not> co_apply opts then ret (dry_run ''set the fan PWM'')
          else do {
            r \<leftarrow> set_fan (co_force opts) target pwm;
            ret (report (\<lambda>_. [target @ '' fan PWM set to '' @ dec (unat pwm)]) r) }
      | _ \<Rightarrow> ret Exit_failure)"

definition startup_set_command :: "plugin \<Rightarrow> cli_options \<Rightarrow> string \<Rightarrow> cli_result io" where
  "startup_set_command p opts text =
     (let policy = parse_startup_policy text in
      case pl_set_startup_policy p of
        Some set_startup \<Rightarrow>
          if policy = STARTUP_UNKNOWN then ret Exit_failure
          else if \<not> co_apply opts then ret (dry_run ''change the AC recovery startup policy'')
          else do {
            r \<leftarrow> set_startup (co_force opts) policy;
            ret (report (\<lambda>_. [''startup policy set to '' @ startup_policy_name policy]) r) }
      | None \<Rightarrow> ret Exit_failure)"

definition plugin_command :: "env \<Rightarrow> plugin \<Rightarrow> cli_options \<Rightarrow> string list \<Rightarrow> cli_result io" where
  "plugin_command E p opts args =
     (if args = [''thermal'', ''status''] then do {
        r \<leftarrow> read_thermal_snapshot E;
        ret (report (\<lambda>s. [print_thermal_snapshot s]) r) }
      else if args = [''info''] then info_command p (co_force opts)
      else if args = [''fan'', ''status''] then do {
        r \<leftarrow> plugin_read_fans p (co_force opts);
        ret (report (map print_fan_status) r) }
      else (case args of
              [c, verb, x, y] \<Rightarrow>
                if c = ''fan'' \<and> verb = ''set'' then fan_set_command p opts x y
                else if c = ''power'' \<and> verb = ''startup'' \<and> x = ''set'' then startup_set_command p opts y
                else ret Exit_failure
            | [c, verb, x] \<Rightarrow>
                if c = ''power'' \<and> verb = ''startup'' \<and> x = ''get'' then do {
                  r \<leftarrow> plugin_read_startup_policy p (co_force opts);
                  ret (report (\<lambda>s. [startup_policy_name s]) r) }
                else ret Exit_failure
            | _ \<Rightarrow> ret Exit_failure))"

definition main_command :: "env \<Rightarrow> (string \<Rightarrow> dl_object option) \<Rightarrow> cli_options \<Rightarrow> string list \<Rightarrow> cli_result io" where
  "main_command E D opts args =
     (if args = [] then ret Exit_failure
      else do {
        o' \<leftarrow> plugins_open E D (model_directory opts);
        (case o' of Inl _ \<Rightarrow> ret Exit_failure
         | Inr ps \<Rightarrow>
             if args = [''models''] then ret (Exit_success (map print_model ps))
             else do {
               c \<leftarrow> choose_plugin E ps opts;
               (case c of Inl _ \<Rightarrow> ret Exit_failure | Inr p \<Rightarrow> plugin_command E p opts args) }) })"

definition ugreenctl_main ::
    "env \<Rightarrow> (string \<Rightarrow> dl_object option) \<Rightarrow> (string list \<Rightarrow> cli_result io) \<Rightarrow> string list \<Rightarrow> cli_result io" where
  "ugreenctl_main E D hardware_cli argv = do {
     w \<leftarrow> wake_cli E argv;
     (if w \<noteq> Not_handled then ret w
      else do {
        r \<leftarrow> hardware_cli argv;
        (if r \<noteq> Not_handled then ret r
         else (case parse_options default_options argv of
                 Show_usage \<Rightarrow> ret (Exit_success usage)
               | Show_version \<Rightarrow> ret (Exit_success [UGREENCTL_VERSION])
               | Bad_option \<Rightarrow> ret Exit_failure
               | Options opts args \<Rightarrow> main_command E D opts args)) }) }"

section \<open>Choosing a plugin is exact\<close>

lemma list_ex_eq: "list_ex (\<lambda>n. n = x) xs \<longleftrightarrow> x \<in> set xs"
  by (auto simp: list_ex_iff)

lemma seg_choose_plugin:
  "seg (\<lambda>r es. \<exists>rd. es = [Read_file ''/sys/class/dmi/id/product_name'' rd] \<and>
     (\<forall>p. r = Inr p \<longrightarrow> p \<in> set ps \<and> (\<forall>key. model_id opts = Some key \<longrightarrow> pl_id p = key) \<and>
        (\<exists>product. dmi_product_of_read 256 rd = Inr product \<and> product \<in> set (pl_products p))))
     (choose_plugin E ps opts)"
proof -
  have dmi: "seg (\<lambda>r es. \<exists>rd. es = [Read_file ''/sys/class/dmi/id/product_name'' rd] \<and> dmi_product_of_read 256 rd = r)
      (loader_read_dmi_product E 256)"
    unfolding loader_read_dmi_product_def by (simp, rule seg_bind [OF seg_read_file], rule seg_return) simp
  have found: "find_plugin ps key = Some p \<Longrightarrow> p \<in> set ps \<and> pl_id p = key"
      "match_product ps product = Some p \<Longrightarrow> p \<in> set ps \<and> product \<in> set (pl_products p)" for key product p
    by (auto simp: find_plugin_def match_product_def find_Some_iff product_matches_def list_ex_eq)
  show ?thesis
    unfolding choose_plugin_def list_ex_eq
    by (rule seg_bind [OF dmi], intro seg_case_option seg_case_sum seg_if seg_return) (auto dest!: found)
qed

text \<open>
  A plugin is used only on its own hardware: when one is chosen, the DMI product name was read
  in this run and is one of the names the plugin lists; with \<^verbatim>\<open>--model\<close> it also has the requested
  id.  Choosing reads that one file and does nothing else.
\<close>

theorem choose_plugin_exact:
  assumes "run_state (choose_plugin E ps opts) h = (Inr p, h')"
  shows "\<exists>rd product. h' = h @ [Read_file ''/sys/class/dmi/id/product_name'' rd] \<and>
    dmi_product_of_read 256 rd = Inr product \<and> product \<in> set (pl_products p) \<and> p \<in> set ps \<and>
    (\<forall>key. model_id opts = Some key \<longrightarrow> pl_id p = key)"
  using segD [OF seg_choose_plugin assms] by auto

section \<open>Without apply nothing is written\<close>

text \<open>The same plugin with other write entries.\<close>

definition with_writes ::
    "(bool \<Rightarrow> string \<Rightarrow> u8 \<Rightarrow> (errno + unit) io) \<Rightarrow> (bool \<Rightarrow> startup_policy \<Rightarrow> (errno + unit) io) \<Rightarrow>
     (bool \<Rightarrow> wol_policy \<Rightarrow> (errno + unit) io) \<Rightarrow> plugin \<Rightarrow> plugin" where
  "with_writes fan startup wol p = p\<lparr>
     pl_set_fan_pwm := map_option (\<lambda>_. fan) (pl_set_fan_pwm p),
     pl_set_startup_policy := map_option (\<lambda>_. startup) (pl_set_startup_policy p),
     pl_set_wol_policy := map_option (\<lambda>_. wol) (pl_set_wol_policy p)\<rparr>"

definition library_with :: "(plugin \<Rightarrow> plugin) \<Rightarrow> (string \<Rightarrow> dl_object option) \<Rightarrow> string \<Rightarrow> dl_object option" where
  "library_with f D path = map_option (\<lambda>dl v. map_option (map_option f) (dl v)) (D path)"

lemma with_writes_fields [simp]:
  "pl_abi_version (with_writes a b c p) = pl_abi_version p" "pl_id (with_writes a b c p) = pl_id p"
  "pl_display_name (with_writes a b c p) = pl_display_name p" "pl_products (with_writes a b c p) = pl_products p"
  "pl_capabilities (with_writes a b c p) = pl_capabilities p" "pl_read_status (with_writes a b c p) = pl_read_status p"
  "pl_read_fans (with_writes a b c p) = pl_read_fans p" "pl_read_startup_policy (with_writes a b c p) = pl_read_startup_policy p"
  "pl_controller_name (with_writes a b c p) = pl_controller_name p" "pl_read_wol_policy (with_writes a b c p) = pl_read_wol_policy p"
  by (simp_all add: with_writes_def)

lemma usable_with: "(\<And>p. pl_abi_version (f p) = pl_abi_version p) \<Longrightarrow>
  usable_plugin (\<lambda>v. map_option (map_option f) (dl v)) = map_option f (usable_plugin dl)"
  by (auto simp: usable_plugin_def split: option.splits)

lemma load_with:
  assumes "\<And>p. pl_abi_version (f p) = pl_abi_version p"
  shows "load_plugins (library_with f D) directory (map f found) ns = map_sum id (map f) (load_plugins D directory found ns)"
proof (induction D directory found ns rule: load_plugins.induct)
  case (2 D directory found n ns)
  show ?case
  proof (cases "D (directory @ ''/'' @ n)")
    case None
    with 2 show ?thesis by (simp add: library_with_def)
  next
    case (Some dl)
    with 2 show ?thesis
      by (cases "usable_plugin dl") (simp_all add: library_with_def usable_with [OF assms])
  qed
qed simp

lemma find_map_with: "(\<And>x. P (f x) = P x) \<Longrightarrow> find P (map f xs) = map_option f (find P xs)"
  by (induction xs) auto

lemma open_with:
  assumes "\<And>p. pl_abi_version (f p) = pl_abi_version p"
  shows "plugins_open E (library_with f D) directory = bindE (plugins_open E D directory) (\<lambda>ps. ok (map f ps))"
proof (rule state.expand, rule ext)
  fix h
  show "run_state (plugins_open E (library_with f D) directory) h =
      run_state (bindE (plugins_open E D directory) (\<lambda>ps. ok (map f ps))) h"
    using load_with [OF assms, of D directory "[]"]
    by (auto simp: plugins_open_def list_dir_def split: sum.splits)
qed

lemma choose_with:
  "choose_plugin E (map (with_writes a b c) ps) opts = bindE (choose_plugin E ps opts) (\<lambda>p. ok (with_writes a b c p))"
proof -
  have find: "find_plugin (map (with_writes a b c) ps) key = map_option (with_writes a b c) (find_plugin ps key)"
      "match_product (map (with_writes a b c) ps) product = map_option (with_writes a b c) (match_product ps product)" for key product
    unfolding find_plugin_def match_product_def by (auto simp: product_matches_def intro!: find_map_with)
  show ?thesis
    unfolding choose_plugin_def find
    by (rule state.expand, rule ext)
      (auto simp: loader_read_dmi_product_def read_file_def split: option.splits sum.splits)
qed

lemma command_with:
  assumes "\<not> co_apply opts"
  shows "plugin_command E (with_writes a b c p) opts args = plugin_command E p opts args"
proof -
  have "fan_set_command (with_writes a b c p) opts x y = fan_set_command p opts x y"
      "startup_set_command (with_writes a b c p) opts x = startup_set_command p opts x" for x y
    using assms by (auto simp: fan_set_command_def startup_set_command_def with_writes_def Let_def split: option.splits)
  moreover have "plugin_read_fans (with_writes a b c p) force = plugin_read_fans p force"
      "plugin_read_startup_policy (with_writes a b c p) force = plugin_read_startup_policy p force"
      "plugin_read_wol_policy (with_writes a b c p) force = plugin_read_wol_policy p force"
      "plugin_controller_name (with_writes a b c p) = plugin_controller_name p" for force
    by (simp_all add: plugin_read_fans_def plugin_read_startup_policy_def plugin_read_wol_policy_def
        through_status_def plugin_controller_name_def split: option.splits)
  ultimately show ?thesis by (simp only: plugin_command_def info_command_def with_writes_fields)
qed

lemma main_command_with:
  assumes "\<not> co_apply opts"
  shows "main_command E (library_with (with_writes a b c) D) opts args = main_command E D opts args"
proof -
  have "run_state (main_command E (library_with (with_writes a b c) D) opts args) h = run_state (main_command E D opts args) h" for h
    unfolding main_command_def open_with [of "with_writes a b c", OF with_writes_fields(1)]
    by (auto simp: choose_with command_with [OF assms] print_model_def split: prod.splits sum.splits)
  then show ?thesis by (intro state.expand ext)
qed

lemma parse_options_apply:
  "parse_options opts argv = Options opts' args \<Longrightarrow> co_apply opts' \<Longrightarrow> co_apply opts \<or> ''--apply'' \<in> set argv"
proof (induction opts argv rule: parse_options.induct)
  case (2 opts a rest)
  then show ?case by (auto split: if_splits list.splits)
qed simp

text \<open>
  \<^bold>\<open>C3.\<close>  Without \<^verbatim>\<open>--apply\<close> no write entry of any plugin is ever called: the result and every event of
  the run are the same if the write entries of all plugins are replaced by anything else.
\<close>

theorem no_apply_no_write:
  assumes "''--apply'' \<notin> set argv"
  shows "ugreenctl_main E (library_with (with_writes fan startup wol) D) hardware_cli argv = ugreenctl_main E D hardware_cli argv"
proof -
  have "main_command E (library_with (with_writes fan startup wol) D) opts args = main_command E D opts args"
    if "parse_options default_options argv = Options opts args" for opts args
    using parse_options_apply [OF that] assms by (intro main_command_with) (auto simp: default_options_def)
  then have "(case parse_options default_options argv of
       Show_usage \<Rightarrow> ret (Exit_success usage) | Show_version \<Rightarrow> ret (Exit_success [UGREENCTL_VERSION])
     | Bad_option \<Rightarrow> ret Exit_failure
     | Options opts args \<Rightarrow> main_command E (library_with (with_writes fan startup wol) D) opts args) =
    (case parse_options default_options argv of
       Show_usage \<Rightarrow> ret (Exit_success usage) | Show_version \<Rightarrow> ret (Exit_success [UGREENCTL_VERSION])
     | Bad_option \<Rightarrow> ret Exit_failure | Options opts args \<Rightarrow> main_command E D opts args)"
    by (simp split: parsed_options.splits)
  then show ?thesis unfolding ugreenctl_main_def by (simp only:)
qed

section \<open>The duty floor holds for the whole program\<close>

text \<open>No duty register of the fan controller is written with less than 40.\<close>

definition duty_write_ok :: "u8 \<times> u8 \<Rightarrow> bool" where
  "duty_write_ok w \<longleftrightarrow> (fst w \<in> duty_registers \<longrightarrow> 40 \<le> snd w)"

abbreviation keeps_floor :: "(trace, 'a) state \<Rightarrow> bool" where
  "keeps_floor \<equiv> appends (hwm_writes_ok duty_write_ok)"

lemma no_ports_floor: "emits no_port_write m \<Longrightarrow> keeps_floor m"
  by (rule appends_mono [OF _ no_port_hwm])

lemmas floor_intros = hwm_writes.intros appends_cases

interpretation ports: observer no_port_write
  by unfold_locales (auto simp: wake_call_def no_port_write_def split: event.splits)

lemma hwmon_read_no_ports: "emits no_port_write (it8613_hwmon_read_fans E cs)"
  unfolding it8613_hwmon_read_fans_def it8613_hwmon_close_def close_fd_def
  by (intro emits_intros) (auto simp: no_port_write_def)

lemma read_fans_floor: "keeps_floor (read_with_fallback E (it86x E) cs ds)"
proof -
  have direct: "keeps_floor (it8613_direct_read_fans (it86x E) ds)"
    unfolding it8613_direct_read_fans_def direct_read_channel_def transport_it86x
    by (intro floor_intros appends_open appends_close appends_hwm_read)
  show ?thesis
    unfolding read_with_fallback_def by (intro floor_intros direct no_ports_floor [OF hwmon_read_no_ports])
qed

lemma startup_floor:
  "keeps_floor (it8613_read_startup_policy (it86x E) force)" "keeps_floor (it8613_set_startup_policy (it86x E) force p)"
proof -
  have sio: "keeps_floor (it86x_sio_read E r)" "keeps_floor (it86x_sio_write r v)" for r v
    unfolding it86x_sio_read_def it86x_sio_write_def calls
    by (intro floor_intros appends_prim; simp add: hwm_writes_ok_def)+
  show "keeps_floor (it8613_read_startup_policy (it86x E) force)" "keeps_floor (it8613_set_startup_policy (it86x E) force p)"
    unfolding it8613_read_startup_policy_def it8613_set_startup_policy_def write_policy_registers_def transport_it86x
    by (intro floor_intros appends_open appends_close sio)+
qed

text \<open>What the command line needs of a plugin.\<close>

definition plugin_keeps_floor :: "plugin \<Rightarrow> bool" where
  "plugin_keeps_floor p \<longleftrightarrow>
     (\<forall>f force. pl_read_status p = Some f \<longrightarrow> keeps_floor (f force)) \<and>
     (\<forall>f force. pl_read_fans p = Some f \<longrightarrow> keeps_floor (f force)) \<and>
     (\<forall>f force. pl_read_startup_policy p = Some f \<longrightarrow> keeps_floor (f force)) \<and>
     (\<forall>f force. pl_read_wol_policy p = Some f \<longrightarrow> keeps_floor (f force)) \<and>
     (\<forall>f force target pwm. pl_set_fan_pwm p = Some f \<longrightarrow> keeps_floor (f force target pwm)) \<and>
     (\<forall>f force policy. pl_set_startup_policy p = Some f \<longrightarrow> keeps_floor (f force policy))"

lemmas read_fan_entries =
  it8613_read_fans_def it8613_dx4600_read_fan_def it8613_dxp4800_read_fan_def it8613_dxp4800s_read_fan_def
  it8613_dxp480t_read_fans_def it8613_dxp6800_read_fans_def it8613_dxp6800plus_read_fans_def it8613_dxp6800pro_read_fans_def

lemmas read_wol_entries =
  dx4600_read_wol_policy_def dxp4800_read_wol_policy_def dxp4800s_read_wol_policy_def dxp4800plus_read_wol_policy_def
  dxp480tplus_read_wol_policy_def dxp6800plus_read_wol_policy_def dxp6800pro_read_wol_policy_def wol_read_policy_def

lemma read_status_floor:
  "keeps_floor fans \<Longrightarrow> keeps_floor startup \<Longrightarrow> keeps_floor wol \<Longrightarrow> keeps_floor (read_status c fans startup wol)"
  unfolding read_status_def by (intro floor_intros)

lemma shipped_keep_floor:
  assumes "p \<in> set (model_plugins E (it86x E))"
  shows "plugin_keeps_floor (plugin_v5 p)"
proof -
  have wol: "keeps_floor (wol_read_policy_with_renamed_count E is n)" for "is" n
    by (rule no_ports_floor [OF ports.observe_wol_read])
  have guarded: "keeps_floor (guarded force m)" if "keeps_floor m" for force and m :: "(errno + unit) io"
    using that unfolding guarded_def by (intro floor_intros)
  note entries = read_status_floor wol read_fans_floor startup_floor guarded hwm_writes.return
  have reads: "keeps_floor (mp_read_fans p force)" "keeps_floor (mp_read_status p force)"
      "keeps_floor (mp_read_startup_policy p force)" "keeps_floor (mp_set_startup_policy p force policy)"
      "mp_read_wol_policy p = Some f \<Longrightarrow> keeps_floor (f force)" for force policy f
    using assms unfolding model_plugins_def
    by (auto simp: plugin_defs read_fan_entries read_wol_entries intro!: entries)
  obtain channels where "fan_plugin (mp_set_fan_pwm p) channels" using model_fan_plugin [OF assms] ..
  then have "fan_route (mp_set_fan_pwm p force) channels" for force by (rule fan_plugin.route)
  then have "keeps_floor (mp_set_fan_pwm p force target pwm)" for force target pwm
    unfolding duty_write_ok_def [abs_def] by (rule fan_route.duty_floor)
  with reads show ?thesis by (simp add: plugin_keeps_floor_def plugin_v5_def)
qed

lemma command_floor:
  assumes "plugin_keeps_floor p"
  shows "keeps_floor (plugin_command E p opts args)"
proof -
  have snapshot: "keeps_floor (read_thermal_snapshot E)"
    by (rule no_ports_floor, rule appends_mono [OF quiet_snapshot])
      (auto simp: list_all_iff quiet_def no_port_write_def split: event.splits)
  have status: "keeps_floor (through_status p force field)" for force and field :: "plugin_status \<Rightarrow> 'x"
    unfolding through_status_def by (intro floor_intros) (use assms in \<open>auto simp: plugin_keeps_floor_def\<close>)
  have reads: "keeps_floor (plugin_read_fans p force)" "keeps_floor (plugin_read_startup_policy p force)"
      "keeps_floor (plugin_read_wol_policy p force)" for force
    unfolding plugin_read_fans_def plugin_read_startup_policy_def plugin_read_wol_policy_def
    by (intro floor_intros status; use assms in \<open>auto simp: plugin_keeps_floor_def\<close>)+
  have info: "keeps_floor (info_command p force)" for force
    unfolding info_command_def by (intro floor_intros reads)
  have fan: "keeps_floor (fan_set_command p opts x y)" for x y
    unfolding fan_set_command_def
    by (intro floor_intros) (use assms in \<open>auto simp: plugin_keeps_floor_def intro!: floor_intros\<close>)
  have startup: "keeps_floor (startup_set_command p opts x)" for x
    unfolding startup_set_command_def
    by (intro floor_intros) (use assms in \<open>auto simp: plugin_keeps_floor_def\<close>)
  show ?thesis
    unfolding plugin_command_def
    by (auto intro!: floor_intros snapshot info fan startup reads split: list.splits)
qed


definition example_library :: "string \<Rightarrow> dl_object option" where
  "example_library path =
     (if path = default_model_dir @ ''/dxp6800.so'' then Some (\<lambda>v. if v = 5 then Some (Some (plugin_v5 (plugin_dxp6800 example_env (it86x example_env)))) else None)
      else None)"


definition example_dmi_env :: env where
  "example_dmi_env = null_env\<lparr>e_read := (\<lambda>_ _. File_data (''DXP6800'' @ [CHR 0x0A]) None)\<rparr>"

theorem choose_plugin_exact_witness:
  "''DXP6800'' \<in> set (pl_products (plugin_v5 (plugin_dxp6800 example_dmi_env (it86x example_dmi_env))))"
proof -
  let ?p = "plugin_v5 (plugin_dxp6800 example_dmi_env (it86x example_dmi_env))"
  have dmi: "dmi_product_of_read 256 (File_data (''DXP6800'' @ [CHR 0x0A]) None) = Inr ''DXP6800''" by code_simp
  have products: "pl_products ?p = [''DXP6800'']" by (simp add: plugin_v5_def plugin_dxp6800_def)
  have "run_state (choose_plugin example_dmi_env [?p] default_options) [] =
      (Inr ?p, [Read_file ''/sys/class/dmi/id/product_name'' (File_data (''DXP6800'' @ [CHR 0x0A]) None)])"
    using dmi products
    by (simp add: choose_plugin_def loader_read_dmi_product_def read_file_def default_options_def match_product_def
        product_matches_def example_dmi_env_def)
  from choose_plugin_exact [OF this] dmi show ?thesis by auto
qed

theorem no_apply_no_write_witness:
  "ugreenctl_main example_env (library_with (with_writes (\<lambda>_ _ _. fail EIO) (\<lambda>_ _. fail EIO) (\<lambda>_ _. fail EIO)) example_library)
     (\<lambda>_. ret Not_handled) [''--force'', ''fan'', ''set'', ''cpu'', ''200''] =
   ugreenctl_main example_env example_library (\<lambda>_. ret Not_handled) [''--force'', ''fan'', ''set'', ''cpu'', ''200'']"
  by (rule no_apply_no_write) simp

end
