(* ===== verification/Led_N76.thy ===== *)
theory Led_N76
  imports Led_Profiles
begin

text \<open>
  The transaction planner of the N76 LED controller (\<^verbatim>\<open>led/led_n76_protocol.c\<close>): a pure
  function from a validated patch to the register writes of one LED, with the mode registers to
  read back and what they should then hold.
\<close>

unbundle bit_operations_syntax

section \<open>Plans\<close>

record n76_command =
  cmd_reg :: u8
  cmd_value :: u8
  settle_ms :: nat

text \<open>\<^verbatim>\<open>commands\<close> is the used part of the array of 12, so \<^verbatim>\<open>count\<close> is its length.\<close>

record n76_plan_struct =
  commands :: "n76_command list"
  mode_registers :: "u8 \<times> u8"
  expected_modes :: "u8 \<times> u8"
  unverified_fields :: u32

definition n76_append :: "u32 \<Rightarrow> u32 \<Rightarrow> n76_command list \<Rightarrow> n76_command list" where
  "n76_append r v cs =
     cs @ [\<lparr>cmd_reg = ucast r, cmd_value = ucast v, settle_ms = (if r = 0xa0 \<or> r = 0xb1 then 2 else 10)\<rparr>]"

definition n76_bit :: "u8 \<Rightarrow> u32" where
  "n76_bit i = (if i = 1 then 4 else if i = 2 then 2 else 0)"

text \<open>The loop keeps the last descriptor with the number.\<close>

definition n76_target :: "led_profile \<Rightarrow> u8 \<Rightarrow> led_descriptor option" where
  "n76_target pr i = find (\<lambda>l. ld_id l = i) (rev (leds pr))"

definition n76_dh2600_profile :: "led_profile \<Rightarrow> bool" where
  "n76_dh2600_profile pr \<longleftrightarrow> product_name pr = ''DH2600'' \<and> lp_id pr = ''dh2600-n76''"

definition n76_check :: "led_profile \<Rightarrow> u8 \<Rightarrow> led_patch \<Rightarrow> errno option" where
  "n76_check pr i p =
     (let dh2600 = n76_dh2600_profile pr; v = pv p in
      if protocol pr \<noteq> ''sysfs-n76'' then Some ENOTSUP
      else if \<not> dh2600 \<and> (product_name pr \<noteq> ''DXP480T Plus'' \<or> lp_id pr \<noteq> ''dxp480t-n76'') then Some ENOTSUP
      else if (dh2600 \<and> i > 2) \<or> (\<not> dh2600 \<and> i \<noteq> 0) then Some ENOTSUP
      else case led_validate_target_patch (n76_target pr i) p of Some e \<Rightarrow> Some e
      | None \<Rightarrow>
        if \<not> has p PATCH_MODE then Some ENOTSUP
        else if mode v = LED_MODE_BREATH then Some ENOTSUP
        else if mode v = LED_MODE_OFF \<and> patch_fields p \<noteq> PATCH_MODE then Some ENOTSUP
        else if mode v \<noteq> LED_MODE_OFF \<and> \<not> has p PATCH_COLOR then Some ENOTSUP
        else if dh2600 \<and> has p PATCH_BRIGHTNESS \<and> brightness v \<noteq> 1 then Some ENOTSUP
        else if mode v = LED_MODE_BLINK \<and> color v \<noteq> 1 \<and> color v \<noteq> 2 then Some ENOTSUP
        else None)"

definition n76_stop :: "u32 \<Rightarrow> n76_command list" where
  "n76_stop bt = n76_append 0xb1 (push_bit (unat bt) 3) (n76_append (0x51 + bt) 0 (n76_append (0x50 + bt) 0 []))"

definition n76_timing :: "u32 \<Rightarrow> led_patch \<Rightarrow> n76_command list \<Rightarrow> n76_command list" where
  "n76_timing bt p cs =
     (if has p PATCH_TIMING then
        let v = pv p; channel = (if color v = 2 then 2 else 0); base = bt * 2 + channel in
        n76_append (0xd1 + base) (drop_bit 8 (off_ms v)) (n76_append (0xd0 + base) (off_ms v AND 255)
          (n76_append (0xc1 + base) (drop_bit 8 (on_ms v)) (n76_append (0xc0 + base) (on_ms v AND 255) cs)))
      else cs)"

definition n76_brightness :: "bool \<Rightarrow> led_patch \<Rightarrow> n76_command list \<Rightarrow> n76_command list" where
  "n76_brightness dh2600 p cs =
     (if \<not> dh2600 \<and> has p PATCH_BRIGHTNESS
      then n76_append 0xe1 (brightness (pv p)) (n76_append 0xe0 (brightness (pv p)) cs) else cs)"

definition n76_effect :: "u32 \<Rightarrow> led_value \<Rightarrow> n76_command list \<Rightarrow> n76_command list" where
  "n76_effect bt v cs =
     (if mode v = LED_MODE_BLINK then n76_append (0x50 + bt + (if color v = 2 then 1 else 0)) 1 cs else cs)"

definition n76_compose :: "bool \<Rightarrow> u32 \<Rightarrow> led_patch \<Rightarrow> n76_plan_struct" where
  "n76_compose dh2600 bt p =
     (let v = pv p; stop = n76_stop bt in
      \<lparr>commands =
         (if mode v \<noteq> LED_MODE_OFF then
            n76_effect bt v (n76_append 0xa0 (push_bit (unat bt) (color v))
              (n76_brightness dh2600 p (n76_timing bt p stop)))
          else stop),
       mode_registers = (ucast (0x50 + bt), ucast (0x51 + bt)),
       expected_modes =
         (if mode v = LED_MODE_BLINK then (if color v = 2 then (0, 1) else (1, 0)) else (0, 0)),
       unverified_fields = PATCH_MODE OR PATCH_COLOR OR PATCH_BRIGHTNESS OR PATCH_TIMING\<rparr>)"

definition n76_plan :: "led_profile \<Rightarrow> u8 \<Rightarrow> led_patch \<Rightarrow> errno + n76_plan_struct" where
  "n76_plan pr i p =
     (case n76_check pr i p of Some e \<Rightarrow> Inl e
      | None \<Rightarrow> Inr (n76_compose (n76_dh2600_profile pr) (n76_bit i) p))"

section \<open>What an accepted request looks like\<close>

lemma validate_target_None:
  assumes "led_validate_target_patch t p = None"
  shows "led_validate_patch p = None \<and>
    (\<exists>l. t = Some l \<and> (has p PATCH_COLOR \<longrightarrow> color_mask l AND enum_bit (color (pv p)) \<noteq> 0))"
  using assms by (auto simp: led_validate_target_patch_def Let_def split: option.splits if_splits)

lemma validate_patch_None:
  assumes "led_validate_patch p = None"
  shows "has p PATCH_COLOR \<longrightarrow> color (pv p) \<le> 9" "has p PATCH_MODE \<longrightarrow> mode (pv p) \<le> 3"
    "has p PATCH_TIMING \<longrightarrow> on_ms (pv p) \<le> 65535 \<and> off_ms (pv p) \<le> 65535"
    "has p PATCH_TIMING \<longrightarrow> mode (pv p) = LED_MODE_BLINK \<or> mode (pv p) = LED_MODE_BREATH"
  using assms by (auto simp: led_validate_patch_def Let_def not_less split: if_splits)

lemma led_mode_cases: "(m :: u32) \<le> 3 \<Longrightarrow> m = 0 \<or> m = 1 \<or> m = 2 \<or> m = 3"
  by (simp add: word_le_nat_alt word_unat_eq_iff) linarith

lemma led_id_cases: "(i :: u8) \<le> 2 \<Longrightarrow> i = 0 \<or> i = 1 \<or> i = 2"
  by (simp add: word_le_nat_alt word_unat_eq_iff) linarith

lemma n76_check_None:
  assumes "n76_check pr i p = None"
  shows "i = 0 \<or> i = 1 \<or> i = 2" "\<not> n76_dh2600_profile pr \<longrightarrow> i = 0"
    "protocol pr = ''sysfs-n76''"
    "led_validate_target_patch (n76_target pr i) p = None"
    "mode (pv p) = LED_MODE_OFF \<or> mode (pv p) = LED_MODE_ON \<or> mode (pv p) = LED_MODE_BLINK"
    "mode (pv p) = LED_MODE_OFF \<longrightarrow> patch_fields p = PATCH_MODE"
    "mode (pv p) = LED_MODE_BLINK \<longrightarrow> color (pv p) = 1 \<or> color (pv p) = 2"
    "mode (pv p) \<noteq> LED_MODE_OFF \<longrightarrow> has p PATCH_COLOR"
proof -
  have v: "led_validate_target_patch (n76_target pr i) p = None" and m: "has p PATCH_MODE"
    using assms by (auto simp: n76_check_def Let_def split: option.splits if_splits)
  show "led_validate_target_patch (n76_target pr i) p = None" by (rule v)
  have "mode (pv p) \<le> 3" using validate_target_None [OF v] validate_patch_None(2) m by blast
  then show "mode (pv p) = LED_MODE_OFF \<or> mode (pv p) = LED_MODE_ON \<or> mode (pv p) = LED_MODE_BLINK"
    using assms led_mode_cases by (fastforce simp: n76_check_def Let_def split: option.splits if_splits)
  have "i \<le> 2" using assms by (auto simp: n76_check_def Let_def not_less split: if_splits)
  then show "i = 0 \<or> i = 1 \<or> i = 2" by (rule led_id_cases)
qed (use assms in \<open>auto simp: n76_check_def Let_def split: option.splits if_splits\<close>)

lemma n76_plan_Inr:
  assumes "n76_plan pr i p = Inr plan"
  shows "n76_check pr i p = None" "plan = n76_compose (n76_dh2600_profile pr) (n76_bit i) p"
  using assms by (auto simp: n76_plan_def split: option.splits)

section \<open>Carrying out a plan\<close>

text \<open>The controller as a register file.\<close>

definition n76_run :: "n76_command list \<Rightarrow> (u8 \<Rightarrow> u8) \<Rightarrow> u8 \<Rightarrow> u8" where
  "n76_run cs = fold (\<lambda>c r. r(cmd_reg c := cmd_value c)) cs"

lemma n76_run_append [simp]:
  "n76_run (n76_append r v cs) regs = (n76_run cs regs)(ucast r := ucast v)"
  by (simp add: n76_run_def n76_append_def)

lemma n76_run_Nil [simp]: "n76_run [] regs = regs"
  by (simp add: n76_run_def)

lemmas n76_parts = n76_stop_def n76_timing_def n76_brightness_def n76_effect_def

lemma be16_masked_split:
  assumes "(t :: u32) \<le> 65535"
  shows "be16 (ucast (drop_bit 8 t)) (ucast (t AND 255)) = t"
proof -
  have "t AND 255 = take_bit 8 t" by (simp add: take_bit_eq_mask mask_eq_exp_minus_1)
  moreover have "ucast (take_bit 8 t) = (ucast t :: u8)" by (rule bit_word_eqI) (simp add: bit_simps)
  moreover have "unat t < 65536" using assms by (simp add: word_le_nat_alt)
  ultimately show ?thesis using be16_split [of t] by simp
qed

text \<open>Which registers each group of commands leaves alone.\<close>

definition n76_bits :: "u32 set" where
  "n76_bits = {0, 2, 4}"

lemma n76_bit_bits [simp]: "n76_bit i \<in> n76_bits"
  by (simp add: n76_bits_def n76_bit_def)

lemma n76_run_timing:
  "bt \<in> n76_bits \<Longrightarrow> r < 0xc0 \<Longrightarrow> n76_run (n76_timing bt p cs) regs r = n76_run cs regs r"
  unfolding n76_bits_def n76_timing_def Let_def
  by (elim insertE; cases "color (pv p) = 2"; auto)

lemma n76_run_brightness:
  "r < 0xe0 \<Longrightarrow> n76_run (n76_brightness dh p cs) regs r = n76_run cs regs r"
  by (auto simp: n76_brightness_def)

lemma n76_run_effect:
  "bt \<in> n76_bits \<Longrightarrow> 0x60 < r \<Longrightarrow> n76_run (n76_effect bt v cs) regs r = n76_run cs regs r"
  unfolding n76_bits_def n76_effect_def by (elim insertE; cases "color v = 2"; auto)

lemma n76_run_stop:
  "bt \<in> n76_bits \<Longrightarrow> n76_run (n76_stop bt) regs (ucast (0x50 + bt)) = 0"
  "bt \<in> n76_bits \<Longrightarrow> n76_run (n76_stop bt) regs (ucast (0x51 + bt)) = 0"
  "bt \<in> n76_bits \<Longrightarrow> n76_run (n76_stop bt) regs 0xb1 = ucast (push_bit (unat bt) (3 :: u32))"
  unfolding n76_bits_def n76_stop_def by auto

lemma n76_mode_registers:
  assumes "bt \<in> n76_bits"
  shows "ucast (0x50 + bt) < (0xc0 :: u8)" "ucast (0x51 + bt) < (0xc0 :: u8)"
    "ucast (0x50 + bt) < (0xe0 :: u8)" "ucast (0x51 + bt) < (0xe0 :: u8)"
    "ucast (0x50 + bt) \<noteq> (0xa0 :: u8)" "ucast (0x51 + bt) \<noteq> (0xa0 :: u8)"
    "ucast (0x50 + bt) \<noteq> (ucast (0x51 + bt) :: u8)"
    "0x50 + bt + 1 = 0x51 + bt"
  using assms unfolding n76_bits_def by auto

lemma n76_modes_after:
  assumes bt: "bt \<in> n76_bits"
  shows "(n76_run (commands (n76_compose dh bt p)) regs (ucast (0x50 + bt)),
          n76_run (commands (n76_compose dh bt p)) regs (ucast (0x51 + bt))) = expected_modes (n76_compose dh bt p)"
proof -
  note low = n76_mode_registers [OF bt]
  have idle: "n76_run (n76_append 0xa0 c (n76_brightness dh p (n76_timing bt p (n76_stop bt)))) regs (ucast (0x50 + bt)) = 0"
    "n76_run (n76_append 0xa0 c (n76_brightness dh p (n76_timing bt p (n76_stop bt)))) regs (ucast (0x51 + bt)) = 0" for c
    by (simp_all only: n76_run_append fun_upd_apply n76_run_brightness [OF low(3)] n76_run_brightness [OF low(4)]
        n76_run_timing [OF bt low(1)] n76_run_timing [OF bt low(2)] n76_run_stop [OF bt] low(5,6) unsigned_numeral
        if_False) (use low(5,6) in auto)
  have blink: "(n76_run (n76_effect bt v cs) regs (ucast (0x50 + bt)), n76_run (n76_effect bt v cs) regs (ucast (0x51 + bt))) =
      (if mode v = LED_MODE_BLINK then (if color v = 2 then (0, 1) else (1, 0)) else (0, 0))"
    if "n76_run cs regs (ucast (0x50 + bt)) = 0" "n76_run cs regs (ucast (0x51 + bt)) = 0" for v cs
    using that low(7) low(7) [symmetric] by (simp add: n76_effect_def low(8))
  show ?thesis
    using blink [OF idle, of "pv p" "push_bit (unat bt) (color (pv p))"] n76_run_stop [OF bt]
    by (auto simp: n76_compose_def Let_def simp del: n76_run_append split: if_splits)
qed

lemma n76_times_after:
  assumes bt: "bt \<in> n76_bits" and t: "has p PATCH_TIMING" "on_ms (pv p) \<le> 65535" "off_ms (pv p) \<le> 65535"
    and m: "mode (pv p) \<noteq> LED_MODE_OFF"
  shows "let base = ucast (bt * 2 + (if color (pv p) = 2 then 2 else 0)); regs = n76_run (commands (n76_compose dh bt p)) before
    in be16 (regs (0xc1 + base)) (regs (0xc0 + base)) = on_ms (pv p) \<and>
       be16 (regs (0xd1 + base)) (regs (0xd0 + base)) = off_ms (pv p)"
  using bt unfolding n76_bits_def
  by (elim insertE; cases "color (pv p) = 2";
      simp add: n76_compose_def m Let_def n76_run_effect n76_run_brightness n76_bits_def n76_timing_def t be16_masked_split)

text \<open>
  \<^bold>\<open>C18.\<close>  Sending an accepted plan, whatever the controller held before, leaves the mode
  registers at exactly the values the plan expects to read back, the channel-off mask of the LED
  in the off register, and, when the LED is to be lit, the selected color bits in the on register,
  the requested times in the two timing registers of that color, and the requested level in
  the brightness registers: no later write of the plan undoes an earlier one.
\<close>

theorem n76_plan_effect:
  assumes "n76_plan pr i p = Inr plan"
  shows "let v = pv p; regs = n76_run (commands plan) before; bt = n76_bit i;
             base = ucast (bt * 2 + (if color v = 2 then 2 else 0))
         in (regs (fst (mode_registers plan)), regs (snd (mode_registers plan))) = expected_modes plan \<and>
            regs 0xb1 = ucast (push_bit (unat bt) (3 :: u32)) \<and>
            (mode v \<noteq> LED_MODE_OFF \<longrightarrow> regs 0xa0 = ucast (push_bit (unat bt) (color v))) \<and>
            (has p PATCH_TIMING \<longrightarrow>
               be16 (regs (0xc1 + base)) (regs (0xc0 + base)) = on_ms v \<and>
               be16 (regs (0xd1 + base)) (regs (0xd0 + base)) = off_ms v) \<and>
            (\<not> n76_dh2600_profile pr \<and> has p PATCH_BRIGHTNESS \<longrightarrow>
               regs 0xe0 = ucast (brightness v) \<and> regs 0xe1 = ucast (brightness v))"
proof -
  note check = n76_check_None [OF n76_plan_Inr(1) [OF assms]]
  note valid = validate_target_None [OF check(4), THEN conjunct1, THEN validate_patch_None(3)]
  note timed = validate_target_None [OF check(4), THEN conjunct1, THEN validate_patch_None(4)]
  have lit: "mode (pv p) \<noteq> LED_MODE_OFF" if "has p PATCH_TIMING \<or> has p PATCH_BRIGHTNESS"
    using check(6) that by (auto simp: has_def)
  note modes = n76_modes_after [OF n76_bit_bits]
  note times = n76_times_after [OF n76_bit_bits, of p]
  show ?thesis
    unfolding n76_plan_Inr(2) [OF assms] Let_def
    using modes times valid lit
    by (auto simp: n76_compose_def n76_run_effect n76_run_brightness n76_run_timing n76_run_stop n76_brightness_def Let_def)
qed

definition n76_blink :: led_patch where
  "n76_blink = \<lparr>patch_fields = 25,
     pv = \<lparr>mode = LED_MODE_BLINK, brightness = 0, red = 0, green = 0, blue = 0, on_ms = 500, off_ms = 1000,
       color = LED_COLOR_ORANGE, unknown_fields = 0, cached_fields = 0, n76_mode_valid = False,
       unverified_write = False, n76_modes = (0, 0), n76_version = 0\<rparr>\<rparr>"

definition dh2600_profile :: led_profile where
  "dh2600_profile = n76_profile ''dh2600-n76'' ''DH2600'' 2 n76_dh2600 ''leds_mcu_n76e003_dh2600''"

definition blink_plan :: "u8 \<Rightarrow> n76_plan_struct" where
  "blink_plan i = n76_compose True (n76_bit i) n76_blink"

lemma blink_planned: "n76_plan dh2600_profile 1 n76_blink = Inr (blink_plan 1)"
  "n76_plan dh2600_profile 2 n76_blink = Inr (blink_plan 2)"
  by code_simp+

theorem n76_plan_effect_witness:
  "be16 (n76_run (commands (blink_plan 1)) (\<lambda>_. 0) 0xcb) (n76_run (commands (blink_plan 1)) (\<lambda>_. 0) 0xca) = 500"
proof -
  have "has n76_blink PATCH_TIMING" "n76_bit 1 = 4" "color (pv n76_blink) = 2" "on_ms (pv n76_blink) = 500"
    by code_simp+
  then show ?thesis
    using n76_plan_effect [OF blink_planned(1), of "\<lambda>_. 0"] by (simp add: Let_def)
qed

section \<open>Plans of different LEDs\<close>

definition n76_own :: "u8 \<Rightarrow> u8 list" where
  "n76_own i =
     (let b = ucast (n76_bit i) in
      [0x50 + b, 0x51 + b] @ map (\<lambda>k. 0xc0 + 2 * b + k) [0, 1, 2, 3] @ map (\<lambda>k. 0xd0 + 2 * b + k) [0, 1, 2, 3] @
      (if i = 0 then [0xe0, 0xe1] else []))"

definition n76_mask :: "u8 \<Rightarrow> u8" where
  "n76_mask i = push_bit (unat (n76_bit i)) 3"

definition n76_within :: "u8 \<Rightarrow> n76_command \<Rightarrow> bool" where
  "n76_within i c \<longleftrightarrow>
     cmd_reg c \<in> set (n76_own i) \<or> cmd_reg c \<in> {0xa0, 0xb1} \<and> cmd_value c AND NOT (n76_mask i) = 0"

lemma n76_palette:
  "list_all (\<lambda>pr. protocol pr = ''sysfs-n76'' \<longrightarrow> list_all (\<lambda>l. color_mask l = N76_COLORS) (leds pr)) led_profiles"
  by (simp add: led_profile_tables n76_power_def n76_dh2600_def n76_led_def dh2600_led_def)

lemma n76_color_cases:
  assumes "(c :: u32) \<le> 9" "N76_COLORS AND enum_bit c \<noteq> 0"
  shows "c = 1 \<or> c = 2 \<or> c = 3"
proof -
  have "unat c \<in> set [0..<10]" using assms(1) by (simp add: word_le_nat_alt)
  moreover have "list_all (\<lambda>k. N76_COLORS AND enum_bit (word_of_nat k) = 0 \<or> k \<in> {1, 2, 3}) [0..<10]"
    by code_simp
  moreover have "word_of_nat (unat c) = c" by simp
  ultimately have "unat c \<in> {1, 2, 3}" using assms(2) unfolding list_all_iff by metis
  then show ?thesis by (auto simp: word_unat_eq_iff)
qed

lemma n76_plan_color:
  assumes "pr \<in> set led_profiles" "n76_check pr i p = None" "mode (pv p) \<noteq> LED_MODE_OFF"
  shows "color (pv p) = 1 \<or> color (pv p) = 2 \<or> color (pv p) = 3"
proof -
  note check = n76_check_None [OF assms(2)]
  obtain l where l: "n76_target pr i = Some l" "color_mask l AND enum_bit (color (pv p)) \<noteq> 0"
    and v: "led_validate_patch p = None"
    using validate_target_None [OF check(4)] check(8) assms(3) by blast
  have "l \<in> set (leds pr)" using l(1) unfolding n76_target_def by (metis find_Some_iff length_rev nth_mem set_rev)
  then have "color_mask l = N76_COLORS"
    using n76_palette assms(1) check(3) unfolding list_all_iff by blast
  with l validate_patch_None(1) [OF v] check(8) assms(3) show ?thesis by (metis n76_color_cases)
qed

lemma n76_append_all [simp]:
  "list_all P (n76_append r v cs) \<longleftrightarrow>
     list_all P cs \<and> P \<lparr>cmd_reg = ucast r, cmd_value = ucast v, settle_ms = (if r = 0xa0 \<or> r = 0xb1 then 2 else 10)\<rparr>"
  by (simp add: n76_append_def)

lemma n76_own_0: "n76_own 0 = [0x50, 0x51, 0xc0, 0xc1, 0xc2, 0xc3, 0xd0, 0xd1, 0xd2, 0xd3, 0xe0, 0xe1]"
  and n76_own_1: "n76_own 1 = [0x54, 0x55, 0xc8, 0xc9, 0xca, 0xcb, 0xd8, 0xd9, 0xda, 0xdb]"
  and n76_own_2: "n76_own 2 = [0x52, 0x53, 0xc4, 0xc5, 0xc6, 0xc7, 0xd4, 0xd5, 0xd6, 0xd7]"
  by code_simp+

lemmas n76_tables = n76_within_def n76_own_0 n76_own_1 n76_own_2 n76_mask_def n76_bit_def

lemma n76_stop_within: "i = 0 \<or> i = 1 \<or> i = 2 \<Longrightarrow> list_all (n76_within i) (n76_stop (n76_bit i))"
  by (elim disjE; simp add: n76_stop_def n76_tables)

lemma n76_timing_within:
  "i = 0 \<or> i = 1 \<or> i = 2 \<Longrightarrow> list_all (n76_within i) cs \<Longrightarrow>
   list_all (n76_within i) (n76_timing (n76_bit i) p cs)"
  by (elim disjE; cases "color (pv p) = 2"; simp add: n76_timing_def n76_tables Let_def)

lemma n76_brightness_within:
  "(\<not> dh \<longrightarrow> i = 0) \<Longrightarrow> list_all (n76_within i) cs \<Longrightarrow> list_all (n76_within i) (n76_brightness dh p cs)"
  by (cases dh; simp add: n76_brightness_def n76_tables)

lemma n76_on_within:
  "i = 0 \<or> i = 1 \<or> i = 2 \<Longrightarrow> c = 1 \<or> c = 2 \<or> c = 3 \<Longrightarrow> list_all (n76_within i) cs \<Longrightarrow>
   list_all (n76_within i) (n76_append 0xa0 (push_bit (unat (n76_bit i)) c) cs)"
  by (elim disjE; simp add: n76_tables)

lemma n76_effect_within:
  "i = 0 \<or> i = 1 \<or> i = 2 \<Longrightarrow> list_all (n76_within i) cs \<Longrightarrow>
   list_all (n76_within i) (n76_effect (n76_bit i) v cs)"
  by (elim disjE; cases "color v = 2"; simp add: n76_effect_def n76_tables)

lemma n76_commands_within:
  assumes "pr \<in> set led_profiles" "n76_plan pr i p = Inr plan"
  shows "list_all (n76_within i) (commands plan)"
proof -
  note check = n76_check_None [OF n76_plan_Inr(1) [OF assms(2)]]
  note palette = n76_plan_color [OF assms(1) n76_plan_Inr(1) [OF assms(2)]]
  show ?thesis
    unfolding n76_plan_Inr(2) [OF assms(2)] n76_compose_def
    using check(1,2) palette
    by (auto simp: Let_def intro!: n76_stop_within n76_timing_within n76_brightness_within n76_on_within n76_effect_within
        simp del: n76_append_all)
qed

lemma masked_disjoint:
  assumes "(x :: u8) AND NOT a = 0" "y AND NOT b = 0" "a AND b = 0"
  shows "x AND y = 0"
proof (rule bit_word_eqI)
  fix n assume n: "n < LENGTH(8)"
  have "bit x n \<longrightarrow> bit a n" "bit y n \<longrightarrow> bit b n" "\<not> (bit a n \<and> bit b n)"
    using assms [THEN arg_cong, of "\<lambda>w. bit w n"] n by (auto simp: bit_and_iff bit_not_iff)
  then show "bit (x AND y) n = bit 0 n" by (auto simp: bit_and_iff)
qed

lemma n76_own_disjoint:
  assumes "i \<in> {0, 1, 2}" "j \<in> {0, 1, 2}" "i \<noteq> (j :: u8)"
  shows "set (n76_own i) \<inter> set (n76_own j) = {} \<and> 0xa0 \<notin> set (n76_own i) \<and> 0xb1 \<notin> set (n76_own i) \<and>
    n76_mask i AND n76_mask j = 0"
  using assms by (elim insertE; simp add: n76_tables)

text \<open>
  \<^bold>\<open>C19.\<close>  Plans for two different LEDs of a model do not interfere: they share no register but
  the on and off masks, and there they set different bits.  A plan has at most 12 commands, the
  size of its array, and an off plan is exactly the three stopping commands.
\<close>

theorem n76_plans_independent:
  assumes "pr \<in> set led_profiles" "n76_plan pr i p = Inr a" "n76_plan pr j q = Inr b" "i \<noteq> j"
  shows "(\<forall>c \<in> set (commands a). \<forall>d \<in> set (commands b). cmd_reg c = cmd_reg d \<longrightarrow>
            cmd_reg c \<in> {0xa0, 0xb1} \<and> cmd_value c AND cmd_value d = 0) \<and>
         length (commands a) \<le> 12 \<and>
         (mode (pv p) = LED_MODE_OFF \<longrightarrow> commands a = n76_stop (n76_bit i))"
proof (intro conjI ballI impI)
  have ij: "i \<in> {0, 1, 2}" "j \<in> {0, 1, 2}"
    using n76_check_None(1) [OF n76_plan_Inr(1) [OF assms(2)]] n76_check_None(1) [OF n76_plan_Inr(1) [OF assms(3)]]
    by blast+
  note disjoint = n76_own_disjoint [OF ij assms(4)] n76_own_disjoint [OF ij(2,1) assms(4) [symmetric]]
  fix c d
  assume cd: "c \<in> set (commands a)" "d \<in> set (commands b)" "cmd_reg c = cmd_reg d"
  have w: "n76_within i c" "n76_within j d"
    using n76_commands_within assms cd unfolding list_all_iff by blast+
  then have reg: "cmd_reg c \<in> {0xa0, 0xb1}" "cmd_value c AND NOT (n76_mask i) = 0" "cmd_value d AND NOT (n76_mask j) = 0"
    using disjoint cd(3) unfolding n76_within_def by auto
  show "cmd_reg c \<in> {0xa0, 0xb1}" by (rule reg)
  show "cmd_value c AND cmd_value d = 0" using masked_disjoint [OF reg(2,3)] disjoint by blast
next
  show "length (commands a) \<le> 12"
    by (simp add: n76_plan_Inr(2) [OF assms(2)] n76_compose_def n76_parts n76_append_def Let_def)
  show "commands a = n76_stop (n76_bit i)" if "mode (pv p) = LED_MODE_OFF"
    using that by (simp add: n76_plan_Inr(2) [OF assms(2)] n76_compose_def Let_def)
qed

definition off_command :: "u8 \<Rightarrow> n76_command" where
  "off_command i = commands (blink_plan i) ! 2"

theorem n76_plans_independent_witness:
  "cmd_value (off_command 1) AND cmd_value (off_command 2) = 0 \<and> length (commands (blink_plan 1)) \<le> 12"
proof -
  have "dh2600_profile \<in> set led_profiles" by (simp add: dh2600_profile_def led_profiles_def)
  moreover have "off_command 1 \<in> set (commands (blink_plan 1))" "off_command 2 \<in> set (commands (blink_plan 2))"
    "cmd_reg (off_command 1) = cmd_reg (off_command 2)"
    by code_simp+
  ultimately show ?thesis
    using n76_plans_independent [OF _ blink_planned] by simp
qed

end
