(* ===== verification/Led_Identity.thy ===== *)
theory Led_Identity
  imports Machine_Identity Led_Profiles
begin

text \<open>
  What every way of reaching a LED controller starts with (the first part of \<^verbatim>\<open>led/led.c\<close> and
  \<^verbatim>\<open>led/led.h\<close>): the machine with its LED profile, the comparison of two identities, and the search
  for other processes that drive the same controller.
\<close>

section \<open>Data\<close>

record led_access =
  la_force :: bool
  la_apply :: bool
  n76_direct :: bool
  n76_bus :: u32
  n76_address :: u16

record led_identity =
  li_manufacturer :: string
  li_product_name :: string
  li_product_version :: string
  li_board_version :: string
  li_profile :: "led_profile option"
  li_source :: string
  li_compatible :: string
  li_bios_vendor :: string
  li_bios_version :: string
  li_bios_date :: string

definition same_identity :: "led_identity \<Rightarrow> led_identity \<Rightarrow> bool" where
  "same_identity a b \<longleftrightarrow>
     (case (li_profile a, li_profile b) of (Some p, Some q) \<Rightarrow> lp_id p = lp_id q | _ \<Rightarrow> False) \<and>
     li_source a = li_source b \<and> li_manufacturer a = li_manufacturer b \<and>
     li_product_name a = li_product_name b \<and> li_product_version a = li_product_version b \<and>
     li_board_version a = li_board_version b \<and> li_compatible a = li_compatible b \<and>
     li_bios_vendor a = li_bios_vendor b \<and> li_bios_version a = li_bios_version b \<and>
     li_bios_date a = li_bios_date b"

section \<open>Detection\<close>

text \<open>The text buffers of the two structures have the same sizes, so copying does not truncate.\<close>

definition led_profile_of :: "machine_identity \<Rightarrow> led_profile option" where
  "led_profile_of m =
     (case led_profile_find (identity_model m) (Some (mi_product_version m)) of None \<Rightarrow> None
      | Some p \<Rightarrow>
          (case dt_compatible p of None \<Rightarrow> Some p
           | Some token \<Rightarrow> if identity_has_compatible m token then Some p else None))"

definition led_identity_of :: "machine_identity \<Rightarrow> led_identity" where
  "led_identity_of m = \<lparr>li_manufacturer = mi_manufacturer m, li_product_name = mi_product_name m,
     li_product_version = mi_product_version m, li_board_version = mi_board_version m,
     li_profile = led_profile_of m, li_source = mi_source m, li_compatible = mi_compatible m,
     li_bios_vendor = mi_bios_vendor m, li_bios_version = mi_bios_version m, li_bios_date = mi_bios_date m\<rparr>"

definition led_detect :: "env \<Rightarrow> (errno + led_identity) io" where
  "led_detect E =
     bindE (identity_read E) (\<lambda>m.
       if led_profile_of m = None then fail ENOTSUP else ok (led_identity_of m))"

section \<open>Other owners of the controller\<close>

definition led_text_of_read :: "nat \<Rightarrow> file_read \<Rightarrow> errno + string" where
  "led_text_of_read capacity r =
     (case r of Open_failed e \<Rightarrow> Inl e
      | File_data s e \<Rightarrow>
          (case fgets_lines (capacity - 1) (e \<noteq> None) s of
             [] \<Rightarrow> if e \<noteq> None then Inl EIO else Inr []
           | line # _ \<Rightarrow> Inr (rstrip isspace (c_str line))))"

definition led_read_text :: "env \<Rightarrow> string \<Rightarrow> nat \<Rightarrow> (errno + string) io" where
  "led_read_text E path capacity =
     (if capacity < 2 then fail EINVAL else do { r \<leftarrow> read_file E path; ret (led_text_of_read capacity r) })"

definition process_basename :: "string \<Rightarrow> string" where
  "process_basename name = rev (takeWhile (\<lambda>c. c \<noteq> CHR ''/'') (rev name))"

definition owner_names :: "string list" where
  "owner_names =
     [''ugreen_leds_cli'', ''ugreen-diskiomon'', ''ugreen-netdevmon'', ''ugreen-netdevmon-multi'',
      ''ugreen-power-led'', ''ugreen-blink-disk'', ''ugreen_led'', ''ugreen-led'', ''ledmon'', ''ledctl'',
      ''nas_led'', ''led_ctrl'', ''hwmonitor'', ''hwmonitor-amd'', ''hwmonitor-480t'']"

definition process_name_is_owner :: "string \<Rightarrow> bool \<Rightarrow> bool" where
  "process_name_is_owner name truncated_comm \<longleftrightarrow>
     (let base = process_basename name in
      list_ex (\<lambda>n. base = n \<or> truncated_comm \<and> length base = 15 \<and> base = take 15 n) owner_names)"

definition is_shell :: "string \<Rightarrow> bool" where
  "is_shell program \<longleftrightarrow> program \<in> {''sh'', ''bash'', ''dash'', ''ash'', ''ksh'', ''zsh''}"

definition is_python :: "string \<Rightarrow> bool" where
  "is_python program \<longleftrightarrow> program \<in> {''python'', ''python3''} \<or>
     starts_with ''python3.'' program \<and> drop 8 program \<noteq> [] \<and> isdigit (hd (drop 8 program))"

text \<open>The loop over the interpreter's arguments: the first word that is not an option is the script.\<close>

fun script_is_owner :: "bool \<Rightarrow> string list \<Rightarrow> bool" where
  "script_is_owner shell [] = False"
| "script_is_owner shell (a # rest) =
     (if a = ''--'' then (case rest of [] \<Rightarrow> False | b # _ \<Rightarrow> process_name_is_owner b False)
      else if take 1 a \<noteq> ''-'' \<and> \<not> (shell \<and> take 1 a = ''+'') then process_name_is_owner a False
      else if shell then
        (if a = ''--command'' \<or>
            take 1 a = ''-'' \<and> take 1 (drop 1 a) \<noteq> ''-'' \<and> (CHR ''c'' \<in> set (drop 1 a) \<or> CHR ''s'' \<in> set (drop 1 a))
         then False
         else if a \<in> {''-o'', ''+o'', ''--rcfile'', ''--init-file''}
         then (case rest of [] \<Rightarrow> False | _ # rest' \<Rightarrow> script_is_owner shell rest')
         else script_is_owner shell rest)
      else if starts_with ''-c'' a \<or> starts_with ''-m'' a then False
      else if a \<in> {''-W'', ''-X'', ''--check-hash-based-pycs''}
      then (case rest of [] \<Rightarrow> False | _ # rest' \<Rightarrow> script_is_owner shell rest')
      else script_is_owner shell rest)"

definition command_is_owner :: "string \<Rightarrow> string \<Rightarrow> string list \<Rightarrow> bool" where
  "command_is_owner comm executable arguments \<longleftrightarrow>
     process_name_is_owner comm True \<or> process_name_is_owner executable False \<or>
     (case arguments of [] \<Rightarrow> False
      | a # rest \<Rightarrow>
          process_name_is_owner a False \<or>
          (let program = process_basename a in
           (is_shell program \<or> is_python program) \<and> script_is_owner (is_shell program) rest))"

text \<open>The NUL-separated words of \<^verbatim>\<open>/proc/<pid>/cmdline\<close>, at most \<open>n\<close> of them.\<close>

fun nul_words :: "nat \<Rightarrow> string \<Rightarrow> string list" where
  "nul_words 0 s = []"
| "nul_words (Suc n) s =
     (if s = [] then [] else c_str s # nul_words n (drop (length (c_str s) + 1) s))"

definition gone :: "errno \<Rightarrow> bool" where
  "gone e \<longleftrightarrow> e = ENOENT \<or> e = ESRCH"

text \<open>The process a \<^verbatim>\<open>/proc\<close> entry stands for, unless it is skipped.\<close>

definition other_process :: "env \<Rightarrow> int \<Rightarrow> string \<Rightarrow> int option" where
  "other_process E authenticated name =
     (if name = [] \<or> \<not> isdigit (hd name) then None
      else let (pid, rest, range) = strtol10 name in
        if range \<or> rest \<noteq> [] \<or> pid \<le> 0 \<or> pid = e_getpid E \<or> pid = authenticated then None else Some pid)"

definition executable_of_link :: "errno + string \<Rightarrow> errno + string" where
  "executable_of_link r =
     (case r of Inl e \<Rightarrow> if gone e then Inr [] else Inl e | Inr link \<Rightarrow> Inr (c_str (take 4095 link)))"

definition inspect_process :: "env \<Rightarrow> int \<Rightarrow> (errno + unit) io" where
  "inspect_process E pid = do {
     let proc = ''/proc/'' @ dec_int pid;
     comm \<leftarrow> led_read_text E (proc @ ''/comm'') 256;
     (case comm of
        Inl e \<Rightarrow> if gone e then ok () else fail e
      | Inr name \<Rightarrow>
          if process_name_is_owner name True then fail EBUSY
          else do {
            exe \<leftarrow> readlink E (proc @ ''/exe'');
            (case executable_of_link exe of Inl e \<Rightarrow> fail e
             | Inr executable \<Rightarrow> do {
                 cmd \<leftarrow> read_file E (proc @ ''/cmdline'');
                 (case cmd of
                    Open_failed e \<Rightarrow> if gone e then ok () else fail e
                  | File_data s e \<Rightarrow>
                      if e \<noteq> None \<and> length s < 4096 then fail EIO
                      else if command_is_owner name executable (nul_words 128 (take 4096 s)) then fail EBUSY
                      else ok ()) }) }) }"

fun inspect_processes :: "env \<Rightarrow> int \<Rightarrow> string list \<Rightarrow> (errno + unit) io" where
  "inspect_processes E authenticated [] = ok ()"
| "inspect_processes E authenticated (name # names) =
     (case other_process E authenticated name of
        None \<Rightarrow> inspect_processes E authenticated names
      | Some pid \<Rightarrow> bindE (inspect_process E pid) (\<lambda>_. inspect_processes E authenticated names))"

definition process_owners_except :: "env \<Rightarrow> int \<Rightarrow> (errno + unit) io" where
  "process_owners_except E authenticated =
     bindE (list_dir E ''/proc'') (\<lambda>names. inspect_processes E authenticated names)"

definition process_owners :: "env \<Rightarrow> (errno + unit) io" where
  "process_owners E = process_owners_except E 0"

section \<open>Detection only observes\<close>

fun observation :: "event \<Rightarrow> bool" where
  "observation (Read_file _ _) = True"
| "observation (List_dir _ _) = True"
| "observation (Read_link _ _) = True"
| "observation _ = False"

lemma observes_identity: "emits observation (identity_read_at E root)"
  unfolding identity_read_at_def dmi_identity_def dt_identity_def optional_field_def
    identity_text_read_def compatible_read_def raw_read_def calls
  by (intro emits_intros) simp_all

lemma observe_detect: "emits observation (led_detect E)"
  unfolding led_detect_def identity_read_def by (intro emits_intros observes_identity)

lemma observe_processes: "emits observation (process_owners_except E pid)"
proof -
  have one: "emits observation (inspect_process E p)" for p
    unfolding inspect_process_def led_read_text_def calls Let_def
    by (intro emits_intros) (auto intro!: emits_intros split: file_read.splits)
  have "emits observation (inspect_processes E pid names)" for names
    by (induction names) (auto intro!: emits_intros one split: option.splits)
  then show ?thesis
    unfolding process_owners_except_def calls by (intro emits_intros) simp_all
qed

text \<open>For any property of events that observations have.\<close>

lemma observes:
  assumes "emits observation m" "\<And>e. observation e \<Longrightarrow> A e"
  shows "emits A m"
  using assms by (auto intro: appends_mono list.pred_mono_strong)

section \<open>An active owner is found\<close>

text \<open>What the events show of a process: it ended, or it is not an owner.\<close>

definition cleared :: "int \<Rightarrow> trace \<Rightarrow> bool" where
  "cleared pid es \<longleftrightarrow>
     (let proc = ''/proc/'' @ dec_int pid in
      (\<exists>e. gone e \<and> (Read_file (proc @ ''/comm'') (Open_failed e) \<in> set es \<or>
                     Read_file (proc @ ''/cmdline'') (Open_failed e) \<in> set es)) \<or>
      (\<exists>r name x executable s e. Read_file (proc @ ''/comm'') r \<in> set es \<and> led_text_of_read 256 r = Inr name \<and>
         Read_link (proc @ ''/exe'') x \<in> set es \<and> executable_of_link x = Inr executable \<and>
         Read_file (proc @ ''/cmdline'') (File_data s e) \<in> set es \<and>
         \<not> command_is_owner name executable (nul_words 128 (take 4096 s))))"

lemma cleared_mono: "cleared pid es \<Longrightarrow> set es \<subseteq> set fs \<Longrightarrow> cleared pid fs"
  unfolding cleared_def Let_def by blast

lemma cleared_append: "cleared pid es \<Longrightarrow> cleared pid (es @ fs)" "cleared pid fs \<Longrightarrow> cleared pid (es @ fs)"
  by (auto elim: cleared_mono)

lemma led_text_gone: "led_text_of_read n r = Inl e \<Longrightarrow> gone e \<Longrightarrow> r = Open_failed e"
  by (auto simp: led_text_of_read_def gone_def split: file_read.splits list.splits if_splits)

lemma seg_readlink: "seg (\<lambda>r es. es = [Read_link q r]) (readlink E q)"
  by (simp add: readlink_def seg_prim)

lemma seg_inspect_process: "seg (\<lambda>r es. r = Inr () \<longrightarrow> cleared pid es) (inspect_process E pid)"
proof -
  let ?proc = "''/proc/'' @ dec_int pid"
  have comm: "seg (\<lambda>r es. \<exists>rd. es = [Read_file (?proc @ ''/comm'') rd] \<and> led_text_of_read 256 rd = r)
      (led_read_text E (?proc @ ''/comm'') 256)"
    unfolding led_read_text_def by (simp, rule seg_bind [OF seg_read_file], rule seg_return) simp
  show ?thesis
    unfolding inspect_process_def Let_def
  proof (rule seg_bind [OF comm], elim exE conjE, intro seg_case_sum seg_if seg_return impI)
    fix r es rd e assume "es = [Read_file (?proc @ ''/comm'') rd]" "led_text_of_read 256 rd = r" "r = Inl e" "gone e"
    then show "cleared pid (es @ [])"
      using led_text_gone by (fastforce simp: cleared_def Let_def)
  next
    fix r es rd name assume *: "es = [Read_file (?proc @ ''/comm'') rd]" "led_text_of_read 256 rd = r" "r = Inr name"
    show "seg (\<lambda>r' es'. r' = Inr () \<longrightarrow> cleared pid (es @ es'))
        (do {
            exe \<leftarrow> readlink E (?proc @ ''/exe'');
            (case executable_of_link exe of Inl e \<Rightarrow> fail e
             | Inr executable \<Rightarrow> do {
                 cmd \<leftarrow> read_file E (?proc @ ''/cmdline'');
                 (case cmd of
                    Open_failed e \<Rightarrow> if gone e then ok () else fail e
                  | File_data s e \<Rightarrow>
                      if e \<noteq> None \<and> length s < 4096 then fail EIO
                      else if command_is_owner name executable (nul_words 128 (take 4096 s)) then fail EBUSY
                      else ok ()) }) })"
      by (rule seg_bind [OF seg_readlink], intro seg_case_sum seg_return seg_bind [OF seg_read_file])
        (use * in \<open>auto simp: cleared_def Let_def intro!: seg_return split: file_read.splits\<close>)
  qed simp_all
qed

lemma seg_inspect_processes:
  "seg (\<lambda>r es. r = Inr () \<longrightarrow> (\<forall>n \<in> set names. \<forall>pid. other_process E a n = Some pid \<longrightarrow> cleared pid es))
     (inspect_processes E a names)"
proof (induction names)
  case Nil
  then show ?case by (auto intro: seg_return)
next
  case (Cons n names)
  show ?case
  proof (cases "other_process E a n")
    case None
    with Cons show ?thesis by simp
  next
    case (Some pid)
    show ?thesis
      by (simp add: Some, rule seg_bindE [OF seg_inspect_process], simp, rule seg_mono [OF Cons])
        (auto intro: cleared_append)
  qed
qed

text \<open>
  The search for another owner of the LED controller skips nobody: when it reports none, every
  process that \<^verbatim>\<open>/proc\<close> listed, apart from the caller and the authenticated client, was inspected, and
  either had ended or its name, its executable and the program or script on its command line are not one
  of the known LED controllers.
\<close>

theorem process_owners_complete:
  assumes "run_state (process_owners_except E authenticated) h = (Inr (), h')"
  shows "\<exists>names es. h' = h @ List_dir ''/proc'' (Inr names) # es \<and>
    (\<forall>n \<in> set names. \<forall>pid. other_process E authenticated n = Some pid \<longrightarrow> cleared pid es)"
proof -
  have "seg (\<lambda>r es. r = Inr () \<longrightarrow> (\<exists>names fs. es = List_dir ''/proc'' (Inr names) # fs \<and>
      (\<forall>n \<in> set names. \<forall>pid. other_process E authenticated n = Some pid \<longrightarrow> cleared pid fs))) (process_owners_except E authenticated)"
    unfolding process_owners_except_def
    by (rule seg_bindE [OF seg_list_dir], simp, rule seg_mono [OF seg_inspect_processes]) auto
  from segD [OF this assms] show ?thesis by blast
qed

definition example_proc_env :: env where
  "example_proc_env = null_env\<lparr>e_listdir := (\<lambda>_ _. Inr [''.'', ''1'', ''42'']),
     e_read := (\<lambda>_ path. if path = ''/proc/42/comm'' then File_data (''bash'' @ [CHR 0x0A]) None
                         else if path = ''/proc/42/cmdline'' then File_data (''bash'' @ [CHR 0x00] @ ''/root/backup.sh'' @ [CHR 0x00]) None
                         else Open_failed ENOENT),
     e_readlink := (\<lambda>_ _. Inr ''/usr/bin/bash'')\<rparr>"

theorem process_owners_complete_witness:
  "\<exists>names es. snd (run_state (process_owners_except example_proc_env 0) []) = List_dir ''/proc'' (Inr names) # es \<and>
     (\<forall>n \<in> set names. \<forall>pid. other_process example_proc_env 0 n = Some pid \<longrightarrow> cleared pid es)"
proof -
  have "fst (run_state (process_owners_except example_proc_env 0) []) = Inr ()" by code_simp
  then have "run_state (process_owners_except example_proc_env 0) [] =
      (Inr (), snd (run_state (process_owners_except example_proc_env 0) []))" by (metis prod.collapse)
  from process_owners_complete [OF this] show ?thesis by simp
qed

text \<open>The profile of the DH2300 and a caller who may change LEDs, for the examples of the back ends.\<close>

definition example_gpio :: led_profile where
  "example_gpio = gpio_profile ''dh2300'' ''DH2300'' 2 gpio2 ''ugreen,dh2300''"

definition full_access :: led_access where
  "full_access = \<lparr>la_force = True, la_apply = True, n76_direct = False, n76_bus = 0, n76_address = 0\<rparr>"

end
