(* ===== verification/Led_Cs201x.thy ===== *)
theory Led_Cs201x
  imports Led_Identity
begin

text \<open>
  The CS2011 LED controller of the DXP2800 GT (\<^verbatim>\<open>led/led_cs201x.c\<close>), in the build with port access:
  \<^verbatim>\<open>production_read\<close> and \<^verbatim>\<open>production_write\<close> are \<^verbatim>\<open>inb\<close> and \<^verbatim>\<open>outb\<close> and cannot fail.  A context is a
  \<open>cs201x\<close>; an operation returns its result with the changed context.  The raw state of a LED is the
  list of its seven bytes \<^verbatim>\<open>CS_MODE, CS_BRIGHTNESS, CS_PERIOD, CS_DUTY, CS_RED, CS_GREEN, CS_BLUE\<close>.
\<close>

section \<open>Data\<close>

abbreviation (input) CS_INDEX :: u16 where "CS_INDEX \<equiv> 0x2e"
abbreviation (input) CS_VALUE :: u16 where "CS_VALUE \<equiv> 0x2f"
abbreviation (input) CS_FLOW :: u32 where "CS_FLOW \<equiv> 0x20005440"

abbreviation (input) CS_MODE :: nat where "CS_MODE \<equiv> 0"
abbreviation (input) CS_BRIGHTNESS :: nat where "CS_BRIGHTNESS \<equiv> 1"
abbreviation (input) CS_PERIOD :: nat where "CS_PERIOD \<equiv> 2"
abbreviation (input) CS_DUTY :: nat where "CS_DUTY \<equiv> 3"
abbreviation (input) CS_RED :: nat where "CS_RED \<equiv> 4"
abbreviation (input) CS_GREEN :: nat where "CS_GREEN \<equiv> 5"
abbreviation (input) CS_BLUE :: nat where "CS_BLUE \<equiv> 6"

type_synonym cs_raw = "u8 list"

record cs201x =
  cs_identity :: led_identity
  cs_access :: led_access
  cs_base :: u16
  cs_chip_id :: u16
  cs_revision :: u16
  cs_lock_fds :: "nat list"
  cs_locked :: bool
  cs_config_permission :: bool
  cs_runtime_permission :: bool
  cs_confirmed :: bool
  cs_holder :: bool
  cs_restore_pending :: bool
  cs_identify_saved :: bool
  cs_original_flow :: u8
  cs_identify_id :: u8
  cs_original :: "cs_raw list"
  cs_identify_original :: cs_raw
  cs_client_pid :: int
  cs_bus :: string

section \<open>Owners and locks\<close>

definition cs_exists :: "env \<Rightarrow> string \<Rightarrow> (errno + bool) io" where
  "cs_exists E path = do {
     r \<leftarrow> lstat_regular E path;
     (case r of Inr _ \<Rightarrow> ok True | Inl e \<Rightarrow> if e = ENOENT \<or> e = ENOTDIR then ok False else fail e) }"

definition cs_owner_paths :: "string list" where
  "cs_owner_paths =
     [''/proc/it86'', ''/sys/module/ug_201x_sio'', ''/sys/module/ug_201x'', ''/sys/module/ug_it86x_sio'',
      ''/sys/module/ug_it86x_cpufan'', ''/sys/module/ug_4800gt_sio'', ''/sys/module/it87'', ''/sys/module/nct6775'',
      ''/sys/bus/platform/drivers/ug-sio201/ug-sio201'', ''/sys/bus/platform/drivers/ug-sio201/ug-sio201.0'']"

text \<open>\<^verbatim>\<open>sscanf(line, " %lx-%lx : %399[^\n]", &first, &last, name) == 3\<close>.\<close>

definition scan_hex :: "string \<Rightarrow> (u64 \<times> string) option" where
  "scan_hex s = (let (v, rest, _) = strtoul16 s in if rest = s then None else Some (v, rest))"

definition scan_ioport :: "string \<Rightarrow> (u64 \<times> u64 \<times> string) option" where
  "scan_ioport line =
     (case scan_hex line of None \<Rightarrow> None
      | Some (lo, r) \<Rightarrow>
          if take 1 r \<noteq> ''-'' then None
          else (case scan_hex (drop 1 r) of None \<Rightarrow> None
            | Some (hi, r) \<Rightarrow>
                let r = dropWhile isspace r in
                if take 1 r \<noteq> '':'' then None
                else let name = take 399 (takeWhile (\<lambda>c. c \<noteq> CHR 0x0A) (dropWhile isspace (drop 1 r))) in
                  if name = [] then None else Some (lo, hi, name)))"

definition ioport_conflict :: "u16 \<Rightarrow> string \<Rightarrow> bool" where
  "ioport_conflict base line =
     (case scan_ioport (c_str line) of None \<Rightarrow> False
      | Some (lo, hi, name) \<Rightarrow>
          \<not> starts_with ''PCI Bus '' name \<and>
          (lo \<le> 0x2f \<and> hi \<ge> 0x2e \<or> base \<noteq> 0 \<and> lo \<le> ucast base + 12 \<and> hi \<ge> ucast base))"

definition ioports_free :: "u16 \<Rightarrow> file_read \<Rightarrow> errno + unit" where
  "ioports_free base r =
     (case r of Open_failed e \<Rightarrow> Inl e
      | File_data s e \<Rightarrow>
          if list_ex (ioport_conflict base) (fgets_lines 511 (e \<noteq> None) s) then Inl EBUSY
          else if e \<noteq> None then Inl EIO else Inr ())"

fun cs_no_owner_path :: "env \<Rightarrow> string list \<Rightarrow> (errno + unit) io" where
  "cs_no_owner_path E [] = ok ()"
| "cs_no_owner_path E (path # paths) =
     bindE (cs_exists E path) (\<lambda>present. if present then fail EBUSY else cs_no_owner_path E paths)"

definition cs_owners :: "env \<Rightarrow> int \<Rightarrow> u16 \<Rightarrow> (errno + unit) io" where
  "cs_owners E client_pid base =
     bindE (cs_no_owner_path E cs_owner_paths) (\<lambda>_.
     bindE (process_owners_except E client_pid) (\<lambda>_.
       do { r \<leftarrow> read_file E ''/proc/ioports''; ret (ioports_free base r) }))"

definition cs_unlock :: "nat list \<Rightarrow> unit io" where
  "cs_unlock fds = do { each (\<lambda>fd. do { flock_un fd; close_fd fd }) (rev fds); ret () }"

definition cs_lock_trusted :: "file_stat \<Rightarrow> bool" where
  "cs_lock_trusted st \<longleftrightarrow> sx_regular st \<and> sx_uid st = 0 \<and> sx_nlink st = 1 \<and> sx_mode st AND 0x12 = 0"

fun cs_lock_files :: "env \<Rightarrow> string list \<Rightarrow> nat list \<Rightarrow> (errno + nat list) io" where
  "cs_lock_files E [] fds = ok fds"
| "cs_lock_files E (path # paths) fds = do {
     o' \<leftarrow> open_lock E path;
     (case o' of Inl e \<Rightarrow> do { cs_unlock fds; fail e }
      | Inr fd \<Rightarrow> do {
          st \<leftarrow> fstat E fd;
          (case st of Inl e \<Rightarrow> do { cs_unlock (fds @ [fd]); fail e }
           | Inr st \<Rightarrow>
               if \<not> cs_lock_trusted st then do { cs_unlock (fds @ [fd]); fail EPERM }
               else do {
                 l \<leftarrow> flock E fd True;
                 (case l of Some e \<Rightarrow> do { cs_unlock (fds @ [fd]); fail (if e = EWOULDBLOCK then EBUSY else e) }
                  | None \<Rightarrow> cs_lock_files E paths (fds @ [fd])) }) }) }"

definition cs_lock :: "env \<Rightarrow> (errno + nat list) io" where
  "cs_lock E = cs_lock_files E [''/run/ugreenctl-led-mcu.lock'', ''/run/ugreenctl-it8613.lock''] []"

definition cs_permission :: "env \<Rightarrow> u16 \<Rightarrow> nat \<Rightarrow> bool \<Rightarrow> (errno + unit) io" where
  "cs_permission E port count enable = do {
     r \<leftarrow> ioperm E port count enable;
     (case r of Some e \<Rightarrow> fail e | None \<Rightarrow> ok ()) }"

section \<open>Ports\<close>

definition cs_sio_read :: "env \<Rightarrow> u8 \<Rightarrow> u8 io" where
  "cs_sio_read E index = do { outb index CS_INDEX; inb E CS_VALUE }"

definition cs_sio_word :: "env \<Rightarrow> u8 \<Rightarrow> u16 io" where
  "cs_sio_word E index = do {
     high \<leftarrow> cs_sio_read E index;
     low \<leftarrow> cs_sio_read E (index + 1);
     ret (push_bit 8 (ucast high) OR ucast low) }"

text \<open>Selecting a logical device: register 7 of the configuration space.\<close>

definition cs_select :: "u8 \<Rightarrow> unit io" where
  "cs_select ldn = do { outb 0x07 CS_INDEX; outb ldn CS_VALUE }"

definition sane_base :: "u16 \<Rightarrow> bool" where
  "sane_base base \<longleftrightarrow> base \<ge> 0x100 \<and> base \<le> 0xfff0 \<and> base AND 0x0f = 0"

text \<open>The probe returns base, chip and revision; once the logical device was selected, the old selection is
  written back, and configuration mode is always left.\<close>

definition cs_probe :: "env \<Rightarrow> (errno + u16 \<times> u16 \<times> u16) io" where
  "cs_probe E = do {
     each (\<lambda>v. do { outb v CS_INDEX; sleep_ms 1 }) [0xa5, 0x69, 0x87];
     chip \<leftarrow> cs_sio_word E 0x20;
     r \<leftarrow> (if chip \<noteq> 0x2011 then fail ENODEV
          else do {
            revision \<leftarrow> cs_sio_word E 0x22;
            old_ldn \<leftarrow> cs_sio_read E 0x07;
            cs_select 0x0a;
            active \<leftarrow> cs_sio_read E 0x30;
            r \<leftarrow> (if active \<noteq> 1 then fail ENODEV
                 else do {
                   base \<leftarrow> cs_sio_word E 0x60;
                   (if \<not> sane_base base then fail ENODEV else ok (base, chip, revision)) });
            cs_select old_ldn;
            ret r });
     each (\<lambda>v. outb v CS_INDEX) [0x87, 0x69, 0xa5];
     ret r }"

definition cs_put_address :: "u16 \<Rightarrow> u32 \<Rightarrow> unit io" where
  "cs_put_address base reg = do {
     outb 0 (base + 1);
     outb (ucast (drop_bit 24 reg)) (base + 7);
     outb (ucast (drop_bit 16 reg)) (base + 6);
     outb (ucast (drop_bit 8 reg)) (base + 5);
     outb (ucast reg) (base + 4) }"

definition cs_ec_read :: "env \<Rightarrow> u16 \<Rightarrow> u32 \<Rightarrow> u8 io" where
  "cs_ec_read E base reg = do { cs_put_address base reg; sleep_ms 1; inb E (base + 8) }"

definition cs_ec_write :: "u16 \<Rightarrow> u32 \<Rightarrow> u8 \<Rightarrow> unit io" where
  "cs_ec_write base reg value = do { cs_put_address base reg; outb value (base + 8) }"

definition cs_reg_address :: "u8 \<Rightarrow> nat \<Rightarrow> u32" where
  "cs_reg_address i field =
     [0x20005400, 0x20005404, 0x20005408, 0x2000540c, 0x20005445, 0x20005446, 0x20005444] ! field +
     (if field \<ge> CS_RED then ucast i * 4 else ucast i)"

section \<open>The guard before every access\<close>

definition cs_machine :: "led_identity \<Rightarrow> bool" where
  "cs_machine i \<longleftrightarrow> li_product_name i = ''DXP2800 GT'' \<and> li_source i = ''dmi'' \<and>
     (case li_profile i of None \<Rightarrow> False | Some p \<Rightarrow> protocol p = ''cs201x-sio'')"

definition hex4 :: "u16 \<Rightarrow> string" where
  "hex4 w = map (\<lambda>k. ''0123456789abcdef'' ! (unat w div 16 ^ k mod 16)) [3, 2, 1, 0]"

text \<open>\<^verbatim>\<open>if (!c->runtime_permission) { ... }\<close>.\<close>

definition cs_claim_runtime :: "env \<Rightarrow> u16 \<Rightarrow> cs201x \<Rightarrow> ((errno + unit) \<times> cs201x) io" where
  "cs_claim_runtime E base c =
     (if cs_runtime_permission c then ret (Inr (), c)
      else tryC (cs_owners E (cs_client_pid c) base) c (\<lambda>_.
           tryC (cs_permission E base 13 True) c (\<lambda>_.
             ret (Inr (), c\<lparr>cs_base := base, cs_runtime_permission := True\<rparr>))))"

text \<open>\<open>expected\<close> is \<open>None\<close> for the expected flow \<^verbatim>\<open>-1\<close>.\<close>

definition cs_guard_flow :: "env \<Rightarrow> bool \<Rightarrow> u8 option \<Rightarrow> cs201x \<Rightarrow> ((errno + u8) \<times> cs201x) io" where
  "cs_guard_flow E writing expected c =
     (let c = c\<lparr>cs_confirmed := False\<rparr> in
      if writing \<and> (\<not> la_apply (cs_access c) \<or> \<not> la_force (cs_access c)) then ret (Inl EPERM, c)
      else tryC (led_detect E) c (\<lambda>identity.
        if \<not> cs_machine identity \<or>
           li_product_name (cs_identity c) \<noteq> [] \<and> \<not> same_identity identity (cs_identity c)
        then ret (Inl ENOTSUP, c)
        else tryC (cs_owners E (cs_client_pid c) (cs_base c)) c (\<lambda>_.
             tryC (cs_probe E) c (\<lambda>(base, chip, revision).
               let c = c\<lparr>cs_chip_id := chip, cs_revision := revision\<rparr> in
               if cs_base c \<noteq> 0 \<and> cs_base c \<noteq> base then ret (Inl ESTALE, c)
               else thenC (cs_claim_runtime E base c) (\<lambda>_ c. do {
                 flow \<leftarrow> cs_ec_read E (cs_base c) CS_FLOW;
                 ret (if flow > 1 then (Inl EBADMSG, c)
                      else if expected \<noteq> None \<and> expected \<noteq> Some flow then (Inl EBUSY, c)
                      else (Inr flow, c\<lparr>cs_identity := identity, cs_confirmed := True,
                              cs_bus := ''sio:0x2e,h2ec:0x'' @ hex4 (cs_base c)\<rparr>)) })))))"

definition cs_guard :: "env \<Rightarrow> bool \<Rightarrow> cs201x \<Rightarrow> ((errno + u8) \<times> cs201x) io" where
  "cs_guard E writing c = cs_guard_flow E writing (Some 1) c"

section \<open>Snapshots\<close>

definition cs_valid_raw :: "cs_raw \<Rightarrow> bool" where
  "cs_valid_raw raw \<longleftrightarrow>
     (let m = unat (raw ! CS_MODE); on = unat (raw ! CS_DUTY) * 50; period = unat (raw ! CS_PERIOD) * 50 in
      m \<le> 3 \<and>
      \<not> (m \<ge> 2 \<and> (period \<le> on \<or> on < (if m = 2 then 100 else 1000) \<or> period - on < (if m = 2 then 100 else 500))))"

definition cs_read_led :: "env \<Rightarrow> u16 \<Rightarrow> u8 \<Rightarrow> cs_raw io" where
  "cs_read_led E base i = each (\<lambda>f. cs_ec_read E base (cs_reg_address i f)) [0..<7]"

definition cs_snapshot :: "env \<Rightarrow> u8 \<Rightarrow> cs201x \<Rightarrow> ((errno + cs_raw) \<times> cs201x) io" where
  "cs_snapshot E i c =
     (if i \<ge> 4 then ret (Inl EINVAL, c)
      else thenC (cs_guard E False c) (\<lambda>_ c. do {
        raw \<leftarrow> cs_read_led E (cs_base c) i;
        again \<leftarrow> cs_read_led E (cs_base c) i;
        (if raw \<noteq> again \<or> \<not> cs_valid_raw raw then ret (Inl EBADMSG, c)
         else thenC (cs_guard E False c) (\<lambda>_ c. ret (Inr raw, c))) }))"

definition cs_snapshot_all :: "env \<Rightarrow> u8 \<Rightarrow> cs201x \<Rightarrow> ((errno + cs_raw list) \<times> cs201x) io" where
  "cs_snapshot_all E flow c =
     thenC (cs_guard_flow E False (Some flow) c) (\<lambda>_ c. do {
       raw \<leftarrow> each (cs_read_led E (cs_base c)) [0, 1, 2, 3];
       again \<leftarrow> each (cs_read_led E (cs_base c)) [0, 1, 2, 3];
       (if raw \<noteq> again \<or> \<not> list_all cs_valid_raw raw then ret (Inl EBADMSG, c)
        else thenC (cs_guard_flow E False (Some flow) c) (\<lambda>_ c. ret (Inr raw, c))) })"

definition cs_change_flow :: "env \<Rightarrow> u8 \<Rightarrow> u8 \<Rightarrow> cs201x \<Rightarrow> ((errno + unit) \<times> cs201x) io" where
  "cs_change_flow E before wanted c =
     (if \<not> cs_holder c \<or> \<not> cs_restore_pending c \<or> before > 1 \<or> wanted > 1 then ret (Inl EPERM, c)
      else thenC (cs_guard_flow E True (Some before) c) (\<lambda>_ c. do {
        cs_ec_write (cs_base c) CS_FLOW wanted;
        sleep_ms 1;
        actual \<leftarrow> cs_ec_read E (cs_base c) CS_FLOW;
        (if actual \<noteq> wanted then ret (Inl EIO, c)
         else thenC (cs_guard_flow E False (Some wanted) c) (\<lambda>_ c. ret (Inr (), c))) }))"

section \<open>Values and patches\<close>

definition cs_decode :: "cs_raw \<Rightarrow> led_value" where
  "cs_decode raw =
     (let timed = raw ! CS_PERIOD \<ge> raw ! CS_DUTY in
      zero_value\<lparr>mode := ucast (raw ! CS_MODE), brightness := ucast (raw ! CS_BRIGHTNESS), red := ucast (raw ! CS_RED),
        green := ucast (raw ! CS_GREEN), blue := ucast (raw ! CS_BLUE),
        on_ms := (if timed then ucast (raw ! CS_DUTY) * 50 else 0),
        off_ms := (if timed then (ucast (raw ! CS_PERIOD) - ucast (raw ! CS_DUTY)) * 50 else 0),
        unknown_fields := (if timed then 0 else PATCH_TIMING)\<rparr>)"

definition cs_validate_patch :: "led_patch \<Rightarrow> errno option" where
  "cs_validate_patch p =
     (let v = pv p; allowed = PATCH_MODE OR PATCH_RGB OR PATCH_BRIGHTNESS OR PATCH_TIMING in
      if patch_fields p = 0 \<or> patch_fields p AND NOT allowed \<noteq> 0 then Some EINVAL
      else if has p PATCH_RGB \<and> (red v > 255 \<or> green v > 255 \<or> blue v > 255) then Some EINVAL
      else if has p PATCH_BRIGHTNESS \<and> brightness v > 255 then Some EINVAL
      else if has p PATCH_MODE \<and> mode v > 3 then Some EINVAL
      else if has p PATCH_TIMING \<and>
        (on_ms v = 0 \<or> off_ms v = 0 \<or> on_ms v > 12750 \<or> off_ms v > 12750 \<or> on_ms v + off_ms v > 12750 \<or>
         on_ms v mod 50 \<noteq> 0 \<or> off_ms v mod 50 \<noteq> 0) then Some EINVAL
      else None)"

definition cs_patched :: "led_patch \<Rightarrow> cs_raw \<Rightarrow> cs_raw" where
  "cs_patched p raw =
     (let v = pv p;
          raw = (if has p PATCH_RGB then raw[CS_RED := ucast (red v), CS_GREEN := ucast (green v), CS_BLUE := ucast (blue v)] else raw);
          raw = (if has p PATCH_BRIGHTNESS then raw[CS_BRIGHTNESS := ucast (brightness v)] else raw);
          raw = (if has p PATCH_MODE then raw[CS_MODE := ucast (mode v)] else raw)
      in if has p PATCH_TIMING then raw[CS_PERIOD := ucast ((on_ms v + off_ms v) div 50), CS_DUTY := ucast (on_ms v div 50)] else raw)"

section \<open>Writing\<close>

definition cs_write_byte :: "env \<Rightarrow> u8 \<Rightarrow> nat \<Rightarrow> u8 \<Rightarrow> cs201x \<Rightarrow> ((errno + unit) \<times> cs201x) io" where
  "cs_write_byte E i field value c =
     thenC (cs_guard E True c) (\<lambda>_ c. do {
       cs_ec_write (cs_base c) (cs_reg_address i field) value;
       sleep_ms 1;
       actual \<leftarrow> cs_ec_read E (cs_base c) (cs_reg_address i field);
       ret (if actual \<noteq> value then Inl EIO else Inr (), c) })"

fun cs_write_fields ::
    "env \<Rightarrow> u8 \<Rightarrow> cs_raw \<Rightarrow> cs_raw \<Rightarrow> bool \<Rightarrow> bool \<Rightarrow> nat list \<Rightarrow> cs201x \<Rightarrow> ((errno + unit) \<times> cs201x) io" where
  "cs_write_fields E i wanted before restore quiesce [] c = ret (Inr (), c)"
| "cs_write_fields E i wanted before restore quiesce (field # rest) c =
     (if restore \<or> wanted ! field \<noteq> before ! field \<or> quiesce \<and> field = CS_MODE
      then thenC (cs_write_byte E i field (wanted ! field) c) (\<lambda>_ c. cs_write_fields E i wanted before restore quiesce rest c)
      else cs_write_fields E i wanted before restore quiesce rest c)"

definition cs_commit :: "env \<Rightarrow> u8 \<Rightarrow> cs_raw \<Rightarrow> cs_raw \<Rightarrow> bool \<Rightarrow> cs201x \<Rightarrow> ((errno + unit) \<times> cs201x) io" where
  "cs_commit E i wanted before restore c =
     (let quiesce = restore \<or> before ! CS_MODE \<ge> 2 \<and>
            (wanted ! CS_PERIOD \<noteq> before ! CS_PERIOD \<or> wanted ! CS_DUTY \<noteq> before ! CS_DUTY) in
      thenC (if quiesce then cs_write_byte E i CS_MODE 0 c else ret (Inr (), c)) (\<lambda>_ c.
      thenC (cs_write_fields E i wanted before restore quiesce
               [CS_RED, CS_GREEN, CS_BLUE, CS_BRIGHTNESS, CS_PERIOD, CS_DUTY, CS_MODE] c) (\<lambda>_ c.
      thenC (cs_snapshot E i c) (\<lambda>actual c.
        ret (if actual \<noteq> wanted then Inl EIO else Inr (), c)))))"

definition cs_restore_after_error ::
    "env \<Rightarrow> u8 \<Rightarrow> cs_raw \<Rightarrow> cs_raw \<Rightarrow> errno \<Rightarrow> cs201x \<Rightarrow> ((errno + 'a) \<times> cs201x) io" where
  "cs_restore_after_error E i before wanted cause c =
     thenC (cs_commit E i before wanted True c) (\<lambda>_ c. ret (Inl cause, c))"

section \<open>Operations\<close>

definition cs_read :: "env \<Rightarrow> u8 \<Rightarrow> cs201x \<Rightarrow> ((errno + led_value) \<times> cs201x) io" where
  "cs_read E i c = thenC (cs_snapshot E i c) (\<lambda>raw c. ret (Inr (cs_decode raw), c))"

definition cs_apply :: "env \<Rightarrow> u8 \<Rightarrow> led_patch \<Rightarrow> cs201x \<Rightarrow> ((errno + led_value) \<times> cs201x) io" where
  "cs_apply E i p c =
     (if i \<ge> 4 then ret (Inl EINVAL, c)
      else if cs_identify_saved c then ret (Inl EBUSY, c)
      else (case cs_validate_patch p of Some e \<Rightarrow> ret (Inl e, c)
        | None \<Rightarrow>
            thenC (cs_guard E True c) (\<lambda>_ c.
            thenC (cs_snapshot E i c) (\<lambda>before c.
              let wanted = cs_patched p before in
              if \<not> cs_valid_raw wanted then ret (Inl EINVAL, c)
              else do {
                (r, c) \<leftarrow> cs_commit E i wanted before False c;
                (case r of Inl e \<Rightarrow> cs_restore_after_error E i before wanted e c
                 | Inr _ \<Rightarrow> ret (Inr (cs_decode wanted), c)) }))))"

definition cs_identify_effect :: "cs_raw \<Rightarrow> cs_raw" where
  "cs_identify_effect raw =
     raw[CS_MODE := 2, CS_BRIGHTNESS := 255, CS_PERIOD := 8, CS_DUTY := 4, CS_RED := 0, CS_GREEN := 0, CS_BLUE := 255]"

definition cs_begin_identify :: "env \<Rightarrow> u8 \<Rightarrow> cs201x \<Rightarrow> ((errno + unit) \<times> cs201x) io" where
  "cs_begin_identify E i c =
     (if i \<ge> 4 then ret (Inl EINVAL, c)
      else if cs_identify_saved c then ret (Inl EBUSY, c)
      else thenC (cs_guard E True c) (\<lambda>_ c.
           thenC (cs_snapshot E i c) (\<lambda>original c.
             let c = c\<lparr>cs_identify_original := original, cs_identify_id := i, cs_identify_saved := True\<rparr>;
                 wanted = cs_identify_effect original in
             do {
               (r, c) \<leftarrow> cs_commit E i wanted original False c;
               (case r of Inl e \<Rightarrow> cs_restore_after_error E i original wanted e c
                | Inr _ \<Rightarrow> ret (Inr (), c)) })))"

definition cs_end_identify :: "env \<Rightarrow> u8 \<Rightarrow> cs201x \<Rightarrow> ((errno + unit) \<times> cs201x) io" where
  "cs_end_identify E i c =
     (if i \<ge> 4 then ret (Inl EINVAL, c)
      else if \<not> cs_identify_saved c then ret (Inl ENOENT, c)
      else if i \<noteq> cs_identify_id c then ret (Inl EINVAL, c)
      else thenC (cs_commit E i (cs_identify_original c) (cs_identify_original c) True c) (\<lambda>_ c.
        ret (Inr (), c\<lparr>cs_identify_saved := False\<rparr>)))"

fun cs_wait :: "env \<Rightarrow> nat \<Rightarrow> unit io" where
  "cs_wait E 0 = ret ()"
| "cs_wait E (Suc n) = do {
     stop \<leftarrow> poll_cancelled E;
     (if stop then ret () else do { sleep_ms 50; cs_wait E n }) }"

definition cs_identify :: "env \<Rightarrow> u8 \<Rightarrow> u32 \<Rightarrow> cs201x \<Rightarrow> ((errno + unit) \<times> cs201x) io" where
  "cs_identify E i seconds c =
     (if i \<ge> 4 \<or> seconds < 1 \<or> seconds > 60 then ret (Inl EINVAL, c)
      else if cs_identify_saved c then ret (Inl EBUSY, c)
      else thenC (cs_guard E True c) (\<lambda>_ c. do {
        stop \<leftarrow> poll_cancelled E;
        (if stop then ret (Inl EINTR, c)
         else thenC (cs_snapshot E i c) (\<lambda>before c.
           let wanted = cs_identify_effect before in
           do {
             (r, c) \<leftarrow> cs_commit E i wanted before False c;
             (case r of Inl e \<Rightarrow> cs_restore_after_error E i before wanted e c
              | Inr _ \<Rightarrow> do {
                  cs_wait E (unat seconds * 20);
                  thenC (cs_commit E i before wanted True c) (\<lambda>_ c. do {
                    stop \<leftarrow> poll_cancelled E;
                    ret (if stop then Inl EINTR else Inr (), c) }) }) })) }))"

section \<open>The holder\<close>

fun cs_restore_leds :: "env \<Rightarrow> u8 list \<Rightarrow> cs201x \<Rightarrow> ((errno + unit) \<times> cs201x) io" where
  "cs_restore_leds E [] c = ret (Inr (), c)"
| "cs_restore_leds E (i # ids) c =
     (let raw = cs_original c ! unat i in
      thenC (cs_commit E i raw raw True c) (\<lambda>_ c. cs_restore_leds E ids c))"

definition cs_restore_holder :: "env \<Rightarrow> cs201x \<Rightarrow> ((errno + unit) \<times> cs201x) io" where
  "cs_restore_holder E c =
     (if \<not> cs_holder c \<or> \<not> cs_restore_pending c then ret (Inr (), c)
      else do {
        (_, c) \<leftarrow> (if cs_identify_saved c then cs_end_identify E (cs_identify_id c) c else ret (Inr (), c));
        thenC (cs_guard_flow E True None c) (\<lambda>flow c.
        thenC (if flow = 0 then
                 (if cs_original_flow c \<noteq> 0 then ret (Inl EBUSY, c)
                  else thenC (cs_snapshot_all E 0 c) (\<lambda>actual c.
                    ret (if actual \<noteq> cs_original c then Inl EBUSY else Inr (), c)))
               else
                 thenC (cs_restore_leds E [0, 1, 2, 3] c) (\<lambda>_ c.
                 thenC (cs_snapshot_all E 1 c) (\<lambda>actual c.
                   if actual \<noteq> cs_original c then ret (Inl EIO, c)
                   else if cs_original_flow c = 0 then cs_change_flow E 1 0 c
                   else ret (Inr (), c)))) (\<lambda>_ c.
          ret (Inr (), c\<lparr>cs_restore_pending := False, cs_identify_saved := False\<rparr>))) })"

definition cs_release_context :: "env \<Rightarrow> cs201x \<Rightarrow> unit io" where
  "cs_release_context E c = do {
     _ \<leftarrow> (if cs_runtime_permission c then ioperm E (cs_base c) 13 False else ret None);
     _ \<leftarrow> (if cs_config_permission c then ioperm E CS_INDEX 2 False else ret None);
     (if cs_locked c then cs_unlock (cs_lock_fds c) else ret ()) }"

definition cs_fresh :: "led_access \<Rightarrow> bool \<Rightarrow> led_identity \<Rightarrow> cs201x" where
  "cs_fresh ac holder identity = \<lparr>cs_identity = identity, cs_access = ac, cs_base = 0, cs_chip_id = 0, cs_revision = 0,
     cs_lock_fds = [], cs_locked = False, cs_config_permission = False, cs_runtime_permission = False,
     cs_confirmed = False, cs_holder = holder, cs_restore_pending = False, cs_identify_saved = False,
     cs_original_flow = 0, cs_identify_id = 0, cs_original = [], cs_identify_original = [], cs_client_pid = 0, cs_bus = []\<rparr>"

definition cs_start_holder :: "env \<Rightarrow> bool \<Rightarrow> cs201x \<Rightarrow> ((errno + unit) \<times> cs201x) io" where
  "cs_start_holder E takeover_flow c =
     thenC (cs_guard_flow E False None c) (\<lambda>flow c.
       let c = c\<lparr>cs_original_flow := flow\<rparr> in
       if flow = 0 \<and> \<not> takeover_flow then ret (Inl EBUSY, c)
       else thenC (cs_snapshot_all E flow c) (\<lambda>original c.
         let c = c\<lparr>cs_original := original, cs_restore_pending := True\<rparr> in
         thenC (if flow = 0 then cs_change_flow E 0 1 c else ret (Inr (), c)) (\<lambda>_ c.
         thenC (cs_snapshot_all E 1 c) (\<lambda>actual c.
           ret (if actual \<noteq> cs_original c then Inl EIO else Inr (), c)))))"

definition cs_start :: "env \<Rightarrow> bool \<Rightarrow> bool \<Rightarrow> cs201x \<Rightarrow> ((errno + unit) \<times> cs201x) io" where
  "cs_start E holder takeover_flow c =
     tryC (cs_owners E 0 0) c (\<lambda>_.
     tryC (cs_lock E) c (\<lambda>fds.
       let c = c\<lparr>cs_lock_fds := fds, cs_locked := True\<rparr> in
     tryC (cs_owners E 0 0) c (\<lambda>_.
     tryC (cs_permission E CS_INDEX 2 True) c (\<lambda>_.
       let c = c\<lparr>cs_config_permission := True\<rparr> in
       if \<not> holder then thenC (cs_guard E False c) (\<lambda>_ c. ret (Inr (), c))
       else cs_start_holder E takeover_flow c))))"

definition cs_open_context :: "env \<Rightarrow> led_access \<Rightarrow> bool \<Rightarrow> bool \<Rightarrow> (errno + cs201x) io" where
  "cs_open_context E ac holder takeover_flow =
     (if holder \<and> (\<not> la_force ac \<or> \<not> la_apply ac) then fail EPERM
      else bindE (led_detect E) (\<lambda>identity.
        if \<not> cs_machine identity then fail ENOTSUP
        else do {
          (r, c) \<leftarrow> cs_start E holder takeover_flow (cs_fresh ac holder identity);
          (case r of Inr _ \<Rightarrow> ok c
           | Inl e \<Rightarrow> do {
               (e, c) \<leftarrow> (if cs_restore_pending c then do {
                            (r, c) \<leftarrow> cs_restore_holder E c;
                            ret (case r of Inl e' \<Rightarrow> e' | Inr _ \<Rightarrow> e, c) }
                          else ret (e, c));
               cs_release_context E c;
               fail e }) }))"

definition cs_open :: "env \<Rightarrow> led_access \<Rightarrow> (errno + cs201x) io" where
  "cs_open E ac = cs_open_context E ac False False"

definition cs_open_holder :: "env \<Rightarrow> led_access \<Rightarrow> bool \<Rightarrow> (errno + cs201x) io" where
  "cs_open_holder E ac takeover_flow = cs_open_context E ac True takeover_flow"

definition cs_set_client :: "int \<Rightarrow> cs201x \<Rightarrow> cs201x" where
  "cs_set_client pid c = c\<lparr>cs_client_pid := (if pid > 0 then pid else 0)\<rparr>"

definition cs_finish :: "env \<Rightarrow> cs201x \<Rightarrow> ((errno + unit) \<times> cs201x) io" where
  "cs_finish E c =
     (if cs_holder c then cs_restore_holder E c
      else if cs_identify_saved c then cs_end_identify E (cs_identify_id c) c
      else ret (Inr (), c))"

definition cs_close :: "env \<Rightarrow> cs201x \<Rightarrow> unit io" where
  "cs_close E c = do { (_, c) \<leftarrow> cs_finish E c; cs_release_context E c }"

definition cs_restore_close :: "env \<Rightarrow> cs201x \<Rightarrow> (errno + unit) io" where
  "cs_restore_close E c = do { (r, c) \<leftarrow> cs_finish E c; cs_release_context E c; ret r }"

section \<open>Register accesses\<close>

text \<open>The register accesses in a history, for a controller at base \<open>b\<close>: the state is the selected index of the
  configuration space and the address latched for the embedded controller.\<close>

datatype cs_op = Config_write u8 u8 | Ec_write u32 u8 | Ec_read u32 u8 | Other_write u16 u8

definition put_byte :: "nat \<Rightarrow> u8 \<Rightarrow> u32 \<Rightarrow> u32" where
  "put_byte k v a = (a AND NOT (push_bit (8 * k) (mask 8))) OR push_bit (8 * k) (ucast v)"

definition cs_step :: "u16 \<Rightarrow> u8 \<times> u32 \<Rightarrow> event \<Rightarrow> (u8 \<times> u32) \<times> cs_op list" where
  "cs_step b s e =
     (case e of
        Outb p v \<Rightarrow>
          if p = CS_INDEX then ((v, snd s), [])
          else if p = CS_VALUE then (s, [Config_write (fst s) v])
          else if p = b + 8 then (s, [Ec_write (snd s) v])
          else if p = b + 4 then ((fst s, put_byte 0 v (snd s)), [])
          else if p = b + 5 then ((fst s, put_byte 1 v (snd s)), [])
          else if p = b + 6 then ((fst s, put_byte 2 v (snd s)), [])
          else if p = b + 7 then ((fst s, put_byte 3 v (snd s)), [])
          else if p = b + 1 \<and> v = 0 then (s, [])
          else (s, [Other_write p v])
      | Inb p v \<Rightarrow> (s, if p = b + 8 then [Ec_read (snd s) v] else [])
      | _ \<Rightarrow> (s, []))"

fun cs_run :: "u16 \<Rightarrow> u8 \<times> u32 \<Rightarrow> trace \<Rightarrow> (u8 \<times> u32) \<times> cs_op list" where
  "cs_run b s [] = (s, [])"
| "cs_run b s (e # es) = (let (s, ops) = cs_step b s e; (s, ops') = cs_run b s es in (s, ops @ ops'))"

definition cs_log :: "u16 \<Rightarrow> u8 \<times> u32 \<Rightarrow> trace \<Rightarrow> cs_op list" where
  "cs_log b s es = snd (cs_run b s es)"

lemma cs_run_append: "cs_run b s (es @ fs) = (let (s, ops) = cs_run b s es; (s, ops') = cs_run b s fs in (s, ops @ ops'))"
  by (induction es arbitrary: s) (auto split: prod.splits)

lemma cs_log_append: "\<exists>t. cs_log b s (es @ fs) = cs_log b s es @ cs_log b t fs"
  by (auto simp: cs_log_def cs_run_append split: prod.splits) (metis snd_conv)

definition cs_good :: "u16 \<Rightarrow> (cs_op \<Rightarrow> bool) \<Rightarrow> trace \<Rightarrow> bool" where
  "cs_good b A es \<longleftrightarrow> (\<forall>s. list_all A (cs_log b s es))"

interpretation cs_ops: segments "cs_good b A" for b A
proof
  show "cs_good b A []" by (simp add: cs_good_def cs_log_def)
  fix es fs assume "cs_good b A es" "cs_good b A fs"
  then show "cs_good b A (es @ fs)"
    unfolding cs_good_def using cs_log_append by (metis list_all_append)
qed

lemma put_address: "put_byte 0 (ucast r) (put_byte (Suc 0) (ucast (drop_bit 8 r)) (put_byte 2 (ucast (drop_bit 16 r)) (put_byte 3 (ucast (drop_bit 24 r)) a))) = r"
  unfolding put_byte_def
  by (rule bit_word_eqI) (auto simp: bit_simps not_less)

lemma sane_ports:
  assumes "sane_base b"
  shows "b + 1 \<noteq> 0x2e" "b + 4 \<noteq> 0x2e" "b + 5 \<noteq> 0x2e" "b + 6 \<noteq> 0x2e" "b + 7 \<noteq> 0x2e" "b + 8 \<noteq> 0x2e"
    "b + 1 \<noteq> 0x2f" "b + 4 \<noteq> 0x2f" "b + 5 \<noteq> 0x2f" "b + 6 \<noteq> 0x2f" "b + 7 \<noteq> 0x2f" "b + 8 \<noteq> 0x2f"
  using assms by (auto simp: sane_base_def simp flip: eq_diff_eq)

lemma seg_ec_read:
  assumes "sane_base b"
  shows "seg (\<lambda>v es. \<forall>s. cs_log b s es = [Ec_read reg v]) (cs_ec_read E b reg)"
  using sane_ports [OF assms]
  by (auto simp: seg_def wp_simps cs_ec_read_def cs_put_address_def calls cs_log_def cs_step_def put_address)

lemma seg_ec_write:
  assumes "sane_base b"
  shows "seg (\<lambda>_ es. \<forall>s. cs_log b s es = [Ec_write reg v]) (cs_ec_write b reg v)"
  using sane_ports [OF assms]
  by (auto simp: seg_def wp_simps cs_ec_write_def cs_put_address_def calls cs_log_def cs_step_def put_address)


definition no_port :: "event \<Rightarrow> bool" where
  "no_port e \<longleftrightarrow> (case e of Inb _ _ \<Rightarrow> False | Outb _ _ \<Rightarrow> False | _ \<Rightarrow> True)"

lemma no_port_log: "list_all no_port es \<Longrightarrow> cs_run b s es = (s, [])"
  by (induction es arbitrary: s) (auto simp: no_port_def cs_step_def split: event.splits)

lemma no_port_good: "emits no_port m \<Longrightarrow> appends (cs_good b A) m"
  by (erule appends_mono) (simp add: cs_good_def cs_log_def no_port_log)

lemma observation_no_port: "observation e \<Longrightarrow> no_port e"
  by (cases e) (simp_all add: no_port_def)

lemma no_port_detect: "emits no_port (led_detect E)"
  by (rule observes [OF observe_detect observation_no_port])

lemma no_port_processes: "emits no_port (process_owners_except E pid)"
  by (rule observes [OF observe_processes observation_no_port])

lemma no_port_owners: "emits no_port (cs_owners E pid base)"
proof -
  have "emits no_port (cs_no_owner_path E ps)" for ps
    by (induction ps) (auto simp: cs_exists_def calls no_port_def intro!: emits_intros)
  then show ?thesis
    unfolding cs_owners_def calls by (intro emits_intros no_port_processes) (simp_all add: no_port_def)
qed

lemma no_port_sleep: "emits no_port (sleep_ms n)"
  by (auto simp: calls no_port_def intro!: emits_intros)

lemmas silent = no_port_good [OF no_port_detect] no_port_good [OF no_port_owners] no_port_good [OF no_port_sleep]

lemma good_select:
  assumes "\<And>v. A (Config_write 7 v)"
  shows "appends (cs_good b A) (cs_select v)"
  using assms by (auto simp: appends_def cs_select_def calls cs_good_def cs_log_def cs_step_def)

lemma good_index: "appends (cs_good b A) (outb v CS_INDEX)"
  by (auto simp: appends_def calls cs_good_def cs_log_def cs_step_def)

lemma good_sio_read: "sane_base b \<Longrightarrow> appends (cs_good b A) (cs_sio_read E i)"
  using sane_ports by (auto simp: appends_def cs_sio_read_def calls cs_good_def cs_log_def cs_step_def dest: sym)

lemma good_probe:
  assumes "sane_base b" "\<And>v. A (Config_write 7 v)"
  shows "appends (cs_good b A) (cs_probe E)"
  unfolding cs_probe_def cs_sio_word_def
  by (intro cs_ops.intros appends_cases good_select good_index good_sio_read assms silent)

lemma good_ec_read: "sane_base b \<Longrightarrow> (\<And>v. A (Ec_read reg v)) \<Longrightarrow> appends (cs_good b A) (cs_ec_read E b reg)"
  by (rule appends_seg, rule seg_mono [OF seg_ec_read]) (auto simp: cs_good_def)

lemma good_ec_write: "sane_base b \<Longrightarrow> A (Ec_write reg v) \<Longrightarrow> appends (cs_good b A) (cs_ec_write b reg v)"
  by (rule appends_seg, rule seg_mono [OF seg_ec_write]) (auto simp: cs_good_def)

text \<open>A session: contexts that satisfy \<open>I\<close> are open at the base \<open>b\<close>, the guard's own updates keep \<open>I\<close>,
  and reading is allowed by \<open>A\<close>.\<close>

locale cs_session =
  fixes b :: u16 and I :: "cs201x \<Rightarrow> bool" and A :: "cs_op \<Rightarrow> bool"
  assumes opened: "I c \<Longrightarrow> sane_base b \<and> cs_base c = b \<and> cs_runtime_permission c"
    and stable: "I c \<Longrightarrow> I (c\<lparr>cs_confirmed := x\<rparr>)" "I c \<Longrightarrow> I (c\<lparr>cs_chip_id := w, cs_revision := w'\<rparr>)"
      "I c \<Longrightarrow> I (c\<lparr>cs_identity := i, cs_confirmed := x, cs_bus := s\<rparr>)"
    and harmless: "A (Ec_read r v)" "A (Config_write 7 v)"
begin

lemma claim_runtime: "I c \<Longrightarrow> keeps I (cs_good b A) (cs_claim_runtime E base c)"
  using opened by (auto simp: cs_claim_runtime_def intro: cs_ops.keeps_return)

lemma guard_flow: "I c \<Longrightarrow> keeps I (cs_good b A) (cs_guard_flow E w x c)"
proof -
  assume c: "I c"
  then have sane: "sane_base b" using opened by blast
  show ?thesis
    unfolding cs_guard_flow_def Let_def
    by (intro cs_ops.keeps_intros silent good_probe sane harmless claim_runtime)
      (auto simp: opened intro!: c stable cs_ops.keeps_intros cs_ops.keeps_bind good_ec_read sane harmless)
qed

lemma read_led: "sane_base b \<Longrightarrow> appends (cs_good b A) (cs_read_led E b i)"
  unfolding cs_read_led_def by (intro cs_ops.intros good_ec_read harmless)

lemma snapshot: "I c \<Longrightarrow> keeps I (cs_good b A) (cs_snapshot E i c)"
  unfolding cs_snapshot_def cs_guard_def using opened [of c]
  by (auto simp: opened intro!: cs_ops.keeps_intros cs_ops.keeps_bind guard_flow read_led)

lemma snapshot_all: "I c \<Longrightarrow> keeps I (cs_good b A) (cs_snapshot_all E flow c)"
  unfolding cs_snapshot_all_def using opened [of c]
  by (auto simp: opened intro!: cs_ops.keeps_intros cs_ops.keeps_bind cs_ops.each guard_flow read_led)

end

definition permitted :: "cs201x \<Rightarrow> bool" where
  "permitted c \<longleftrightarrow> la_force (cs_access c) \<and> la_apply (cs_access c)"

lemma write_byte_refused: "\<not> permitted c \<Longrightarrow> cs_write_byte E i f v c = ret (Inl EPERM, c\<lparr>cs_confirmed := False\<rparr>)"
  by (auto simp: permitted_def cs_write_byte_def cs_guard_def cs_guard_flow_def thenC_def intro!: state.expand)

text \<open>A session that may also write the registers of the LEDs \<open>ids\<close>, if the access flags permit it.\<close>

locale cs_writer = cs_session +
  fixes ids :: "u8 set"
  assumes writes: "I c \<Longrightarrow> permitted c \<Longrightarrow> i \<in> ids \<Longrightarrow> f < 7 \<Longrightarrow> A (Ec_write (cs_reg_address i f) v)"
begin

lemma write_byte: "I c \<Longrightarrow> i \<in> ids \<Longrightarrow> f < 7 \<Longrightarrow> keeps I (cs_good b A) (cs_write_byte E i f v c)"
proof (cases "permitted c")
  case True
  assume c: "I c" "i \<in> ids" "f < 7"
  then have "A (Ec_write (cs_reg_address i f) v)" "sane_base b" using writes opened True by blast+
  with c show ?thesis
    unfolding cs_write_byte_def cs_guard_def
    by (auto simp: opened intro!: cs_ops.keeps_intros cs_ops.keeps_bind guard_flow good_ec_write good_ec_read harmless silent)
qed (auto simp: write_byte_refused intro!: cs_ops.keeps_return stable)

lemma write_fields:
  "I c \<Longrightarrow> i \<in> ids \<Longrightarrow> \<forall>f \<in> set fs. f < 7 \<Longrightarrow>
   keeps I (cs_good b A) (cs_write_fields E i wanted before restore quiesce fs c)"
  by (induction fs arbitrary: c) (auto intro!: cs_ops.keeps_return cs_ops.keeps_thenC write_byte)

lemma commit: "I c \<Longrightarrow> i \<in> ids \<Longrightarrow> keeps I (cs_good b A) (cs_commit E i wanted before restore c)"
  unfolding cs_commit_def Let_def
  by (intro cs_ops.keeps_thenC cs_ops.keeps_return keeps_if write_byte write_fields snapshot) auto

lemma restore_after_error: "I c \<Longrightarrow> i \<in> ids \<Longrightarrow> keeps I (cs_good b A) (cs_restore_after_error E i before wanted e c)"
  unfolding cs_restore_after_error_def by (intro cs_ops.keeps_thenC cs_ops.keeps_return commit)

lemma apply_patch: "I c \<Longrightarrow> i \<in> ids \<Longrightarrow> keeps I (cs_good b A) (cs_apply E i p c)"
  unfolding cs_apply_def cs_guard_def Let_def
  by (intro cs_ops.keeps_intros guard_flow snapshot cs_ops.keeps_next commit restore_after_error)

lemma identify: "I c \<Longrightarrow> i \<in> ids \<Longrightarrow> keeps I (cs_good b A) (cs_identify E i seconds c)"
proof -
  assume c: "I c" "i \<in> ids"
  have poll: "emits no_port (poll_cancelled E)"
    by (auto simp: calls no_port_def intro!: emits_intros)
  have wait: "emits no_port (cs_wait E n)" for n
    by (induction n) (auto intro!: emits_intros poll no_port_sleep)
  show ?thesis
    unfolding cs_identify_def cs_guard_def Let_def
    by (intro cs_ops.keeps_intros guard_flow snapshot cs_ops.keeps_next commit restore_after_error c
        cs_ops.keeps_bind no_port_good [OF wait] no_port_good [OF poll])
qed

end

section \<open>What a session may do\<close>

text \<open>Besides reading: the logical-device selection, and the registers of the LEDs \<open>ids\<close> when allowed.\<close>

definition led_ops :: "bool \<Rightarrow> u8 set \<Rightarrow> cs_op \<Rightarrow> bool" where
  "led_ops allowed ids op =
     (case op of Ec_read _ _ \<Rightarrow> True | Config_write n _ \<Rightarrow> n = 7 | Other_write _ _ \<Rightarrow> False
      | Ec_write r _ \<Rightarrow> allowed \<and> (\<exists>i \<in> ids. \<exists>f < 7. r = cs_reg_address i f))"

definition no_ec_write :: "cs_op \<Rightarrow> bool" where
  "no_ec_write op \<longleftrightarrow> (case op of Ec_write _ _ \<Rightarrow> False | _ \<Rightarrow> True)"

text \<open>What the guard never changes in an open context.\<close>

definition cs_fixed :: "cs201x \<Rightarrow> _" where
  "cs_fixed c = (cs_base c, cs_runtime_permission c, cs_access c, cs_holder c, cs_restore_pending c,
     cs_original c, cs_original_flow c)"

definition cs_frozen :: "cs201x \<Rightarrow> cs201x \<Rightarrow> bool" where
  "cs_frozen k c \<longleftrightarrow> sane_base (cs_base k) \<and> cs_runtime_permission k \<and> cs_fixed c = cs_fixed k"

interpretation frozen: cs_session "cs_base k" "cs_frozen k" no_ec_write for k
  by unfold_locales (auto simp: cs_frozen_def cs_fixed_def no_ec_write_def)

interpretation led: cs_writer "cs_base k" "cs_frozen k" "led_ops (permitted k) ids" ids for k ids
  by unfold_locales (auto simp: cs_frozen_def cs_fixed_def led_ops_def permitted_def)

text \<open>
  \<^bold>\<open>C20.\<close>  Whatever the chip answers, a change of one LED stays with that LED: every byte it writes into the
  embedded controller goes to one of the seven registers of the requested LED, and only if both
  acknowledgements were given; in the configuration space only the logical-device selection is written, and no
  other port at all.  The same holds for a timed identification.
\<close>

theorem cs_writes_confined:
  assumes "sane_base (cs_base c)" "cs_runtime_permission c"
  shows "(\<exists>es. snd (run_state (cs_apply E i p c) h) = h @ es \<and>
      (\<forall>s. list_all (led_ops (la_force (cs_access c) \<and> la_apply (cs_access c)) {i}) (cs_log (cs_base c) s es))) \<and>
    (\<exists>es. snd (run_state (cs_identify E i seconds c) h) = h @ es \<and>
      (\<forall>s. list_all (led_ops (la_force (cs_access c) \<and> la_apply (cs_access c)) {i}) (cs_log (cs_base c) s es)))"
proof -
  have c: "cs_frozen c c" using assms by (simp add: cs_frozen_def)
  have "appends (cs_good (cs_base c) (led_ops (permitted c) {i})) (cs_apply E i p c)"
      "appends (cs_good (cs_base c) (led_ops (permitted c) {i})) (cs_identify E i seconds c)"
    by (auto intro!: keeps_appends led.apply_patch led.identify c)
  then show ?thesis unfolding appends_def cs_good_def permitted_def by blast
qed

section \<open>What success means\<close>

text \<open>The last thing that happened to the registers of a LED is that they were read with these values.\<close>

definition last_read :: "u16 \<Rightarrow> u8 \<Rightarrow> cs_raw \<Rightarrow> trace \<Rightarrow> bool" where
  "last_read b i raw es \<longleftrightarrow>
     (\<forall>s. \<exists>before after. cs_log b s es = before @ after \<and> list_all no_ec_write after \<and>
        (\<forall>f < 7. Ec_read (cs_reg_address i f) (raw ! f) \<in> set after))"

lemma last_read_prefix: "last_read b i raw fs \<Longrightarrow> last_read b i raw (es @ fs)"
  unfolding last_read_def using cs_log_append [of b _ es fs] by (metis append.assoc)

lemma seg_read_led:
  assumes "sane_base b"
  shows "seg (\<lambda>raw es. length raw = 7 \<and> (\<forall>s f. f < 7 \<longrightarrow> Ec_read (cs_reg_address i f) (raw ! f) \<in> set (cs_log b s es)))
    (cs_read_led E b i)"
proof -
  have "seg (\<lambda>raw es. length raw = length fs \<and>
      (\<forall>s k. k < length fs \<longrightarrow> Ec_read (cs_reg_address i (fs ! k)) (raw ! k) \<in> set (cs_log b s es)))
    (each (\<lambda>f. cs_ec_read E b (cs_reg_address i f)) fs)" for fs
  proof (induction fs)
    case Nil
    then show ?case by (simp add: seg_return)
  next
    case (Cons f fs)
    have split: "x \<in> set (cs_log b s (es @ es'))" if "(\<forall>t. x \<in> set (cs_log b t es)) \<or> (\<forall>t. x \<in> set (cs_log b t es'))" for x s es es'
      using that cs_log_append [of b s es es'] by (metis UnCI set_append)
    show ?case
      unfolding each.simps
      by (rule seg_bind [OF seg_ec_read [OF assms]], rule seg_bind [OF Cons], rule seg_return)
        (auto simp: less_Suc_eq_0_disj intro!: split)
  qed
  from this [of "[0..<7]"] show ?thesis unfolding cs_read_led_def by (simp add: seg_def)
qed


lemma seg_snapshot:
  assumes c: "cs_frozen k c"
  shows "seg (\<lambda>r es. cs_frozen k (snd r) \<and> (\<forall>raw. fst r = Inr raw \<longrightarrow> length raw = 7 \<and> last_read (cs_base k) i raw es)) (cs_snapshot E i c)"
proof -
  let ?b = "cs_base k"
  have sane: "sane_base ?b" using c by (simp add: cs_frozen_def)
  have split: "x \<in> set (cs_log b s (es @ es' @ fs))" if "\<forall>t. x \<in> set (cs_log b t es')" for x b s es es' fs
    using that cs_log_append [of b s es "es' @ fs"] cs_log_append [of b _ es' fs] by (metis UnCI set_append)
  have "seg (\<lambda>r es. \<forall>raw. fst r = Inr raw \<longrightarrow> length raw = 7 \<and>
      (\<forall>s f. f < 7 \<longrightarrow> Ec_read (cs_reg_address i f) (raw ! f) \<in> set (cs_log ?b s es))) (cs_snapshot E i c)"
    unfolding cs_snapshot_def cs_guard_def
  proof (rule seg_if, goal_cases)
    case 2
    show ?case
    proof (rule seg_thenC [OF frozen.guard_flow [OF c, unfolded keeps_def]], goal_cases)
      case (2 flow d es)
      then have d: "cs_base d = ?b" "cs_frozen k d" by (auto simp: cs_frozen_def cs_fixed_def)
      show ?case
        unfolding d(1)
        by (rule seg_bind [OF seg_read_led [OF sane]], rule seg_bind [OF seg_read_led [OF sane]], rule seg_if, rule seg_return, simp,
            rule seg_thenC [OF frozen.guard_flow [OF d(2), unfolded keeps_def]], simp, rule seg_return)
          (auto intro: split)
    qed simp
  qed (simp add: seg_return)
  from seg_conj [OF frozen.snapshot [OF c, unfolded keeps_def] this] show ?thesis
    by (rule seg_mono) (auto simp: last_read_def cs_good_def intro: exI [of _ "[]"])
qed


lemma seg_commit:
  assumes c: "cs_frozen k c"
  shows "seg (\<lambda>r es. cs_frozen k (snd r) \<and> (\<forall>u. fst r = Inr u \<longrightarrow> length wanted = 7 \<and> last_read (cs_base k) i wanted es))
    (cs_commit E i wanted before restore c)"
proof -
  define quiesce where "quiesce \<longleftrightarrow> restore \<or> before ! CS_MODE \<ge> 2 \<and>
    (wanted ! CS_PERIOD \<noteq> before ! CS_PERIOD \<or> wanted ! CS_DUTY \<noteq> before ! CS_DUTY)"
  have start: "keeps (cs_frozen k) (cs_good (cs_base k) (led_ops (permitted k) {i}))
      (if quiesce then cs_write_byte E i CS_MODE 0 c else ret (Inr (), c))"
    by (intro keeps_if cs_ops.keeps_return led.write_byte c) auto
  have fields: "keeps (cs_frozen k) (cs_good (cs_base k) (led_ops (permitted k) {i}))
      (cs_write_fields E i wanted before restore quiesce [CS_RED, CS_GREEN, CS_BLUE, CS_BRIGHTNESS, CS_PERIOD, CS_DUTY, CS_MODE] d)"
    if "cs_frozen k d" for d
    using that by (intro led.write_fields) auto
  have commit: "cs_commit E i wanted before restore c =
      thenC (if quiesce then cs_write_byte E i CS_MODE 0 c else ret (Inr (), c)) (\<lambda>_ c.
      thenC (cs_write_fields E i wanted before restore quiesce
               [CS_RED, CS_GREEN, CS_BLUE, CS_BRIGHTNESS, CS_PERIOD, CS_DUTY, CS_MODE] c) (\<lambda>_ c.
      thenC (cs_snapshot E i c) (\<lambda>actual c.
        ret (if actual \<noteq> wanted then Inl EIO else Inr (), c))))"
    unfolding cs_commit_def Let_def quiesce_def ..
  show ?thesis
    unfolding commit
  proof (rule seg_thenC [OF start [unfolded keeps_def]], goal_cases)
    case (2 _ d es)
    then have d: "cs_frozen k d" by simp
    show ?case
    proof (rule seg_thenC [OF fields [OF d, unfolded keeps_def]], goal_cases)
      case (2 _ e fs)
      then have e: "cs_frozen k e" by simp
      show ?case
        by (rule seg_thenC [OF seg_snapshot [OF e]], simp, rule seg_return)
          (auto simp: intro!: last_read_prefix)
    qed auto
  qed auto
qed

definition cs_meets :: "led_patch \<Rightarrow> led_value \<Rightarrow> bool" where
  "cs_meets p v \<longleftrightarrow>
     (has p PATCH_RGB \<longrightarrow> red v = red (pv p) \<and> green v = green (pv p) \<and> blue v = blue (pv p)) \<and>
     (has p PATCH_BRIGHTNESS \<longrightarrow> brightness v = brightness (pv p)) \<and>
     (has p PATCH_MODE \<longrightarrow> mode v = mode (pv p)) \<and>
     (has p PATCH_TIMING \<longrightarrow> on_ms v = on_ms (pv p) \<and> off_ms v = off_ms (pv p) \<and> unknown_fields v = 0)"

lemma byte_of_u32: "x \<le> 255 \<Longrightarrow> ucast (ucast (x :: u32) :: u8) = x"
  by (rule word_unat_eq_iff [THEN iffD2]) (simp add: unsigned_ucast_eq take_bit_eq_mod word_le_unat unat_mod_distrib)

lemma mode_of_u32: "x \<le> 3 \<Longrightarrow> ucast (ucast (x :: u32) :: u8) = x"
  by (rule byte_of_u32) (auto intro: order_trans)

lemma cs_timing_exact:
  fixes on off :: u32
  assumes "on \<le> 12750" "off \<le> 12750" "on + off \<le> 12750" "on mod 50 = 0" "off mod 50 = 0"
  defines "period \<equiv> (ucast ((on + off) div 50) :: u8)" and "duty \<equiv> (ucast (on div 50) :: u8)"
  shows "duty \<le> period" "ucast duty * 50 = on" "(ucast period - ucast duty) * 50 = off"
proof -
  have le: "unat on \<le> 12750" "unat off \<le> 12750" using assms(1,2) by (simp_all add: word_le_unat)
  then have sum: "unat (on + off) = unat on + unat off" by (simp add: unat_word_ariths)
  obtain m n where mn: "unat on = 50 * m" "unat off = 50 * n"
    using assms(4,5) by (auto simp: word_unat_eq_iff unat_mod_distrib elim!: dvdE simp flip: dvd_eq_mod_eq_0)
  have small: "m + n \<le> 255" using assms(3) sum mn by (simp add: word_le_unat)
  have "unat ((on + off) div 50) = m + n" "unat (on div 50) = m" using sum mn by (simp_all add: unat_div_distrib)
  then have bytes: "unat period = m + n" "unat duty = m"
    using small by (simp_all add: period_def duty_def unsigned_ucast_eq take_bit_eq_mod)
  show "duty \<le> period" using bytes by (simp add: word_le_unat)
  show "ucast duty * 50 = on" using bytes mn small by (simp add: word_unat_eq_iff unat_word_ariths)
  have mult: "unat (w * 50) = 50 * k" if "unat w = k" "k \<le> 255" for w :: u32 and k
    using that by (simp add: unat_word_ariths)
  have "unat (ucast period - ucast duty :: u32) = n" using bytes by (simp add: unat_sub word_le_unat)
  then show "(ucast period - ucast duty) * 50 = off" using mn small mult by (metis add_leD2 word_unat_eq_iff)
qed

lemma cs_patched_meets:
  assumes "cs_validate_patch p = None" "length raw = 7"
  shows "cs_meets p (cs_decode (cs_patched p raw))"
  using assms cs_timing_exact [of "on_ms (pv p)" "off_ms (pv p)"]
  by (auto simp: cs_meets_def cs_decode_def cs_patched_def cs_validate_patch_def Let_def byte_of_u32 mode_of_u32 not_less zero_value_def
      split: if_splits)


definition cs_result :: "u16 \<Rightarrow> u8 \<Rightarrow> led_patch \<Rightarrow> led_value \<Rightarrow> trace \<Rightarrow> bool" where
  "cs_result b i p v es \<longleftrightarrow>
     (\<exists>raw. length raw = 7 \<and> last_read b i raw es \<and> v = cs_decode raw \<and> cs_meets p v)"

lemma cs_result_prefix: "cs_result b i p v fs \<Longrightarrow> cs_result b i p v (es @ fs)"
  unfolding cs_result_def using last_read_prefix by blast

text \<open>
  \<^bold>\<open>C21.\<close>  A change of a LED that reports success was confirmed: the value returned has every requested field,
  and it is the decoding of a raw state that was read back completely from the LED's seven registers after the
  last write.
\<close>

theorem cs_apply_confirmed:
  assumes c: "sane_base (cs_base c)" "cs_runtime_permission c"
    and run: "run_state (cs_apply E i p c) h = ((Inr v, c'), h')"
  shows "\<exists>es raw. h' = h @ es \<and> length raw = 7 \<and> last_read (cs_base c) i raw es \<and> v = cs_decode raw \<and> cs_meets p v"
proof -
  have frozen: "cs_frozen c c" using c by (simp add: cs_frozen_def)
  let ?Q = "\<lambda>r es. \<forall>v. fst r = Inr v \<longrightarrow> cs_result (cs_base c) i p v es"
  have restore: "seg ?Q (cs_restore_after_error E i before wanted e d)" if "cs_frozen c d" for before wanted e d
    unfolding cs_restore_after_error_def
    by (rule seg_thenC [OF seg_commit [OF that]]) (auto intro: seg_return)
  have commit: "seg ?Q (do {
        (r, d) \<leftarrow> cs_commit E i (cs_patched p before) before False d;
        (case r of Inl e \<Rightarrow> cs_restore_after_error E i before (cs_patched p before) e d
         | Inr _ \<Rightarrow> ret (Inr (cs_decode (cs_patched p before)), d)) })"
    if "cs_frozen c d" "length before = 7" "cs_validate_patch p = None" for before d
  proof (rule seg_bind [OF seg_commit [OF that(1)]])
    fix x :: "(errno + unit) \<times> cs201x" and es
    assume x: "cs_frozen c (snd x) \<and> (\<forall>u. fst x = Inr u \<longrightarrow> length (cs_patched p before) = 7 \<and>
      last_read (cs_base c) i (cs_patched p before) es)"
    obtain r d' where x_eq: "x = (r, d')" by (cases x)
    with x have d': "cs_frozen c d'" by simp
    have "r = Inr u \<Longrightarrow> cs_result (cs_base c) i p (cs_decode (cs_patched p before)) es" for u
      using x x_eq cs_patched_meets [OF that(3,2)] unfolding cs_result_def by auto
    then show "seg (\<lambda>a b. \<forall>v. fst a = Inr v \<longrightarrow> cs_result (cs_base c) i p v (es @ b))
        (case x of (r, d) \<Rightarrow> (case r of Inl e \<Rightarrow> cs_restore_after_error E i before (cs_patched p before) e d
         | Inr _ \<Rightarrow> ret (Inr (cs_decode (cs_patched p before)), d)))"
      unfolding x_eq prod.case
      by (intro seg_case_sum seg_return seg_mono [OF restore [OF d']]) (auto intro: cs_result_prefix)
  qed
  have "seg ?Q (cs_apply E i p c)"
    unfolding cs_apply_def cs_guard_def Let_def
  proof (intro seg_if seg_case_option; (rule seg_return, simp)?)
    assume valid: "cs_validate_patch p = None"
    show "seg ?Q (thenC (cs_guard_flow E True (Some 1) c) (\<lambda>_ c. thenC (cs_snapshot E i c) (\<lambda>before c.
        if \<not> cs_valid_raw (cs_patched p before) then ret (Inl EINVAL, c)
        else do {
          (r, c) \<leftarrow> cs_commit E i (cs_patched p before) before False c;
          (case r of Inl e \<Rightarrow> cs_restore_after_error E i before (cs_patched p before) e c
           | Inr _ \<Rightarrow> ret (Inr (cs_decode (cs_patched p before)), c)) })))"
      by (rule seg_thenC [OF frozen.guard_flow [OF frozen, unfolded keeps_def]], simp,
          rule seg_thenC [OF seg_snapshot [of c]], simp, simp, rule seg_if, rule seg_return, simp,
          rule seg_mono [OF commit]) (auto simp: valid intro: cs_result_prefix)
  qed
  from segD [OF this run] show ?thesis unfolding cs_result_def by auto
qed


section \<open>The holder gives everything back\<close>

definition last_flow :: "u16 \<Rightarrow> u8 \<Rightarrow> trace \<Rightarrow> bool" where
  "last_flow b v es \<longleftrightarrow> (\<forall>s. \<exists>before. cs_log b s es = before @ [Ec_read CS_FLOW v])"

definition flow_only :: "cs_op \<Rightarrow> bool" where
  "flow_only op \<longleftrightarrow> (case op of Ec_write r _ \<Rightarrow> r = CS_FLOW | _ \<Rightarrow> True)"

definition baseline_read :: "u16 \<Rightarrow> cs_raw list \<Rightarrow> trace \<Rightarrow> bool" where
  "baseline_read b raws es \<longleftrightarrow>
     (\<forall>s. \<exists>before after. cs_log b s es = before @ after \<and> list_all flow_only after \<and>
        (\<forall>i < 4. \<forall>f < 7. Ec_read (cs_reg_address (of_nat i) f) (raws ! i ! f) \<in> set after))"

lemma last_flow_prefix: "last_flow b v fs \<Longrightarrow> last_flow b v (es @ fs)"
  unfolding last_flow_def using cs_log_append [of b _ es fs] by (metis append.assoc)

lemma baseline_prefix: "baseline_read b raws fs \<Longrightarrow> baseline_read b raws (es @ fs)"
  unfolding baseline_read_def using cs_log_append [of b _ es fs] by (metis append.assoc)

lemma baseline_suffix: "baseline_read b raws es \<Longrightarrow> cs_good b flow_only fs \<Longrightarrow> baseline_read b raws (es @ fs)"
  unfolding baseline_read_def
proof
  fix s assume es: "\<forall>s. \<exists>before after. cs_log b s es = before @ after \<and> list_all flow_only after \<and>
        (\<forall>i < 4. \<forall>f < 7. Ec_read (cs_reg_address (of_nat i) f) (raws ! i ! f) \<in> set after)" and fs: "cs_good b flow_only fs"
  obtain t where t: "cs_log b s (es @ fs) = cs_log b s es @ cs_log b t fs" using cs_log_append by blast
  from es obtain before after where "cs_log b s es = before @ after" "list_all flow_only after"
      "\<forall>i < 4. \<forall>f < 7. Ec_read (cs_reg_address (of_nat i) f) (raws ! i ! f) \<in> set after" by blast
  moreover have "list_all flow_only (cs_log b t fs)" using fs by (simp only: cs_good_def)
  ultimately show "\<exists>before after. cs_log b s (es @ fs) = before @ after \<and> list_all flow_only after \<and>
        (\<forall>i < 4. \<forall>f < 7. Ec_read (cs_reg_address (of_nat i) f) (raws ! i ! f) \<in> set after)"
    using t by (intro exI [of _ before, OF exI [of _ "after @ cs_log b t fs"]]) auto
qed

interpretation flow: cs_session "cs_base k" "cs_frozen k" flow_only for k
  by unfold_locales (auto simp: cs_frozen_def cs_fixed_def flow_only_def)

lemma seg_guard_flow:
  assumes c: "cs_frozen k c"
  shows "seg (\<lambda>r es. cs_frozen k (snd r) \<and> (\<forall>flow. fst r = Inr flow \<longrightarrow> last_flow (cs_base k) flow es \<and>
      (\<forall>x. expected = Some x \<longrightarrow> flow = x))) (cs_guard_flow E w expected c)"
proof -
  have sane: "sane_base (cs_base k)" using c by (simp add: cs_frozen_def)
  let ?Q = "\<lambda>r es. \<forall>flow. fst r = Inr flow \<longrightarrow> last_flow (cs_base k) flow es \<and> (\<forall>x. expected = Some x \<longrightarrow> flow = x)"
  have any: "seg (\<lambda>_ _. True) m" if "appends (cs_good 0 (\<lambda>_. True)) m" for m :: "'x io"
    using seg_appends [OF that] by (rule seg_mono) simp
  have quiet: "seg (\<lambda>_ _. True) (led_detect E)" "seg (\<lambda>_ _. True) (cs_owners E pid base)" for pid base
    by (intro any silent)+
  have probe: "seg (\<lambda>_ _. True) (cs_probe E)"
    by (rule seg_mono [OF seg_appends [OF good_probe [OF sane, of "\<lambda>_. True"]]]) auto
  have last: "seg ?Q (do {
        flow \<leftarrow> cs_ec_read E (cs_base d) CS_FLOW;
        ret (if flow > 1 then (Inl EBADMSG, d) else if expected \<noteq> None \<and> expected \<noteq> Some flow then (Inl EBUSY, d)
             else (Inr flow, f flow d)) })" if "cs_frozen k d" for d f
  proof -
    have base: "cs_base d = cs_base k" using that by (simp add: cs_frozen_def cs_fixed_def)
    show ?thesis
      unfolding base by (rule seg_bind [OF seg_ec_read [OF sane]], rule seg_return) (auto simp: last_flow_def split: if_splits)
  qed
  have claim: "cs_claim_runtime E base d = ret (Inr (), d)" if "cs_frozen k d" for base d
    using that by (auto simp: cs_claim_runtime_def cs_frozen_def cs_fixed_def)
  have tail: "seg ?Q (thenC (cs_claim_runtime E base d) (\<lambda>_ d. do {
        flow \<leftarrow> cs_ec_read E (cs_base d) CS_FLOW;
        ret (if flow > 1 then (Inl EBADMSG, d) else if expected \<noteq> None \<and> expected \<noteq> Some flow then (Inl EBUSY, d)
             else (Inr flow, f flow d)) }))" if "cs_frozen k d" for base d f
    using last [OF that, of f] by (simp add: claim [OF that] thenC_def)
  have "seg ?Q (cs_guard_flow E w expected c)"
    unfolding cs_guard_flow_def Let_def
    by (intro seg_if seg_return seg_tryC [OF quiet(1)] seg_tryC [OF quiet(2)] seg_tryC [OF probe] seg_case_prod seg_mono [OF tail])
      (auto intro!: last_flow_prefix c frozen.stable)
  from seg_conj [OF frozen.guard_flow [OF c, unfolded keeps_def] this] show ?thesis by (rule seg_mono) auto
qed

lemma seg_snapshot_all:
  assumes c: "cs_frozen k c"
  shows "seg (\<lambda>r es. cs_frozen k (snd r) \<and> (\<forall>raws. fst r = Inr raws \<longrightarrow>
      last_flow (cs_base k) flow es \<and> baseline_read (cs_base k) raws es)) (cs_snapshot_all E flow c)"
proof -
  let ?b = "cs_base k"
  have sane: "sane_base ?b" using c by (simp add: cs_frozen_def)
  have split: "x \<in> set (cs_log b s (es @ fs))" if "(\<forall>t. x \<in> set (cs_log b t es)) \<or> (\<forall>t. x \<in> set (cs_log b t fs))" for x b s es fs
    using that cs_log_append [of b s es fs] by (metis UnCI set_append)
  have all: "seg (\<lambda>raws es. length raws = length ids \<and> (\<forall>s k f. k < length ids \<longrightarrow> f < 7 \<longrightarrow>
      Ec_read (cs_reg_address (ids ! k) f) (raws ! k ! f) \<in> set (cs_log ?b s es))) (each (cs_read_led E ?b) ids)" for ids
  proof (induction ids)
    case Nil
    then show ?case by (simp add: seg_return)
  next
    case (Cons i ids)
    show ?case
      unfolding each.simps
      by (rule seg_bind [OF seg_read_led [OF sane]], rule seg_bind [OF Cons], rule seg_return)
        (auto simp: less_Suc_eq_0_disj intro!: split)
  qed
  let ?ids = "[0, 1, 2, 3] :: u8 list"
  have ids: "?ids ! i = of_nat i" if "i < 4" for i
    using that by (auto simp: less_Suc_eq numeral_eq_Suc)
  let ?Q = "\<lambda>r es. \<forall>raws. fst r = Inr raws \<longrightarrow> last_flow ?b flow es \<and> (\<forall>s i f. i < 4 \<longrightarrow> f < 7 \<longrightarrow>
      Ec_read (cs_reg_address (of_nat i) f) (raws ! i ! f) \<in> set (cs_log ?b s es))"
  have "seg ?Q (cs_snapshot_all E flow c)"
    unfolding cs_snapshot_all_def
  proof (rule seg_thenC [OF seg_guard_flow [OF c]], simp)
    fix x d es assume "cs_frozen k (snd (Inr x :: errno + u8, d)) \<and>
      (\<forall>flow'. fst (Inr x :: errno + u8, d) = Inr flow' \<longrightarrow> last_flow ?b flow' es \<and> (\<forall>x. Some flow = Some x \<longrightarrow> flow' = x))"
    then have d: "cs_frozen k d" "cs_base d = ?b" by (auto simp: cs_frozen_def cs_fixed_def)
    show "seg (\<lambda>r' es'. ?Q r' (es @ es')) (do {
       raw \<leftarrow> each (cs_read_led E (cs_base d)) ?ids;
       again \<leftarrow> each (cs_read_led E (cs_base d)) ?ids;
       (if raw \<noteq> again \<or> \<not> list_all cs_valid_raw raw then ret (Inl EBADMSG, d)
        else thenC (cs_guard_flow E False (Some flow) d) (\<lambda>_ c. ret (Inr raw, c))) })"
      unfolding d(2)
      by (rule seg_bind [OF all [of ?ids]], rule seg_bind [OF all [of ?ids]], rule seg_if, rule seg_return, simp,
          rule seg_thenC [OF seg_guard_flow [OF d(1)]], simp, rule seg_return)
        (auto intro!: last_flow_prefix split simp: ids)
  qed
  from seg_conj [OF flow.snapshot_all [OF c, unfolded keeps_def] this] show ?thesis
    by (rule seg_mono) (auto simp: baseline_read_def cs_good_def intro: exI [of _ "[]"])
qed


lemma seg_change_flow:
  assumes c: "cs_frozen k c"
  shows "seg (\<lambda>r es. cs_good (cs_base k) flow_only es \<and> (\<forall>u. fst r = Inr u \<longrightarrow> last_flow (cs_base k) wanted es)) (cs_change_flow E before wanted c)"
proof -
  have sane: "sane_base (cs_base k)" using c by (simp add: cs_frozen_def)
  let ?G = "cs_good (cs_base k) flow_only"
  have guard: "seg (\<lambda>r es. cs_frozen k (snd r) \<and> ?G es \<and> (\<forall>flow. fst r = Inr flow \<longrightarrow> last_flow (cs_base k) flow es \<and>
      (\<forall>x. expected = Some x \<longrightarrow> flow = x))) (cs_guard_flow E w expected d)" if "cs_frozen k d" for d w expected
    using seg_conj [OF flow.guard_flow [OF that, unfolded keeps_def] seg_guard_flow [OF that]] by (rule seg_mono) auto
  have calls: "seg (\<lambda>_. ?G) (cs_ec_write (cs_base k) CS_FLOW wanted)" "seg (\<lambda>_. ?G) (sleep_ms 1)" "seg (\<lambda>_. ?G) (cs_ec_read E (cs_base k) CS_FLOW)"
    by (intro seg_appends good_ec_write good_ec_read silent sane; simp add: flow_only_def)+
  show ?thesis
    unfolding cs_change_flow_def
  proof (intro seg_if seg_return, simp add: cs_ops.nil, rule seg_thenC [OF guard [OF c]], simp)
    fix x d es assume "cs_frozen k (snd (Inr x :: errno + u8, d)) \<and> ?G es \<and>
      (\<forall>flow. fst (Inr x :: errno + u8, d) = Inr flow \<longrightarrow> last_flow (cs_base k) flow es \<and> (\<forall>x. Some before = Some x \<longrightarrow> flow = x))"
    then have d: "cs_frozen k d" "cs_base d = cs_base k" and es: "?G es" by (auto simp: cs_frozen_def cs_fixed_def)
    show "seg (\<lambda>r' es'. ?G (es @ es') \<and> (\<forall>u. fst r' = Inr u \<longrightarrow> last_flow (cs_base k) wanted (es @ es'))) (do {
        cs_ec_write (cs_base d) CS_FLOW wanted;
        sleep_ms 1;
        actual \<leftarrow> cs_ec_read E (cs_base d) CS_FLOW;
        (if actual \<noteq> wanted then ret (Inl EIO, d)
         else thenC (cs_guard_flow E False (Some wanted) d) (\<lambda>_ c. ret (Inr (), c))) })"
      unfolding d(2)
      by (rule seg_bind [OF calls(1)], rule seg_bind [OF calls(2)], rule seg_bind [OF calls(3)], rule seg_if, rule seg_return,
          simp add: es cs_ops.append, rule seg_thenC [OF guard [OF d(1)]], simp add: es cs_ops.append, rule seg_return)
        (auto simp: es intro!: last_flow_prefix cs_ops.append)
  qed
qed

lemma frozen_fields: "cs_frozen k c \<Longrightarrow> cs_holder c = cs_holder k \<and> cs_restore_pending c = cs_restore_pending k \<and>
    cs_original c = cs_original k \<and> cs_original_flow c = cs_original_flow k"
  by (simp add: cs_frozen_def cs_fixed_def)

lemma keeps_end_identify:
  "cs_frozen k c \<Longrightarrow> keeps (cs_frozen k) (cs_good (cs_base k) (led_ops (permitted k) UNIV)) (cs_end_identify E i c)"
  unfolding cs_end_identify_def
  by (intro cs_ops.keeps_thenC cs_ops.keeps_return keeps_if led.commit) (auto simp: cs_frozen_def cs_fixed_def)

lemma keeps_restore_leds:
  "cs_frozen k c \<Longrightarrow> keeps (cs_frozen k) (cs_good (cs_base k) (led_ops (permitted k) UNIV)) (cs_restore_leds E ids c)"
  by (induction ids arbitrary: c) (auto simp: Let_def intro!: cs_ops.keeps_return cs_ops.keeps_thenC led.commit)

lemma seg_restore_holder:
  assumes c: "cs_frozen c c" "cs_holder c" "cs_restore_pending c" "cs_original_flow c \<le> 1"
  shows "seg (\<lambda>r es. \<forall>u. fst r = Inr u \<longrightarrow> last_flow (cs_base c) (cs_original_flow c) es \<and> baseline_read (cs_base c) (cs_original c) es)
    (cs_restore_holder E c)"
proof -
  let ?b = "cs_base c"
  let ?Q = "\<lambda>r es. \<forall>u. fst r = Inr u \<longrightarrow> last_flow ?b (cs_original_flow c) es \<and> baseline_read ?b (cs_original c) es"
  have autonomous: "seg ?Q (if cs_original_flow d \<noteq> 0 then ret (Inl EBUSY, d)
      else thenC (cs_snapshot_all E 0 d) (\<lambda>actual c. ret (if actual \<noteq> cs_original c then Inl EBUSY else Inr (), c)))"
    if d: "cs_frozen c d" for d
    using frozen_fields [OF d]
    by (intro seg_if seg_return, simp, intro seg_thenC [OF seg_snapshot_all [OF d]] seg_return)
      (auto dest: frozen_fields)
  have one: "cs_original_flow c = 1" if "cs_original_flow c \<noteq> 0"
    using that c(4) by (simp add: word_unat_eq_iff word_le_unat)
  have manual: "seg ?Q (thenC (cs_restore_leds E [0, 1, 2, 3] d) (\<lambda>_ c.
      thenC (cs_snapshot_all E 1 c) (\<lambda>actual c.
        if actual \<noteq> cs_original c then ret (Inl EIO, c)
        else if cs_original_flow c = 0 then cs_change_flow E 1 0 c else ret (Inr (), c))))"
    if d: "cs_frozen c d" for d
  proof (rule seg_thenC [OF keeps_restore_leds [OF d, unfolded keeps_def]], simp, goal_cases)
    case (1 _ e es)
    then have e: "cs_frozen c e" by simp
    show ?case
    proof (rule seg_thenC [OF seg_snapshot_all [OF e]], simp, goal_cases)
      case (1 actual g fs)
      then have g: "cs_frozen c g" "last_flow ?b 1 fs" "baseline_read ?b actual fs" by auto
      then show ?case
        using frozen_fields [OF g(1)] one
        by (intro seg_if seg_return seg_mono [OF seg_change_flow [OF g(1)]])
          (auto intro!: last_flow_prefix intro: baseline_prefix baseline_suffix baseline_prefix [OF baseline_suffix])
    qed
  qed
  have start: "keeps (cs_frozen c) (cs_good ?b (led_ops (permitted c) UNIV))
      (if cs_identify_saved c then cs_end_identify E (cs_identify_id c) c else ret (Inr (), c))"
    using c(1) by (intro keeps_if keeps_end_identify cs_ops.keeps_return)
  have rest: "seg ?Q (thenC (cs_guard_flow E True None d) (\<lambda>flow c.
        thenC (if flow = 0 then
                 (if cs_original_flow c \<noteq> 0 then ret (Inl EBUSY, c)
                  else thenC (cs_snapshot_all E 0 c) (\<lambda>actual c.
                    ret (if actual \<noteq> cs_original c then Inl EBUSY else Inr (), c)))
               else
                 thenC (cs_restore_leds E [0, 1, 2, 3] c) (\<lambda>_ c.
                 thenC (cs_snapshot_all E 1 c) (\<lambda>actual c.
                   if actual \<noteq> cs_original c then ret (Inl EIO, c)
                   else if cs_original_flow c = 0 then cs_change_flow E 1 0 c
                   else ret (Inr (), c)))) (\<lambda>_ c.
          ret (Inr (), c\<lparr>cs_restore_pending := False, cs_identify_saved := False\<rparr>))))" if d: "cs_frozen c d" for d
  proof (rule seg_thenC [OF frozen.guard_flow [OF d, unfolded keeps_def]], simp, goal_cases)
    case (1 flow e es)
    then have e: "cs_frozen c e" by simp
    show ?case
      by (rule seg_thenC [OF seg_if [OF autonomous [OF e] manual [OF e]]], simp, rule seg_return)
        (auto intro!: last_flow_prefix baseline_prefix)
  qed
  show ?thesis
    unfolding cs_restore_holder_def
    by (intro seg_if seg_return seg_bind [OF start [unfolded keeps_def]] seg_case_prod seg_mono [OF rest])
      (use c in \<open>auto intro!: last_flow_prefix baseline_prefix\<close>)
qed

text \<open>
  \<^bold>\<open>C22.\<close>  A holder that closes successfully has given everything back: after its last write to any LED register,
  all 28 bytes were read with the values they had before the holder started, and the last value read from the
  flow register is the original one.
\<close>

theorem cs_holder_restored:
  assumes c: "sane_base (cs_base c)" "cs_runtime_permission c" "cs_holder c" "cs_restore_pending c" "cs_original_flow c \<le> 1"
    and run: "run_state (cs_restore_close E c) h = (Inr (), h')"
  shows "\<exists>es. h' = h @ es \<and> last_flow (cs_base c) (cs_original_flow c) es \<and> baseline_read (cs_base c) (cs_original c) es"
proof -
  have frozen: "cs_frozen c c" using c by (simp add: cs_frozen_def)
  let ?D = "\<lambda>es. last_flow (cs_base c) (cs_original_flow c) es \<and> baseline_read (cs_base c) (cs_original c) es"
  have release: "emits no_port (cs_release_context E d)" for d
    unfolding cs_release_context_def cs_unlock_def calls by (intro emits_intros) (auto simp: no_port_def)
  have suffix: "?D (es @ fs)" if "?D es" "list_all no_port fs" for es fs
  proof -
    have "cs_log b s fs = []" for b s using no_port_log [OF that(2)] by (simp add: cs_log_def)
    then have "cs_log (cs_base c) s (es @ fs) = cs_log (cs_base c) s es" for s
      using cs_log_append [of "cs_base c" s es fs] by auto
    then show ?thesis using that(1) by (simp add: last_flow_def baseline_read_def)
  qed
  have "seg (\<lambda>r es. r = Inr () \<longrightarrow> ?D es) (cs_restore_close E c)"
    unfolding cs_restore_close_def cs_finish_def using c(3)
    by (simp, intro seg_bind [OF seg_restore_holder [OF frozen c(3-5)]] seg_case_prod seg_bind [OF seg_appends [OF release]] seg_return)
      (auto intro: suffix [THEN conjunct1] suffix [THEN conjunct2])
  from segD [OF this run] show ?thesis by blast
qed

section \<open>Examples\<close>

text \<open>A DXP2800 GT whose embedded controller answers \<open>v\<close> for every register.\<close>

definition cs_config :: "u8 \<Rightarrow> u8" where
  "cs_config index =
     (if index = 0x20 then 0x20 else if index = 0x21 then 0x11 else if index = 0x30 then 1 else if index = 0x60 then 0x0a else 0)"

definition example_cs_env :: "u8 \<Rightarrow> env" where
  "example_cs_env v = null_env\<lparr>
     e_inb := (\<lambda>h p. if p = CS_VALUE then (case last h of Outb _ index \<Rightarrow> cs_config index | _ \<Rightarrow> 0) else v),
     e_read := (\<lambda>_ path. if path = ''/sys/class/dmi/id/product_name'' then File_data (''DXP2800 GT'' @ [CHR 0x0A]) None
                         else if path = ''/proc/ioports'' then File_data [] None else Open_failed ENOENT),
     e_sockets := null_sockets\<lparr>e_peer := (\<lambda>_ _. Some (0, 42)), e_poll := (\<lambda>_ _ _ _. Inr True), e_recv := (\<lambda>_ _ _. Inr [])\<rparr>\<rparr>"

definition example_identity :: led_identity where
  "example_identity = led_identity_of (no_identity\<lparr>mi_source := ''dmi'', mi_product_name := ''DXP2800 GT''\<rparr>)"

definition example_cs :: cs201x where
  "example_cs = (cs_fresh \<lparr>la_force = True, la_apply = True, n76_direct = False, n76_bus = 0, n76_address = 0\<rparr> False example_identity)
     \<lparr>cs_base := 0x0a00, cs_runtime_permission := True\<rparr>"

definition example_on :: led_patch where
  "example_on = \<lparr>patch_fields = PATCH_MODE, pv = zero_value\<lparr>mode := LED_MODE_ON\<rparr>\<rparr>"


lemma example_profile: "led_profile_of (no_identity\<lparr>mi_source := ''dmi'', mi_product_name := ''DXP2800 GT''\<rparr>) \<noteq> None"
  by code_simp

lemma example_detect: "fst (run_state (led_detect (example_cs_env v)) h) = Inr example_identity"
proof -
  have "text_of_raw False (''DXP2800 GT'' @ [CHR 0x0A]) = Inr ''DXP2800 GT''" by code_simp
  with example_profile show ?thesis
    unfolding no_identity_def
    by (simp add: led_detect_def identity_read_def identity_read_at_def identity_text_read_def raw_read_def raw_of_read_def
        read_file_def example_cs_env_def dmi_identity_def optional_field_def example_identity_def no_identity_def)
qed

lemma example_owners: "fst (run_state (cs_owners (example_cs_env v) pid base) h) = Inr ()"
  by (simp add: cs_owners_def cs_owner_paths_def cs_exists_def process_owners_except_def calls ioports_free_def example_cs_env_def)

lemma example_probe: "fst (run_state (cs_probe (example_cs_env v)) h) = Inr (0x0a00, 0x2011, 0)"
  by (simp add: cs_probe_def cs_sio_word_def cs_sio_read_def cs_select_def calls example_cs_env_def cs_config_def sane_base_def)

lemma example_machine: "cs_machine example_identity" "same_identity example_identity example_identity"
  by code_simp+


definition ready :: "cs201x \<Rightarrow> cs201x \<Rightarrow> bool" where
  "ready k c \<longleftrightarrow> cs_frozen k c \<and> cs_base c = 0x0a00 \<and> permitted c \<and> cs_identity c = example_identity \<and> cs_client_pid c = 0"

lemma wp_result: "(\<And>h. fst (run_state m h) = x) \<Longrightarrow> (\<And>h'. Q x h') \<Longrightarrow> wp m Q h"
  by (cases "run_state m h") (metis fst_conv prod.case wp_def)

lemma example_ec_read: "fst (run_state (cs_ec_read (example_cs_env v) 0x0a00 reg) h) = v"
  by (simp add: cs_ec_read_def cs_put_address_def calls example_cs_env_def)

lemma example_read_led: "fst (run_state (cs_read_led (example_cs_env v) 0x0a00 i) h) = replicate 7 v"
proof -
  have "fst (run_state (each (\<lambda>f. cs_ec_read (example_cs_env v) 0x0a00 (cs_reg_address i f)) fs) h) = replicate (length fs) v" for fs h
    by (induction fs arbitrary: h) (auto simp: example_ec_read split: prod.split, metis example_ec_read fst_conv, metis fst_conv)
  then show ?thesis by (simp add: cs_read_led_def)
qed

lemma example_guard:
  assumes c: "ready k c" and v: "\<not> 1 < v" "expected = None \<or> expected = Some v"
  shows "wp (cs_guard_flow (example_cs_env v) w expected c) (\<lambda>r _. \<exists>d. r = (Inr v, d) \<and> ready k d) h"
proof -
  have base: "cs_base c = 0x0a00" "cs_runtime_permission c" "cs_identity c = example_identity" "cs_client_pid c = 0"
      "la_apply (cs_access c)" "la_force (cs_access c)" "cs_frozen k c"
    using c by (auto simp: ready_def permitted_def cs_frozen_def cs_fixed_def)
  have "ready k (c\<lparr>cs_confirmed := x, cs_chip_id := y, cs_revision := z, cs_identity := example_identity, cs_confirmed := u, cs_bus := s\<rparr>)" for x y z u s
    using base by (auto simp: ready_def permitted_def intro!: frozen.stable)
  then show ?thesis
    using base v example_machine
    by (auto simp: cs_guard_flow_def Let_def tryC_def thenC_def cs_claim_runtime_def wp_simps
        intro!: wp_result [OF example_detect] wp_result [OF example_owners] wp_result [OF example_probe] wp_result [OF example_ec_read])
qed

lemma example_snapshot:
  assumes "ready k c" "i < 4"
  shows "wp (cs_snapshot (example_cs_env 1) i c) (\<lambda>r _. \<exists>d. r = (Inr (replicate 7 1), d) \<and> ready k d) h"
proof -
  have valid: "cs_valid_raw (replicate 7 1)" by code_simp
  have base: "ready k d \<Longrightarrow> cs_base d = 0x0a00" for d by (simp add: ready_def)
  show ?thesis
    using assms(2) unfolding cs_snapshot_def cs_guard_def thenC_def
    by (auto simp: wp_simps base valid intro!: wp_mono [OF example_guard] assms(1) wp_result [OF example_read_led])
qed

theorem cs_writes_confined_witness:
  "\<exists>es. snd (run_state (cs_apply (example_cs_env 1) 0 example_on example_cs) []) = [] @ es \<and>
     (\<forall>s. list_all (led_ops True {0}) (cs_log 0x0a00 s es))"
proof -
  have "sane_base (cs_base example_cs)" "cs_runtime_permission example_cs" "cs_base example_cs = 0x0a00"
      "la_force (cs_access example_cs)" "la_apply (cs_access example_cs)"
    by (simp_all add: example_cs_def cs_fresh_def sane_base_def)
  with cs_writes_confined [OF this(1,2), of "example_cs_env 1" 0 example_on "[]"] show ?thesis by simp
qed

lemma cs_example_ready: "ready example_cs example_cs"
  by (simp add: ready_def cs_frozen_def permitted_def example_cs_def cs_fresh_def sane_base_def)

theorem cs_apply_confirmed_witness:
  "\<exists>c' h'. run_state (cs_apply (example_cs_env 1) 0 example_on example_cs) [] = ((Inr (cs_decode (replicate 7 1)), c'), h') \<and>
     (\<exists>es raw. h' = [] @ es \<and> length raw = 7 \<and> last_read 0x0a00 0 raw es \<and> cs_decode (replicate 7 1) = cs_decode raw \<and>
        cs_meets example_on (cs_decode (replicate 7 1)))"
proof -
  have valid: "cs_validate_patch example_on = None" "cs_patched example_on (replicate 7 1) = replicate 7 1" "cs_valid_raw (replicate 7 1)"
    by code_simp+
  have commit: "wp (cs_commit (example_cs_env 1) 0 (replicate 7 1) (replicate 7 1) False c) (\<lambda>r _. \<exists>d. r = (Inr (), d)) h"
    if "ready example_cs c" for c h
    unfolding cs_commit_def thenC_def
    by (auto simp: wp_simps nth_replicate intro!: wp_mono [OF example_snapshot [OF that]])
  have saved: "\<not> cs_identify_saved example_cs" by (simp add: example_cs_def cs_fresh_def)
  have "wp (cs_apply (example_cs_env 1) 0 example_on example_cs) (\<lambda>r _. \<exists>d. r = (Inr (cs_decode (replicate 7 1)), d)) []"
    unfolding cs_apply_def Let_def thenC_def cs_guard_def
    by (auto simp: wp_simps valid saved intro!: wp_mono [OF example_guard [OF cs_example_ready]] wp_mono [OF example_snapshot] wp_mono [OF commit])
  then obtain c' h' where run: "run_state (cs_apply (example_cs_env 1) 0 example_on example_cs) [] = ((Inr (cs_decode (replicate 7 1)), c'), h')"
    by (auto simp: wp_def split: prod.splits)
  have "sane_base (cs_base example_cs)" "cs_runtime_permission example_cs" "cs_base example_cs = 0x0a00"
    by (simp_all add: example_cs_def cs_fresh_def sane_base_def)
  with cs_apply_confirmed [OF this(1,2) run] run show ?thesis by auto
qed

definition example_holder :: cs201x where
  "example_holder = example_cs\<lparr>cs_holder := True, cs_restore_pending := True, cs_original := replicate 4 (replicate 7 0)\<rparr>"

theorem cs_holder_restored_witness:
  "\<exists>h'. run_state (cs_restore_close (example_cs_env 0) example_holder) [] = (Inr (), h') \<and>
     last_flow 0x0a00 0 h' \<and> baseline_read 0x0a00 (replicate 4 (replicate 7 0)) h'"
proof -
  have valid: "cs_valid_raw [0, 0, 0, 0, 0, 0, 0]" by code_simp
  have base: "ready k d \<Longrightarrow> cs_base d = 0x0a00" for k d by (simp add: ready_def)
  have all: "wp (cs_snapshot_all (example_cs_env 0) 0 c) (\<lambda>r _. \<exists>d. r = (Inr (replicate 4 (replicate 7 0)), d) \<and> ready k d) h"
    if "ready k c" for k c h
    unfolding cs_snapshot_all_def thenC_def
    by (auto simp: wp_simps base valid numeral_eq_Suc intro!: wp_mono [OF example_guard] that wp_result [OF example_read_led])
  have ready: "ready example_holder example_holder"
    by (simp add: ready_def cs_frozen_def permitted_def example_holder_def example_cs_def cs_fresh_def sane_base_def)
  have kept: "ready example_holder d \<Longrightarrow> cs_original d = replicate 4 (replicate 7 0) \<and> cs_original_flow d = 0" for d
    by (simp add: ready_def cs_frozen_def cs_fixed_def example_holder_def example_cs_def cs_fresh_def)
  have fields: "cs_holder example_holder" "cs_restore_pending example_holder" "\<not> cs_identify_saved example_holder"
      "sane_base (cs_base example_holder)" "cs_runtime_permission example_holder" "cs_original_flow example_holder = 0"
      "cs_base example_holder = 0x0a00" "cs_original example_holder = replicate 4 (replicate 7 0)"
    by (simp_all add: example_holder_def example_cs_def cs_fresh_def sane_base_def)
  have "wp (cs_restore_holder (example_cs_env 0) example_holder) (\<lambda>r _. \<exists>d. r = (Inr (), d)) []"
    unfolding cs_restore_holder_def thenC_def
    by (auto simp: wp_simps fields kept intro!: wp_mono [OF example_guard [OF ready]] wp_mono [OF all])
  then have "wp (cs_restore_close (example_cs_env 0) example_holder) (\<lambda>r _. r = Inr ()) []"
    unfolding cs_restore_close_def cs_finish_def using fields by (auto simp: wp_simps elim!: wp_mono)
  then obtain h' where run: "run_state (cs_restore_close (example_cs_env 0) example_holder) [] = (Inr (), h')"
    by (auto simp: wp_def split: prod.splits)
  have "cs_original_flow example_holder \<le> 1" by (simp add: fields)
  from cs_holder_restored [OF fields(4,5,1,2) this run] run show ?thesis by (auto simp: fields)
qed

end
