(* ===== verification/Led_Sysfs.thy ===== *)
theory Led_Sysfs
  imports Led_Identity
begin

text \<open>
  The LED back end for kernel drivers (\<^verbatim>\<open>led/led_sysfs.c\<close>): LEDs of the class \<^verbatim>\<open>/sys/class/leds\<close>
  whose driver binding is checked before every access.  After opening, the context is constant: the
  profile, the resolved root and one resolved directory per LED.  \<open>auth\<close> is the caller's authorization
  callback; a file is read by one \<^verbatim>\<open>read\<close> call.
\<close>

section \<open>Files\<close>

definition sysfs_text_of :: "nat \<Rightarrow> file_read \<Rightarrow> errno + string" where
  "sysfs_text_of capacity r =
     (case r of Open_failed e \<Rightarrow> Inl e
      | File_data s (Some e) \<Rightarrow> Inl e
      | File_data s None \<Rightarrow> if length s \<ge> capacity - 1 then Inl EOVERFLOW else Inr (c_str (rstrip isspace s)))"

definition sysfs_read_text :: "env \<Rightarrow> string \<Rightarrow> nat \<Rightarrow> (errno + string) io" where
  "sysfs_read_text E path capacity = do { r \<leftarrow> read_file E path; ret (sysfs_text_of capacity r) }"

definition sysfs_number_of :: "string \<Rightarrow> errno + u32" where
  "sysfs_number_of text =
     (if text = [] \<or> \<not> isdigit (hd text) then Inl EBADMSG
      else let (n, rest, range) = strtoul10 text in
        if range \<or> rest \<noteq> [] \<or> n > 0xffffffff then Inl EBADMSG else Inr (ucast n))"

definition sysfs_read_number :: "env \<Rightarrow> string \<Rightarrow> (errno + u32) io" where
  "sysfs_read_number E path = bindE (sysfs_read_text E path 64) (\<lambda>text. ret (sysfs_number_of text))"

definition sysfs_write_text :: "env \<Rightarrow> string \<Rightarrow> string \<Rightarrow> (errno + unit) io" where
  "sysfs_write_text E path value = do {
     r \<leftarrow> write_file E path value;
     ret (case r of Wopen_failed e \<Rightarrow> Inl e | Write_failed e \<Rightarrow> Inl e
          | Written n \<Rightarrow> if n = length value then Inr () else Inl EIO) }"

definition underscored :: "char \<Rightarrow> char" where
  "underscored c = (if c = CHR ''-'' then CHR ''_'' else c)"

definition module_matches :: "string \<Rightarrow> string option \<Rightarrow> bool" where
  "module_matches actual expected \<longleftrightarrow>
     (case expected of None \<Rightarrow> False | Some e \<Rightarrow> map underscored actual = map underscored e)"

section \<open>Targets\<close>

record led_sysfs =
  sy_profile :: led_profile
  sy_root :: string
  sy_directory :: "string list"

definition target_index :: "led_profile \<Rightarrow> u8 \<Rightarrow> nat option" where
  "target_index p i = find (\<lambda>k. ld_id (leds p ! k) = i) [0..<length (leds p)]"

definition driver_bound :: "env \<Rightarrow> led_sysfs \<Rightarrow> string \<Rightarrow> bool io" where
  "driver_bound E x resolved = do {
     m \<leftarrow> realpath E (clipped (resolved @ ''/device/driver/module''));
     (case m of
        Inr binding \<Rightarrow>
          ret (starts_with (clipped (sy_root x @ ''/module/'')) binding \<and>
               module_matches (process_basename binding) (sysfs_driver (sy_profile x)))
      | Inl e \<Rightarrow>
          if e \<noteq> ENOENT \<or> protocol (sy_profile x) \<noteq> ''sysfs-gpio'' then ret False
          else do {
            d \<leftarrow> realpath E (clipped (resolved @ ''/device/driver''));
            ret (case d of Inl _ \<Rightarrow> False
                 | Inr binding \<Rightarrow> module_matches (process_basename binding) (sysfs_driver (sy_profile x))) }) }"

definition brightness_range_ok :: "led_profile \<Rightarrow> led_descriptor \<Rightarrow> u32 \<Rightarrow> bool" where
  "brightness_range_ok p t maximum \<longleftrightarrow>
     (if protocol p = ''sysfs-gpio'' then maximum = 1 \<or> maximum = 255
      else if product_name p = ''DH2600'' then maximum = 254 else maximum = max_brightness t)"

text \<open>\<^verbatim>\<open>verify_target\<close> returns the resolved directory; \<^verbatim>\<open>open\<close> stores it.  An empty \<open>sysfs_name\<close> is \<^verbatim>\<open>NULL\<close>.\<close>

definition verify_target :: "env \<Rightarrow> led_sysfs \<Rightarrow> nat \<Rightarrow> (errno + string) io" where
  "verify_target E x index =
     (let t = leds (sy_profile x) ! index; link = sy_root x @ ''/class/leds/'' @ sysfs_name t in
      if sysfs_name t = [] \<or> CHR ''/'' \<in> set (sysfs_name t) then fail EINVAL
      else if length link \<ge> PATH_MAX then fail ENOTSUP
      else do {
        r \<leftarrow> realpath E link;
        (case r of Inl _ \<Rightarrow> fail ENOTSUP
         | Inr resolved \<Rightarrow>
             if \<not> starts_with (sy_root x) resolved \<or> \<not> starts_with ''/devices/'' (drop (length (sy_root x)) resolved)
             then fail EPERM
             else if sy_directory x ! index \<noteq> [] \<and> sy_directory x ! index \<noteq> resolved then fail EBUSY
             else do {
               bound \<leftarrow> driver_bound E x resolved;
               (if \<not> bound then fail ENOTSUP
                else do {
                  m \<leftarrow> sysfs_read_number E (clipped (resolved @ ''/max_brightness''));
                  (case m of Inl _ \<Rightarrow> fail ENOTSUP
                   | Inr maximum \<Rightarrow>
                       if \<not> brightness_range_ok (sy_profile x) t maximum then fail ENOTSUP else ok resolved) }) }) })"

fun open_targets :: "env \<Rightarrow> led_sysfs \<Rightarrow> nat list \<Rightarrow> (errno + led_sysfs) io" where
  "open_targets E x [] = ok x"
| "open_targets E x (i # ids) =
     bindE (verify_target E x i) (\<lambda>d. open_targets E (x\<lparr>sy_directory := (sy_directory x)[i := d]\<rparr>) ids)"

definition sysfs_open :: "env \<Rightarrow> led_profile \<Rightarrow> string \<Rightarrow> (errno + led_sysfs) io" where
  "sysfs_open E p root =
     (if sysfs_driver p = None \<or> leds p = [] \<or> length (leds p) > UGREENCTL_MAX_LEDS then fail EINVAL
      else bindE (realpath E root) (\<lambda>root.
        open_targets E \<lparr>sy_profile = p, sy_root = root, sy_directory = replicate (length (leds p)) []\<rparr> [0..<length (leds p)]))"

fun targets_confirmed :: "env \<Rightarrow> led_sysfs \<Rightarrow> nat list \<Rightarrow> bool io" where
  "targets_confirmed E x [] = ret True"
| "targets_confirmed E x (i # ids) = do {
     r \<leftarrow> verify_target E x i;
     (case r of Inl _ \<Rightarrow> ret False | Inr _ \<Rightarrow> targets_confirmed E x ids) }"

definition sysfs_identity_confirmed :: "env \<Rightarrow> led_sysfs \<Rightarrow> bool io" where
  "sysfs_identity_confirmed E x = targets_confirmed E x [0..<length (leds (sy_profile x))]"

section \<open>Reading\<close>

definition attribute_path :: "led_sysfs \<Rightarrow> nat \<Rightarrow> string \<Rightarrow> string" where
  "attribute_path x index name = clipped (sy_directory x ! index @ ''/'' @ name)"

text \<open>The active trigger: between brackets, or the whole text; \<open>None\<close> for an unclosed bracket.\<close>

definition active_trigger :: "string \<Rightarrow> string option" where
  "active_trigger text =
     (case strchr (CHR ''['') text of None \<Rightarrow> Some text
      | Some (_, rest) \<Rightarrow> map_option fst (strchr (CHR '']'') rest))"

definition after_text :: "string \<Rightarrow> string \<Rightarrow> string option" where
  "after_text p s = map_option (drop (length p)) (find (starts_with p) (map (\<lambda>k. drop k s) [0..<length s]))"

text \<open>The selected palette entry of a GPIO driver's \<^verbatim>\<open>state\<close> text.\<close>

definition gpio_selected :: "string \<Rightarrow> u64 option" where
  "gpio_selected state =
     (case after_text '',color:'' state of None \<Rightarrow> None
      | Some digits \<Rightarrow>
          (let (n, rest, _) = strtoul10 digits in
           if take 1 rest \<noteq> '','' \<or> n < 1 \<or> n > 5 then None else Some n))"

definition gpio_color :: "led_profile \<Rightarrow> u64 \<Rightarrow> u32" where
  "gpio_color p selected =
     (if selected = 1 then LED_COLOR_WHITE
      else if product_name p = ''DH2300'' then LED_COLOR_ORANGE else LED_COLOR_RED)"

definition color_of_text :: "env \<Rightarrow> led_profile \<Rightarrow> string \<Rightarrow> string \<Rightarrow> (u32 option) io" where
  "color_of_text E p path text =
     (if protocol p = ''sysfs-gpio'' then
        ret (case after_text '',color:'' text of None \<Rightarrow> None
             | Some digits \<Rightarrow>
                 if digits = [] \<or> \<not> isdigit (hd digits) then None else map_option (gpio_color p) (gpio_selected text))
      else if text = ''white'' then ret (Some LED_COLOR_WHITE)
      else if text = ''orange'' then ret (Some LED_COLOR_ORANGE)
      else if text = ''white + orange'' then ret (Some LED_COLOR_WHITE_ORANGE)
      else if text = ''None'' \<or> text = ''none'' then ret (Some LED_COLOR_NONE)
      else do {
        n \<leftarrow> sysfs_read_number E path;
        ret (case n of Inl _ \<Rightarrow> None | Inr n \<Rightarrow> if n \<le> 3 then Some n else None) })"

definition read_color :: "env \<Rightarrow> led_sysfs \<Rightarrow> nat \<Rightarrow> led_value \<Rightarrow> led_value io" where
  "read_color E x index v = do {
     let path = attribute_path x index (if protocol (sy_profile x) = ''sysfs-gpio'' then ''state'' else ''color'');
     text \<leftarrow> sysfs_read_text E path 128;
     (case text of Inl _ \<Rightarrow> ret v
      | Inr text \<Rightarrow> do {
          c \<leftarrow> color_of_text E (sy_profile x) path text;
          ret (case c of None \<Rightarrow> v
               | Some c \<Rightarrow> v\<lparr>color := c, unknown_fields := unknown_fields v AND NOT PATCH_COLOR,
                             cached_fields := cached_fields v OR PATCH_COLOR\<rparr>) }) }"

definition read_timing :: "env \<Rightarrow> led_sysfs \<Rightarrow> nat \<Rightarrow> led_value \<Rightarrow> led_value io" where
  "read_timing E x index v = do {
     on \<leftarrow> sysfs_read_number E (attribute_path x index ''delay_on'');
     (case on of Inl _ \<Rightarrow> ret v
      | Inr on \<Rightarrow> do {
          off \<leftarrow> sysfs_read_number E (attribute_path x index ''delay_off'');
          ret (case off of Inl _ \<Rightarrow> v\<lparr>on_ms := on\<rparr>
               | Inr off \<Rightarrow> v\<lparr>on_ms := on, off_ms := off, unknown_fields := unknown_fields v AND NOT PATCH_TIMING,
                              cached_fields := cached_fields v OR PATCH_TIMING\<rparr>) }) }"

definition mode_of_trigger :: "string \<Rightarrow> u32 \<Rightarrow> u32 option" where
  "mode_of_trigger active core_brightness =
     (if active \<in> {''none'', ''normal''} then Some (if core_brightness \<noteq> 0 then LED_MODE_ON else LED_MODE_OFF)
      else if active \<in> {''timer'', ''timer2''} then Some LED_MODE_BLINK
      else if active = ''breath'' then Some LED_MODE_BREATH else None)"

text \<open>The N76 driver keeps the configured intensity in an attribute of its own.\<close>

definition read_brightness :: "env \<Rightarrow> led_sysfs \<Rightarrow> nat \<Rightarrow> u32 \<Rightarrow> (errno + u32) io" where
  "read_brightness E x index core =
     (if protocol (sy_profile x) = ''sysfs-n76'' \<and> max_brightness (leds (sy_profile x) ! index) > 1
      then bindE (sysfs_read_number E (attribute_path x index ''rbrightness'')) (\<lambda>b.
        if b > 255 then fail EBADMSG else ok b)
      else ok core)"

definition sysfs_read :: "env \<Rightarrow> led_sysfs \<Rightarrow> u8 \<Rightarrow> (errno + led_value) io" where
  "sysfs_read E x i =
     (case target_index (sy_profile x) i of None \<Rightarrow> fail EINVAL
      | Some index \<Rightarrow>
          bindE (verify_target E x index) (\<lambda>_.
          bindE (sysfs_read_number E (attribute_path x index ''brightness'')) (\<lambda>b.
            let core = (if max_brightness (leds (sy_profile x) ! index) = 1 then (if b \<noteq> 0 then 1 else 0) else b) in
          bindE (read_brightness E x index core) (\<lambda>b.
          bindE (sysfs_read_text E (attribute_path x index ''trigger'') 1024) (\<lambda>trigger.
            case active_trigger trigger of None \<Rightarrow> fail EBADMSG
            | Some active \<Rightarrow> do {
                let unknown = PATCH_RGB OR PATCH_COLOR OR PATCH_TIMING;
                let v = zero_value\<lparr>brightness := b, cached_fields := PATCH_MODE OR PATCH_BRIGHTNESS,
                      mode := (case mode_of_trigger active core of Some m \<Rightarrow> m | None \<Rightarrow> 0),
                      unknown_fields := (if mode_of_trigger active core = None then unknown OR PATCH_MODE else unknown)\<rparr>;
                v \<leftarrow> read_color E x index v;
                v \<leftarrow> read_timing E x index v;
                ok v })))))"

section \<open>Writing\<close>

definition led_attribute :: "(errno + unit) io \<Rightarrow> env \<Rightarrow> led_sysfs \<Rightarrow> nat \<Rightarrow> string \<Rightarrow> string \<Rightarrow> (errno + unit) io" where
  "led_attribute auth E x index name text =
     bindE auth (\<lambda>_.
     bindE (verify_target E x index) (\<lambda>_.
       let path = sy_directory x ! index @ ''/'' @ name in
       if length path \<ge> PATH_MAX then fail ENAMETOOLONG else sysfs_write_text E path text))"

definition number_attribute :: "(errno + unit) io \<Rightarrow> env \<Rightarrow> led_sysfs \<Rightarrow> nat \<Rightarrow> string \<Rightarrow> u32 \<Rightarrow> (errno + unit) io" where
  "number_attribute auth E x index name value = led_attribute auth E x index name (dec (unat value))"

fun poll_brightness :: "env \<Rightarrow> string \<Rightarrow> u32 \<Rightarrow> nat \<Rightarrow> (errno + unit) io" where
  "poll_brightness E path expected 0 = fail EIO"
| "poll_brightness E path expected (Suc n) =
     bindE (sysfs_read_number E path) (\<lambda>actual.
       if actual = expected then ok ()
       else if n \<noteq> 0 then do { sleep_ms 5; poll_brightness E path expected n }
       else poll_brightness E path expected n)"

definition wait_configured_brightness :: "env \<Rightarrow> led_sysfs \<Rightarrow> nat \<Rightarrow> u32 \<Rightarrow> (errno + unit) io" where
  "wait_configured_brightness E x index expected =
     (if protocol (sy_profile x) \<noteq> ''sysfs-n76'' \<or> max_brightness (leds (sy_profile x) ! index) = 1 then ok ()
      else poll_brightness E (attribute_path x index ''rbrightness'') expected 21)"

text \<open>The words of the trigger list, with the brackets of the active one removed.\<close>

fun words_of :: "string \<Rightarrow> string \<Rightarrow> string list" where
  "words_of word [] = [word]"
| "words_of word (c # s) = (if isspace c then word # words_of [] s else words_of (word @ [c]) s)"

definition unbracketed :: "string \<Rightarrow> string" where
  "unbracketed w = (if length w \<ge> 2 \<and> hd w = CHR ''['' \<and> last w = CHR '']'' then butlast (tl w) else w)"

definition trigger_available :: "string \<Rightarrow> string \<Rightarrow> bool" where
  "trigger_available triggers required \<longleftrightarrow> list_ex (\<lambda>w. w \<noteq> [] \<and> unbracketed w = required) (words_of [] triggers)"

definition required_trigger :: "u32 \<Rightarrow> string" where
  "required_trigger m = (if m \<le> LED_MODE_ON then ''normal'' else if m = LED_MODE_BLINK then ''timer'' else ''breath'')"

definition sysfs_preflight :: "env \<Rightarrow> led_sysfs \<Rightarrow> u8 \<Rightarrow> led_value \<Rightarrow> led_patch \<Rightarrow> (errno + unit) io" where
  "sysfs_preflight E x i before p =
     (case target_index (sy_profile x) i of None \<Rightarrow> fail EINVAL
      | Some index \<Rightarrow>
          (case led_validate_state_patch (sy_profile x) (Some (leds (sy_profile x) ! index)) before p of
             Some e \<Rightarrow> fail e
           | None \<Rightarrow>
               bindE (verify_target E x index) (\<lambda>_.
                 if protocol (sy_profile x) \<noteq> ''sysfs-n76'' then ok ()
                 else
                   bindE (sysfs_read_text E (attribute_path x index ''trigger'') 1024) (\<lambda>triggers.
                     if trigger_available triggers (required_trigger (if has p PATCH_MODE then mode (pv p) else mode before))
                     then ok () else fail ENOTSUP))))"

definition write_color :: "(errno + unit) io \<Rightarrow> env \<Rightarrow> led_sysfs \<Rightarrow> nat \<Rightarrow> led_patch \<Rightarrow> (errno + unit) io" where
  "write_color auth E x index p =
     (if \<not> has p PATCH_COLOR then ok ()
      else number_attribute auth E x index ''color''
             (if protocol (sy_profile x) = ''sysfs-gpio''
              then (if color (pv p) = LED_COLOR_CHANNEL1 \<or> color (pv p) = LED_COLOR_WHITE then 1 else 2)
              else color (pv p)))"

definition write_brightness :: "(errno + unit) io \<Rightarrow> env \<Rightarrow> led_sysfs \<Rightarrow> nat \<Rightarrow> led_patch \<Rightarrow> (errno + unit) io" where
  "write_brightness auth E x index p =
     (if \<not> has p PATCH_BRIGHTNESS then ok ()
      else bindE (number_attribute auth E x index ''brightness'' (brightness (pv p))) (\<lambda>_.
        wait_configured_brightness E x index (brightness (pv p))))"

definition trigger_name :: "led_profile \<Rightarrow> u32 \<Rightarrow> string" where
  "trigger_name p m =
     (if m = LED_MODE_BLINK then ''timer'' else if m = LED_MODE_BREATH then ''breath''
      else if protocol p = ''sysfs-n76'' then ''normal'' else ''none'')"

definition write_trigger :: "(errno + unit) io \<Rightarrow> env \<Rightarrow> led_sysfs \<Rightarrow> nat \<Rightarrow> led_value \<Rightarrow> led_patch \<Rightarrow> (errno + unit) io" where
  "write_trigger auth E x index before p =
     (let trigger = trigger_name (sy_profile x) (mode (pv p));
          selected = (if has p PATCH_COLOR then color (pv p) else color before);
          combined = (trigger = ''normal'' \<and> selected \<noteq> LED_COLOR_WHITE \<and> selected \<noteq> LED_COLOR_ORANGE) in
      if protocol (sy_profile x) = ''sysfs-n76'' then
        bindE (if combined then number_attribute auth E x index ''color'' 1 else ok ()) (\<lambda>_.
        bindE (led_attribute auth E x index ''trigger'' ''none'') (\<lambda>_.
        bindE (led_attribute auth E x index ''trigger'' trigger) (\<lambda>_.
          if combined then number_attribute auth E x index ''color'' selected else ok ())))
      else led_attribute auth E x index ''trigger'' trigger)"

definition steady_brightness :: "led_sysfs \<Rightarrow> nat \<Rightarrow> led_value \<Rightarrow> led_patch \<Rightarrow> u32" where
  "steady_brightness x index before p =
     (if protocol (sy_profile x) = ''sysfs-n76'' \<and> mode (pv p) = LED_MODE_ON then 1
      else if mode (pv p) = LED_MODE_OFF then 0
      else if has p PATCH_BRIGHTNESS then brightness (pv p)
      else if brightness before \<noteq> 0 then brightness before else max_brightness (leds (sy_profile x) ! index))"

definition write_mode :: "(errno + unit) io \<Rightarrow> env \<Rightarrow> led_sysfs \<Rightarrow> nat \<Rightarrow> led_value \<Rightarrow> led_patch \<Rightarrow> (errno + unit) io" where
  "write_mode auth E x index before p =
     (if \<not> has p PATCH_MODE then ok ()
      else bindE (write_trigger auth E x index before p) (\<lambda>_.
        if mode (pv p) = LED_MODE_OFF \<or> mode (pv p) = LED_MODE_ON
        then number_attribute auth E x index ''brightness'' (steady_brightness x index before p)
        else bindE (number_attribute auth E x index ''delay_on'' (on_ms (pv p))) (\<lambda>_.
             number_attribute auth E x index ''delay_off'' (off_ms (pv p)))))"

text \<open>Up to 21 reads until the requested brightness is visible.\<close>

fun settled_read :: "env \<Rightarrow> led_sysfs \<Rightarrow> u8 \<Rightarrow> led_patch \<Rightarrow> nat \<Rightarrow> (errno + led_value) io" where
  "settled_read E x i p 0 = sysfs_read E x i"
| "settled_read E x i p (Suc n) =
     bindE (sysfs_read E x i) (\<lambda>after.
       if \<not> has p PATCH_BRIGHTNESS \<or> brightness after = brightness (pv p) then ok after
       else do { sleep_ms 5; settled_read E x i p n })"

definition color_meets :: "u32 \<Rightarrow> u32 \<Rightarrow> bool" where
  "color_meets wanted actual \<longleftrightarrow>
     actual = wanted \<or> wanted = LED_COLOR_CHANNEL1 \<and> actual = LED_COLOR_WHITE \<or>
     wanted = LED_COLOR_CHANNEL2 \<and> (actual = LED_COLOR_ORANGE \<or> actual = LED_COLOR_RED)"

definition sysfs_meets :: "led_patch \<Rightarrow> led_value \<Rightarrow> bool" where
  "sysfs_meets p v \<longleftrightarrow>
     unknown_fields v AND patch_fields p = 0 \<and>
     (has p PATCH_COLOR \<longrightarrow> color_meets (color (pv p)) (color v)) \<and>
     (has p PATCH_BRIGHTNESS \<longrightarrow> brightness v = brightness (pv p)) \<and>
     (has p PATCH_MODE \<longrightarrow> mode v = mode (pv p)) \<and>
     (has p PATCH_TIMING \<longrightarrow> on_ms v = on_ms (pv p) \<and> off_ms v = off_ms (pv p))"

definition effective_patch :: "led_profile \<Rightarrow> led_value \<Rightarrow> led_patch \<Rightarrow> led_patch" where
  "effective_patch pr before p =
     (if protocol pr = ''sysfs-n76'' \<and> \<not> has p PATCH_MODE
      then p\<lparr>patch_fields := patch_fields p OR PATCH_MODE, pv := (pv p)\<lparr>mode := mode before\<rparr>\<rparr> else p)"

definition sysfs_apply :: "(errno + unit) io \<Rightarrow> env \<Rightarrow> led_sysfs \<Rightarrow> u8 \<Rightarrow> led_patch \<Rightarrow> (errno + led_value) io" where
  "sysfs_apply auth E x i p =
     (case target_index (sy_profile x) i of None \<Rightarrow> fail EINVAL
      | Some index \<Rightarrow>
          (case led_validate_target_patch (Some (leds (sy_profile x) ! index)) p of Some e \<Rightarrow> fail e
           | None \<Rightarrow>
               if protocol (sy_profile x) = ''sysfs-gpio'' \<and> has p PATCH_MODE \<and> has p PATCH_BRIGHTNESS \<and>
                  (mode (pv p) = LED_MODE_ON \<and> brightness (pv p) = 0 \<or> mode (pv p) = LED_MODE_OFF \<and> brightness (pv p) \<noteq> 0)
               then fail ENOTSUP
               else
                 bindE (sysfs_read E x i) (\<lambda>before.
                 bindE (sysfs_preflight E x i before p) (\<lambda>_.
                   let p = effective_patch (sy_profile x) before p in
                 bindE (write_color auth E x index p) (\<lambda>_.
                 bindE (write_brightness auth E x index p) (\<lambda>_.
                 bindE (write_mode auth E x index before p) (\<lambda>_.
                 bindE (settled_read E x i p 20) (\<lambda>after.
                   if sysfs_meets p after then ok after else fail EIO))))))))"


section \<open>Identification\<close>

text \<open>Here an unclosed bracket is tolerated.\<close>

definition saved_trigger :: "string \<Rightarrow> string" where
  "saved_trigger text =
     (let active = (case strchr (CHR ''['') text of None \<Rightarrow> text | Some (_, rest) \<Rightarrow> rest) in
      case strchr (CHR '']'') active of None \<Rightarrow> active | Some (name, _) \<Rightarrow> name)"

definition restorable_triggers :: "string set" where
  "restorable_triggers = {''none'', ''normal'', ''timer'', ''timer2'', ''breath''}"

definition PATCH_SHOWN :: u32 where
  "PATCH_SHOWN = PATCH_MODE OR PATCH_COLOR OR PATCH_BRIGHTNESS"

definition flash_patch :: "led_descriptor \<Rightarrow> nat \<Rightarrow> led_patch" where
  "flash_patch t tick =
     (if even tick
      then \<lparr>patch_fields = PATCH_SHOWN, pv = zero_value\<lparr>mode := LED_MODE_ON, color := LED_COLOR_WHITE, brightness := max_brightness t\<rparr>\<rparr>
      else \<lparr>patch_fields = PATCH_MODE, pv = zero_value\<lparr>mode := LED_MODE_OFF, color := LED_COLOR_WHITE, brightness := max_brightness t\<rparr>\<rparr>)"

text \<open>The quarter-second flashes, until an error or cancellation.\<close>

fun flash :: "(errno + unit) io \<Rightarrow> (errno + unit) io \<Rightarrow> env \<Rightarrow> led_sysfs \<Rightarrow> u8 \<Rightarrow> led_descriptor \<Rightarrow> nat list \<Rightarrow> (errno + unit) io" where
  "flash auth authorize E x i t [] = ok ()"
| "flash auth authorize E x i t (tick # ticks) =
     bindE authorize (\<lambda>_.
     bindE (sysfs_apply auth E x i (flash_patch t tick)) (\<lambda>_. do {
       stop \<leftarrow> poll_cancelled E;
       (if stop then ok () else do { sleep_ms 250; flash auth authorize E x i t ticks }) }))"

text \<open>The palette number to write back: the saved colour, or the number in a GPIO driver's \<^verbatim>\<open>state\<close>.\<close>

definition saved_color :: "env \<Rightarrow> led_sysfs \<Rightarrow> nat \<Rightarrow> led_value \<Rightarrow> (errno + u32) io" where
  "saved_color E x index saved =
     (if protocol (sy_profile x) \<noteq> ''sysfs-gpio'' then ok (color saved)
      else do {
        state \<leftarrow> sysfs_read_text E (attribute_path x index ''state'') 256;
        ret (case state of Inl _ \<Rightarrow> Inl EBADMSG
             | Inr state \<Rightarrow> (case gpio_selected state of None \<Rightarrow> Inl EBADMSG | Some n \<Rightarrow> Inr (ucast n))) })"

definition restore_driver ::
  "(errno + unit) io \<Rightarrow> (errno + unit) io \<Rightarrow> env \<Rightarrow> led_sysfs \<Rightarrow> u8 \<Rightarrow> nat \<Rightarrow> led_value \<Rightarrow> string \<Rightarrow> u32 \<Rightarrow> u32 \<Rightarrow> (errno + led_value) io" where
  "restore_driver auth authorize E x i index saved trigger bright palette =
     (let n76 = (protocol (sy_profile x) = ''sysfs-n76'') in
      bindE authorize (\<lambda>_.
      bindE (led_attribute auth E x index ''trigger'' ''none'') (\<lambda>_.
      bindE (number_attribute auth E x index ''color'' palette) (\<lambda>_.
      bindE (if n76 \<and> max_brightness (leds (sy_profile x) ! index) > 1 \<and> brightness saved \<ge> 2
             then number_attribute auth E x index ''brightness'' (brightness saved) else ok ()) (\<lambda>_.
      bindE (if n76 then wait_configured_brightness E x index (brightness saved) else ok ()) (\<lambda>_.
      bindE (number_attribute auth E x index ''brightness'' bright) (\<lambda>_.
      bindE (led_attribute auth E x index ''trigger'' trigger) (\<lambda>_.
      bindE (if mode saved = LED_MODE_BLINK
             then bindE (number_attribute auth E x index ''delay_on'' (on_ms saved)) (\<lambda>_.
                  number_attribute auth E x index ''delay_off'' (off_ms saved))
             else ok ()) (\<lambda>_.
        sysfs_read E x i)))))))))"

definition same_driver_state :: "led_value \<Rightarrow> led_value \<Rightarrow> bool" where
  "same_driver_state saved current \<longleftrightarrow>
     unknown_fields current AND PATCH_SHOWN = 0 \<and>
     (mode saved = LED_MODE_BLINK \<longrightarrow> unknown_fields current AND PATCH_TIMING = 0) \<and>
     mode current = mode saved \<and> brightness current = brightness saved \<and> color current = color saved \<and>
     (mode saved = LED_MODE_BLINK \<longrightarrow> on_ms current = on_ms saved \<and> off_ms current = off_ms saved)"

definition sysfs_identify ::
  "(errno + unit) io \<Rightarrow> (errno + unit) io \<Rightarrow> env \<Rightarrow> led_sysfs \<Rightarrow> u8 \<Rightarrow> u32 \<Rightarrow> (errno + unit) io" where
  "sysfs_identify auth authorize E x i seconds =
     (case target_index (sy_profile x) i of None \<Rightarrow> fail EINVAL
      | Some index \<Rightarrow>
          let t = leds (sy_profile x) ! index in
          if seconds < 1 \<or> seconds > 60 then fail EINVAL
          else
            bindE (sysfs_read E x i) (\<lambda>saved.
              if unknown_fields saved AND PATCH_SHOWN \<noteq> 0 then fail ENOTSUP
              else if protocol (sy_profile x) = ''sysfs-n76'' \<and> max_brightness t > 1 \<and>
                      (brightness saved < 2 \<or> brightness saved > max_brightness t) then fail ENOTSUP
              else
                bindE (sysfs_read_text E (attribute_path x index ''trigger'') 1024) (\<lambda>triggers.
                  let trigger = saved_trigger triggers in
                  if trigger \<notin> restorable_triggers then fail ENOTSUP
                  else if length trigger \<ge> 64 then fail EBADMSG
                  else if mode saved = LED_MODE_BLINK \<and> unknown_fields saved AND PATCH_TIMING \<noteq> 0 then fail ENOTSUP
                  else
                    bindE (sysfs_read_number E (attribute_path x index ''brightness'')) (\<lambda>bright.
                    bindE (saved_color E x index saved) (\<lambda>palette.
                    bindE (sysfs_preflight E x i saved (flash_patch t 0)) (\<lambda>_. do {
                      result \<leftarrow> flash auth authorize E x i t [0..<unat seconds * 4];
                      current \<leftarrow> restore_driver auth authorize E x i index saved trigger bright palette;
                      (case current of Inl e \<Rightarrow> fail e
                       | Inr current \<Rightarrow> if same_driver_state saved current then ret result else fail EIO) }))))))"


section \<open>Writes follow a check of the target\<close>

definition target_link :: "led_sysfs \<Rightarrow> nat \<Rightarrow> string" where
  "target_link x k = sy_root x @ ''/class/leds/'' @ sysfs_name (leds (sy_profile x) ! k)"

fun no_write :: "event \<Rightarrow> bool" where
  "no_write (Write_file _ _ _) = False"
| "no_write _ = True"

text \<open>
  The history ends with a check of LED \<open>k\<close>: its class link resolved to the stored directory, and the
  brightness range of that directory was read and accepted; nothing was written in between.
\<close>

definition target_checked :: "led_sysfs \<Rightarrow> nat \<Rightarrow> trace \<Rightarrow> bool" where
  "target_checked x k es \<longleftrightarrow>
     (\<exists>pre mid r text m.
        es = pre @ Realpath (target_link x k) (Inr (sy_directory x ! k)) # mid @
               [Read_file (attribute_path x k ''max_brightness'') r] \<and>
        list_all no_write mid \<and> sysfs_text_of 64 r = Inr text \<and> sysfs_number_of text = Inr m \<and>
        brightness_range_ok (sy_profile x) (leds (sy_profile x) ! k) m)"

definition sysfs_attributes :: "led_sysfs \<Rightarrow> nat \<Rightarrow> string set" where
  "sysfs_attributes x k =
     (\<lambda>name. sy_directory x ! k @ ''/'' @ name) ` {''color'', ''brightness'', ''trigger'', ''delay_on'', ''delay_off''}"

definition writes_checked :: "led_sysfs \<Rightarrow> nat \<Rightarrow> trace \<Rightarrow> bool" where
  "writes_checked x k es \<longleftrightarrow>
     (\<forall>as path s r bs. es = as @ Write_file path s r # bs \<longrightarrow> path \<in> sysfs_attributes x k \<and> target_checked x k as)"


lemma target_checkedI:
  "l = target_link x k \<Longrightarrow> d = sy_directory x ! k \<Longrightarrow> q = attribute_path x k ''max_brightness'' \<Longrightarrow> list_all no_write mid \<Longrightarrow>
   sysfs_text_of 64 r = Inr text \<Longrightarrow> sysfs_number_of text = Inr m \<Longrightarrow>
   brightness_range_ok (sy_profile x) (leds (sy_profile x) ! k) m \<Longrightarrow>
   target_checked x k (Realpath l (Inr d) # mid @ [Read_file q r])"
  unfolding target_checked_def by (metis append_Nil)

lemma target_checked_prefix: "target_checked x k fs \<Longrightarrow> target_checked x k (es @ fs)"
  unfolding target_checked_def by (metis append_assoc)

lemma writes_checked_append:
  assumes "writes_checked x k es" "writes_checked x k fs"
  shows "writes_checked x k (es @ fs)"
  unfolding writes_checked_def
proof (intro allI impI)
  fix as path s r bs
  assume "es @ fs = as @ Write_file path s r # bs"
  then consider us where "es = as @ Write_file path s r # us" | us where "as = es @ us" "fs = us @ Write_file path s r # bs"
    by (auto simp: append_eq_append_conv2 append_eq_Cons_conv)
  then show "path \<in> sysfs_attributes x k \<and> target_checked x k as"
    using assms unfolding writes_checked_def by cases (blast intro: target_checked_prefix)+
qed

interpretation checks: segments "writes_checked x k" for x k
  by unfold_locales (simp add: writes_checked_def, rule writes_checked_append)

lemma no_write_checked: "emits no_write m \<Longrightarrow> appends (writes_checked x k) m"
  by (erule appends_mono) (auto simp: writes_checked_def)

lemma silent_number: "emits no_write (sysfs_read_number E path)" "emits no_write (sysfs_read_text E path n)"
  unfolding sysfs_read_number_def sysfs_read_text_def calls by (intro emits_intros; simp)+

lemma silent_bound: "emits no_write (driver_bound E x d)"
  unfolding driver_bound_def calls by (intro emits_intros) simp_all

lemma silent_verify: "emits no_write (verify_target E x k)"
  unfolding verify_target_def Let_def calls by (intro emits_intros silent_bound silent_number) simp

lemma silent_read: "emits no_write (sysfs_read E x i)"
  unfolding sysfs_read_def read_brightness_def read_color_def color_of_text_def read_timing_def Let_def
  by (intro emits_intros silent_verify silent_number)

lemma silent_preflight: "emits no_write (sysfs_preflight E x i before p)"
  unfolding sysfs_preflight_def by (intro emits_intros silent_verify silent_number)

lemma silent_poll: "emits no_write (poll_brightness E path expected n)"
  by (induction n) (auto simp: calls intro!: emits_intros silent_number)

lemma silent_wait: "emits no_write (wait_configured_brightness E x k expected)"
  unfolding wait_configured_brightness_def by (intro emits_intros silent_poll)

lemma silent_settled: "emits no_write (settled_read E x i p n)"
  by (induction n) (auto simp: calls intro!: emits_intros silent_read)

lemmas sysfs_silent = silent_number silent_verify silent_read silent_preflight silent_wait silent_settled

lemma seg_verify:
  assumes "sy_directory x ! k \<noteq> []"
  shows "seg (\<lambda>r es. list_all no_write es \<and> (\<forall>d. r = Inr d \<longrightarrow> target_checked x k es)) (verify_target E x k)"
proof -
  have number: "seg (\<lambda>r es. \<exists>f. es = [Read_file q f] \<and> (\<forall>m. r = Inr m \<longrightarrow> (\<exists>text. sysfs_text_of 64 f = Inr text \<and> sysfs_number_of text = Inr m)))
      (sysfs_read_number E q)" for q
    unfolding sysfs_read_number_def sysfs_read_text_def bindE_def
    by (simp, intro seg_bind [OF seg_read_file] seg_return) (auto split: sum.splits intro!: seg_return)
  show ?thesis
    unfolding verify_target_def Let_def
    by (intro seg_if seg_return seg_bind [OF seg_realpath] seg_case_sum seg_bind [OF seg_appends [OF silent_bound]] seg_bind [OF number])
      (use assms in \<open>auto intro!: target_checkedI simp: target_link_def attribute_path_def\<close>)
qed


text \<open>One attribute write, under the two hypotheses of this section.\<close>

lemma attribute_checked:
  assumes auth: "emits no_write auth" and dir: "sy_directory x ! k \<noteq> []"
    and name: "name \<in> {''color'', ''brightness'', ''trigger'', ''delay_on'', ''delay_off''}"
  shows "appends (writes_checked x k) (led_attribute auth E x k name s)"
proof -
  have stored: "seg (\<lambda>_ es. \<exists>r. es = [Write_file path s r]) (sysfs_write_text E path s)" for path
    unfolding sysfs_write_text_def by (intro seg_bind [OF seg_write_file] seg_return) simp
  have one: "writes_checked x k (es @ [Write_file path s r])"
    if "list_all no_write es" "target_checked x k es" "path \<in> sysfs_attributes x k" for es path r
    using that by (auto simp: writes_checked_def append_eq_append_conv2 append_eq_Cons_conv Cons_eq_append_conv)
  have quiet: "writes_checked x k es" if "list_all no_write es" for es
    using that by (auto simp: writes_checked_def)
  have path: "sy_directory x ! k @ ''/'' @ name \<in> sysfs_attributes x k"
    using name unfolding sysfs_attributes_def by blast
  show ?thesis
    unfolding led_attribute_def Let_def
    by (intro checks.bindE no_write_checked auth appends_seg seg_bindE [OF seg_verify [OF dir]] seg_if seg_return seg_mono [OF stored])
      (use path in \<open>auto intro: one quiet\<close>)
qed


lemma number_checked:
  assumes "emits no_write auth" "sy_directory x ! k \<noteq> []" "name \<in> {''color'', ''brightness'', ''trigger'', ''delay_on'', ''delay_off''}"
  shows "appends (writes_checked x k) (number_attribute auth E x k name v)"
  unfolding number_attribute_def using assms by (rule attribute_checked)

lemma apply_checked:
  assumes h: "emits no_write auth" "sy_directory x ! k \<noteq> []" and k: "target_index (sy_profile x) i = Some k"
  shows "appends (writes_checked x k) (sysfs_apply auth E x i p)"
proof -
  note step = attribute_checked [OF h] number_checked [OF h] sysfs_silent [THEN no_write_checked]
  show ?thesis
    unfolding sysfs_apply_def k write_color_def write_brightness_def write_mode_def write_trigger_def Let_def option.case
    by (intro checks.intros appends_cases step; simp)
qed

lemma flash_checked:
  assumes h: "emits no_write auth" "sy_directory x ! k \<noteq> []" "emits no_write authorize" and k: "target_index (sy_profile x) i = Some k"
  shows "appends (writes_checked x k) (flash auth authorize E x i t ticks)"
proof (induction ticks)
  case (Cons tick ticks)
  have "emits no_write (poll_cancelled E)" "emits no_write (sleep_ms 250)"
    unfolding calls by (intro emits_intros; simp)+
  then show ?case
    unfolding flash.simps
    by (intro checks.intros appends_cases apply_checked [OF h(1,2) k] no_write_checked h(3) Cons.IH)
qed (simp add: checks.intros)

lemma identify_checked:
  assumes h: "emits no_write auth" "sy_directory x ! k \<noteq> []" "emits no_write authorize" and k: "target_index (sy_profile x) i = Some k"
  shows "appends (writes_checked x k) (sysfs_identify auth authorize E x i seconds)"
proof -
  have color: "emits no_write (saved_color E x k v)" for v
    unfolding saved_color_def by (intro emits_intros silent_number)
  note step = attribute_checked [OF h(1,2)] number_checked [OF h(1,2)] flash_checked [OF h k] h(3) [THEN no_write_checked]
    sysfs_silent [THEN no_write_checked] color [THEN no_write_checked]
  show ?thesis
    unfolding sysfs_identify_def k restore_driver_def Let_def option.case
    by (intro checks.intros appends_cases step; simp)
qed

text \<open>An opened context knows every directory, below the devices of its root.\<close>

definition below_devices :: "string \<Rightarrow> string \<Rightarrow> bool" where
  "below_devices root d \<longleftrightarrow> starts_with (root @ ''/devices/'') d"

definition resolves :: "nat set \<Rightarrow> led_sysfs \<Rightarrow> led_sysfs \<Rightarrow> bool" where
  "resolves ids x y \<longleftrightarrow>
     sy_profile y = sy_profile x \<and> sy_root y = sy_root x \<and> length (sy_directory y) = length (sy_directory x) \<and>
     (\<forall>i < length (sy_directory x). i \<in> ids \<or> below_devices (sy_root x) (sy_directory x ! i) \<longrightarrow> below_devices (sy_root x) (sy_directory y ! i))"

lemma resolves_step:
  assumes "below_devices (sy_root x) d" "resolves ids (x\<lparr>sy_directory := (sy_directory x)[i := d]\<rparr>) y"
  shows "resolves (insert i ids) x y"
  unfolding resolves_def
proof (intro conjI allI impI)
  fix j assume j: "j < length (sy_directory x)" "j \<in> insert i ids \<or> below_devices (sy_root x) (sy_directory x ! j)"
  then have "j \<in> ids \<or> below_devices (sy_root x) ((sy_directory x)[i := d] ! j)"
    using assms(1) by (cases "j = i") auto
  then show "below_devices (sy_root x) (sy_directory y ! j)"
    using assms(2) j(1) by (auto simp: resolves_def)
qed (use assms(2) in \<open>simp_all add: resolves_def\<close>)

lemma seg_verify_below: "seg (\<lambda>r _. \<forall>d. r = Inr d \<longrightarrow> below_devices (sy_root x) d) (verify_target E x i)"
proof -
  have below: "starts_with (r @ q) s" if "starts_with r s" "starts_with q (drop (length r) s)" for q r s
    using that by (auto simp: starts_with_prefix prefix_def)
  show ?thesis
    unfolding verify_target_def Let_def below_devices_def
    by (intro seg_if seg_return seg_bind [OF seg_realpath] seg_case_sum seg_bind [OF seg_appends [OF silent_bound]]
        seg_bind [OF seg_appends [OF silent_number(1)]]) (auto intro: below simp del: append.simps)
qed

lemma open_targets_resolved: "seg (\<lambda>r _. \<forall>y. r = Inr y \<longrightarrow> resolves (set ids) x y) (open_targets E x ids)"
proof (induction E x ids rule: open_targets.induct)
  case (1 E x)
  show ?case unfolding open_targets.simps by (rule seg_return) (simp add: resolves_def)
next
  case (2 E x i ids)
  show ?case
    unfolding open_targets.simps
    by (rule seg_bindE [OF seg_verify_below], simp, rule seg_mono [OF "2.IH"]) (auto intro: resolves_step)
qed

lemma sysfs_open_resolved:
  assumes "run_state (sysfs_open E p root) h = (Inr x, h')"
  shows "sy_profile x = p" "\<forall>k < length (leds p). below_devices (sy_root x) (sy_directory x ! k)"
proof -
  have "seg (\<lambda>r _. \<forall>y. r = Inr y \<longrightarrow> sy_profile y = p \<and> (\<forall>k < length (leds p). below_devices (sy_root y) (sy_directory y ! k))) (sysfs_open E p root)"
    unfolding sysfs_open_def
    by (intro seg_if seg_return seg_bindE [OF seg_realpath] seg_mono [OF open_targets_resolved]) (auto simp: resolves_def)
  from segD [OF this assms]
  show "sy_profile x = p" "\<forall>k < length (leds p). below_devices (sy_root x) (sy_directory x ! k)" by auto
qed

lemma target_index_less: "target_index p i = Some k \<Longrightarrow> k < length (leds p)"
  by (auto simp: target_index_def find_Some_iff)

text \<open>
  \<^bold>\<open>C23.\<close>  After a successful open, whatever the kernel and other processes do: changing or identifying an LED
  writes only the five driver attributes in the directory found when the back end was opened, which lies below the
  devices of the sysfs root, and directly before every single write the class link of that LED was resolved again to
  the same directory and the brightness range read there was the expected one.
\<close>

theorem sysfs_writes_checked:
  assumes opened: "run_state (sysfs_open E p root) h = (Inr x, h0)" and k: "target_index p i = Some k"
    and auth: "emits no_write auth" "emits no_write authorize"
  shows "below_devices (sy_root x) (sy_directory x ! k) \<and>
     (\<exists>es. snd (run_state (sysfs_apply auth E x i patch) h1) = h1 @ es \<and> writes_checked x k es) \<and>
     (\<exists>es. snd (run_state (sysfs_identify auth authorize E x i seconds) h1) = h1 @ es \<and> writes_checked x k es)"
proof -
  have x: "sy_profile x = p" "below_devices (sy_root x) (sy_directory x ! k)"
    using sysfs_open_resolved [OF opened] target_index_less [OF k] by auto
  then have dir: "sy_directory x ! k \<noteq> []" "target_index (sy_profile x) i = Some k"
    using k by (auto simp: below_devices_def starts_with_def)
  show ?thesis
    using x(2) apply_checked [OF auth(1) dir] identify_checked [OF auth(1) dir(1) auth(2) dir(2)]
    by (auto simp: appends_def)
qed


section \<open>Success is confirmed by a later read\<close>

lemma settled_is_read:
  "wp (settled_read E x i p n) (\<lambda>r h'. \<forall>v. r = Inr v \<longrightarrow> (\<exists>g. run_state (sysfs_read E x i) g = (Inr v, h'))) h"
proof (induction n arbitrary: h)
  case 0
  show ?case unfolding settled_read.simps by (rule wpI) blast
next
  case (Suc n)
  show ?case
    unfolding settled_read.simps
    by (rule wp_bindEI, rule wpI) (auto simp: calls wp_simps split: sum.split intro: wp_mono [OF Suc.IH])
qed

text \<open>
  A change that reports success is visible in the driver: the value returned was read from the driver
  after the last write, and it has every field the patch asks for (on an N76 driver also the mode the LED had
  when the patch names none).
\<close>

theorem sysfs_apply_confirmed:
  assumes run: "run_state (sysfs_apply auth E x i p) h = (Inr v, h')"
  shows "\<exists>before h1 g. run_state (sysfs_read E x i) h = (Inr before, h1) \<and> run_state (sysfs_read E x i) g = (Inr v, h') \<and>
     (\<exists>es. h' = g @ es \<and> list_all no_write es) \<and> sysfs_meets (effective_patch (sy_profile x) before p) v"
proof -
  let ?D = "\<lambda>before r h'. \<forall>v. r = Inr v \<longrightarrow> (\<exists>g. run_state (sysfs_read E x i) g = (Inr v, h')) \<and> sysfs_meets (effective_patch (sy_profile x) before p) v"
  have settled: "wp (bindE (settled_read E x i (effective_patch (sy_profile x) before p) 20)
      (\<lambda>after. if sysfs_meets (effective_patch (sy_profile x) before p) after then ok after else fail EIO)) (?D before) h" for before h
    by (rule wp_bindEI, rule wp_mono [OF settled_is_read]) (auto simp: wp_simps split: sum.split)
  have "wp (sysfs_apply auth E x i p) (\<lambda>r h'. \<forall>v. r = Inr v \<longrightarrow> (\<exists>before h1. run_state (sysfs_read E x i) h = (Inr before, h1) \<and> ?D before r h')) h"
    unfolding sysfs_apply_def Let_def
    apply (intro wp_optionI wp_ifI wp_returnI wp_bindEI [of "sysfs_read E x i"]; simp?)
    apply (rule wpI, rule wp_result_sumI, simp)
    apply (rule wp_mono [of _ "?D before" for before], (rule settled wp_bindE_any | simp)+)
    done
  from wp_run [OF run this] obtain before h1 g
    where r: "run_state (sysfs_read E x i) h = (Inr before, h1)" "run_state (sysfs_read E x i) g = (Inr v, h')"
      "sysfs_meets (effective_patch (sy_profile x) before p) v" by blast
  moreover obtain es where "h' = g @ es" "list_all no_write es"
    using silent_read [of E x i, unfolded appends_def, rule_format, of g] r(2) by auto
  ultimately show ?thesis by blast
qed


lemma restore_is_read:
  "wp (restore_driver auth authorize E x i k saved trigger bright palette)
     (\<lambda>r h'. \<forall>v. r = Inr v \<longrightarrow> (\<exists>g. run_state (sysfs_read E x i) g = (Inr v, h'))) h"
proof -
  have read: "wp (sysfs_read E x i) (\<lambda>r h'. \<forall>v. r = Inr v \<longrightarrow> (\<exists>g. run_state (sysfs_read E x i) g = (Inr v, h'))) h" for h
    by (rule wpI) blast
  show ?thesis unfolding restore_driver_def Let_def by (rule wp_bindE_any read | simp)+
qed

text \<open>
  \<^bold>\<open>C24.\<close>  An identification that reports success leaves the driver as it found it: mode, brightness and palette,
  and the timing of a blinking LED, are read back after the last write and equal the values saved at the start.
\<close>

theorem sysfs_identify_restores:
  assumes run: "run_state (sysfs_identify auth authorize E x i seconds) h = (Inr (), h')"
  shows "\<exists>saved h1 current g. run_state (sysfs_read E x i) h = (Inr saved, h1) \<and> run_state (sysfs_read E x i) g = (Inr current, h') \<and>
     (\<exists>es. h' = g @ es \<and> list_all no_write es) \<and> same_driver_state saved current"
proof -
  let ?D = "\<lambda>saved r h'. r = Inr () \<longrightarrow> (\<exists>current g. run_state (sysfs_read E x i) g = (Inr current, h') \<and> same_driver_state saved current)"
  have last: "wp (do { result \<leftarrow> flash auth authorize E x i t ticks;
        current \<leftarrow> restore_driver auth authorize E x i k saved trigger bright palette;
        (case current of Inl e \<Rightarrow> fail e | Inr current \<Rightarrow> if same_driver_state saved current then ret result else fail EIO) }) (?D saved) h"
    for t ticks k saved trigger bright palette h
    by (rule wp_bindI, rule wp_mono [OF wp_True], rule wp_bindI, rule wp_mono [OF restore_is_read])
      (auto simp: wp_simps split: sum.split)
  have "wp (sysfs_identify auth authorize E x i seconds)
      (\<lambda>r h'. r = Inr () \<longrightarrow> (\<exists>saved h1. run_state (sysfs_read E x i) h = (Inr saved, h1) \<and> ?D saved r h')) h"
    unfolding sysfs_identify_def Let_def
    apply (intro wp_optionI wp_ifI wp_returnI; (simp; fail)?)
    apply (rule wp_bindEI, rule wpI, rule wp_result_sumI, simp)
    apply (rule wp_mono [of _ "?D saved" for saved])
     apply (rule last wp_bindE_any wp_ifI wp_returnI | (simp; fail))+
    done
  from wp_run [OF run this] obtain saved h1 current g
    where r: "run_state (sysfs_read E x i) h = (Inr saved, h1)" "run_state (sysfs_read E x i) g = (Inr current, h')"
      "same_driver_state saved current" by blast
  moreover obtain es where "h' = g @ es" "list_all no_write es"
    using silent_read [of E x i, unfolded appends_def, rule_format, of g] r(2) by auto
  ultimately show ?thesis by blast
qed

section \<open>Examples\<close>

text \<open>A DH2300 whose four LEDs are steadily white, and a user who stops an identification at once.\<close>

definition ends_with :: "string \<Rightarrow> string \<Rightarrow> bool" where
  "ends_with q s \<longleftrightarrow> drop (length s - length q) s = q"

definition example_sysfs_env :: env where
  "example_sysfs_env = null_env\<lparr>
     e_realpath := (\<lambda>_ path. if path = ''/sys'' then Inr ''/sys''
                             else if ends_with ''module'' path then Inr ''/sys/module/ug_gpio_leds'' else Inr ''/sys/devices/led''),
     e_read := (\<lambda>_ path. if ends_with ''/state'' path then File_data ''on,color:1,'' None
                         else if ends_with ''/trigger'' path then File_data ''[none] timer'' None
                         else if ends_with ''brightness'' path then File_data ''1'' None else Open_failed ENOENT),
     e_write := (\<lambda>_ _ s. Written (length s)),
     e_cancelled := (\<lambda>_. True)\<rparr>"

definition example_sysfs :: led_sysfs where
  "example_sysfs = \<lparr>sy_profile = example_gpio, sy_root = ''/sys'', sy_directory = replicate 4 ''/sys/devices/led''\<rparr>"

definition example_sysfs_on :: led_patch where
  "example_sysfs_on = \<lparr>patch_fields = PATCH_MODE, pv = zero_value\<lparr>mode := LED_MODE_ON\<rparr>\<rparr>"

lemma example_sysfs_open: "fst (run_state (sysfs_open example_sysfs_env example_gpio ''/sys'') []) = Inr example_sysfs"
  by code_simp


lemma example_sysfs_apply: "isl (fst (run_state (sysfs_apply (ok ()) example_sysfs_env example_sysfs 0 example_sysfs_on) [])) = False"
  by code_simp

lemma example_sysfs_identify: "fst (run_state (sysfs_identify (ok ()) (ok ()) example_sysfs_env example_sysfs 0 1) []) = Inr ()"
  by code_simp

theorem sysfs_writes_checked_witness:
  "below_devices ''/sys'' ''/sys/devices/led'' \<and>
   (\<exists>es. snd (run_state (sysfs_apply (ok ()) example_sysfs_env example_sysfs 0 example_sysfs_on) []) = [] @ es \<and> writes_checked example_sysfs 0 es) \<and>
   (\<exists>es. snd (run_state (sysfs_identify (ok ()) (ok ()) example_sysfs_env example_sysfs 0 1) []) = [] @ es \<and> writes_checked example_sysfs 0 es)"
proof -
  obtain h0 where opened: "run_state (sysfs_open example_sysfs_env example_gpio ''/sys'') [] = (Inr example_sysfs, h0)"
    using example_sysfs_open by (metis prod.collapse)
  have k: "target_index example_gpio 0 = Some 0" by code_simp
  have auth: "emits no_write (ok ())" by (rule events.return)
  have "sy_root example_sysfs = ''/sys''" "sy_directory example_sysfs ! 0 = ''/sys/devices/led''"
    by (simp_all add: example_sysfs_def)
  with sysfs_writes_checked [OF opened k auth auth, of example_sysfs_on "[]" 1] show ?thesis by simp
qed

theorem sysfs_apply_confirmed_witness:
  "\<exists>v h'. run_state (sysfs_apply (ok ()) example_sysfs_env example_sysfs 0 example_sysfs_on) [] = (Inr v, h') \<and>
     (\<exists>before h1 g. run_state (sysfs_read example_sysfs_env example_sysfs 0) [] = (Inr before, h1) \<and>
        run_state (sysfs_read example_sysfs_env example_sysfs 0) g = (Inr v, h') \<and> (\<exists>es. h' = g @ es \<and> list_all no_write es) \<and>
        sysfs_meets (effective_patch example_gpio before example_sysfs_on) v)"
proof -
  obtain v h' where run: "run_state (sysfs_apply (ok ()) example_sysfs_env example_sysfs 0 example_sysfs_on) [] = (Inr v, h')"
    using example_sysfs_apply by (metis isl_def prod.collapse sum.exhaust_sel)
  have "sy_profile example_sysfs = example_gpio" by (simp add: example_sysfs_def)
  with sysfs_apply_confirmed [OF run] run show ?thesis by simp
qed

theorem sysfs_identify_restores_witness:
  "\<exists>h' saved h1 current g. run_state (sysfs_identify (ok ()) (ok ()) example_sysfs_env example_sysfs 0 1) [] = (Inr (), h') \<and>
     run_state (sysfs_read example_sysfs_env example_sysfs 0) [] = (Inr saved, h1) \<and>
     run_state (sysfs_read example_sysfs_env example_sysfs 0) g = (Inr current, h') \<and> same_driver_state saved current"
proof -
  obtain h' where run: "run_state (sysfs_identify (ok ()) (ok ()) example_sysfs_env example_sysfs 0 1) [] = (Inr (), h')"
    using example_sysfs_identify by (metis prod.collapse)
  from sysfs_identify_restores [OF run] run show ?thesis by blast
qed

end
