(* ===== verification/Led_Gpio.thy ===== *)
theory Led_Gpio
  imports Led_Identity "HOL-Library.Multiset"
begin

text \<open>
  The LEDs of the ARM models through the GPIO character device (\<^verbatim>\<open>led/led_gpio.c\<close>), with the production
  transport.  A context is a \<open>led_gpio\<close>; while it is being opened it is passed along with the result, so that
  a failed open can release what it had acquired.
\<close>

section \<open>Data\<close>

record gpio_bank =
  gb_node :: string
  gb_offsets :: "u32 list"
  gb_chip :: string
  gb_device :: string
  gb_of_node :: string
  gb_chip_fd :: "nat option"
  gb_line_fd :: "nat option"

record led_gpio =
  gp_identity :: led_identity
  gp_machine :: machine_identity
  gp_access :: led_access
  gp_root :: string
  gp_device_root :: string
  gp_banks :: "gpio_bank list"
  gp_lock_fd :: "nat option"
  gp_client_pid :: int

section \<open>The device tree\<close>

definition binary_of_read :: "nat \<Rightarrow> file_read \<Rightarrow> errno + string" where
  "binary_of_read capacity r =
     (case r of Open_failed e \<Rightarrow> Inl e
      | File_data s (Some e) \<Rightarrow> Inl e
      | File_data s None \<Rightarrow> if length s \<ge> capacity then Inl EOVERFLOW else Inr s)"

definition read_binary :: "env \<Rightarrow> string \<Rightarrow> nat \<Rightarrow> (errno + string) io" where
  "read_binary E path capacity = do { r \<leftarrow> read_file E path; ret (binary_of_read capacity r) }"

definition be32 :: "string \<Rightarrow> nat \<Rightarrow> u32" where
  "be32 s k = of_char (s ! k) * 0x1000000 OR of_char (s ! (k + 1)) * 0x10000 OR of_char (s ! (k + 2)) * 0x100 OR of_char (s ! (k + 3))"

definition dt_property :: "env \<Rightarrow> string \<Rightarrow> string \<Rightarrow> string \<Rightarrow> nat \<Rightarrow> (errno + string) io" where
  "dt_property E root node name capacity =
     (let path = root @ ''/firmware/devicetree/base'' @ node @ ''/'' @ name in
      if length path \<ge> PATH_MAX then fail ENAMETOOLONG else read_binary E path capacity)"

definition property_string :: "env \<Rightarrow> string \<Rightarrow> string \<Rightarrow> string \<Rightarrow> string \<Rightarrow> bool io" where
  "property_string E root node name expected = do {
     r \<leftarrow> dt_property E root node name 128;
     ret (r = Inr (expected @ [CHR 0x00])) }"

definition fresh_bank :: "string \<Rightarrow> u32 list \<Rightarrow> gpio_bank" where
  "fresh_bank node offsets = \<lparr>gb_node = node, gb_offsets = offsets, gb_chip = [], gb_device = [], gb_of_node = [],
     gb_chip_fd = None, gb_line_fd = None\<rparr>"

definition gpio_layout :: "string \<Rightarrow> gpio_bank list option" where
  "gpio_layout model =
     (if model = ''DH2300'' then Some [fresh_bank ''/pinctrl/gpio@2ae20000'' [30, 31, 28, 29, 15, 13, 14, 12]]
      else if model = ''DH4300 Plus'' then
        Some [fresh_bank ''/pinctrl/gpio@fd8a0000'' [22, 4, 8, 20],
              fresh_bank ''/pinctrl/gpio@fec50000'' [13, 14, 9, 10, 11, 12, 7, 8]]
      else None)"

text \<open>Bank and index of the first of the two lines of a LED.\<close>

definition bank_for_led :: "led_gpio \<Rightarrow> nat \<Rightarrow> nat" where
  "bank_for_led x i = (if length (gp_banks x) = 2 \<and> i \<ge> 2 then 1 else 0)"

definition index_for_led :: "led_gpio \<Rightarrow> nat \<Rightarrow> nat" where
  "index_for_led x i = (if bank_for_led x i = 1 then i - 2 else i) * 2"

definition gpio_leds :: "led_gpio \<Rightarrow> led_descriptor list" where
  "gpio_leds x = (case li_profile (gp_identity x) of None \<Rightarrow> [] | Some p \<Rightarrow> leds p)"

text \<open>The wiring of a bank: one triple of cells per line, from cell \<open>index\<close> on.\<close>

definition bank_wired :: "string \<Rightarrow> u32 \<Rightarrow> nat \<Rightarrow> u32 list \<Rightarrow> bool" where
  "bank_wired wiring phandle index offsets \<longleftrightarrow>
     list_all (\<lambda>i. be32 wiring ((index + i) * 12) = phandle \<and> be32 wiring ((index + i) * 12 + 4) = offsets ! i \<and>
                   be32 wiring ((index + i) * 12 + 8) = 0) [0..<length offsets]"

fun verify_banks :: "env \<Rightarrow> string \<Rightarrow> string \<Rightarrow> nat \<Rightarrow> gpio_bank list \<Rightarrow> (errno + unit) io" where
  "verify_banks E root wiring index [] = ok ()"
| "verify_banks E root wiring index (b # bs) = do {
     same \<leftarrow> property_string E root (gb_node b) ''compatible'' ''rockchip,gpio-bank'';
     (if \<not> same then fail ENOTSUP
      else do {
        handle \<leftarrow> dt_property E root (gb_node b) ''phandle'' 8;
        (case handle of Inl _ \<Rightarrow> fail ENOTSUP
         | Inr handle \<Rightarrow>
             if length handle \<noteq> 4 \<or> be32 handle 0 = 0 \<or> \<not> bank_wired wiring (be32 handle 0) index (gb_offsets b) then fail ENOTSUP
             else verify_banks E root wiring (index + length (gb_offsets b)) bs) }) }"

definition verify_tree :: "env \<Rightarrow> led_gpio \<Rightarrow> (errno + unit) io" where
  "verify_tree E x =
     bindE (identity_read_at E (gp_root x)) (\<lambda>current.
       if mi_source current \<noteq> ''devicetree'' \<or> mi_product_name current \<noteq> mi_product_name (gp_machine x) \<or>
          mi_compatible current \<noteq> mi_compatible (gp_machine x) then fail ENOTSUP
       else do {
         c \<leftarrow> property_string E (gp_root x) ''/ug-led'' ''compatible'' ''ug-rockchip-led'';
         s \<leftarrow> (if c then property_string E (gp_root x) ''/ug-led'' ''status'' ''okay'' else ret False);
         (if \<not> s then fail ENOTSUP
          else do {
            n \<leftarrow> dt_property E (gp_root x) ''/ug-led'' ''led_num'' 256;
            (case n of Inl _ \<Rightarrow> fail ENOTSUP
             | Inr n \<Rightarrow>
                 if length n \<noteq> 4 \<or> be32 n 0 \<noteq> of_nat (length (gpio_leds x)) then fail ENOTSUP
                 else do {
                   w \<leftarrow> dt_property E (gp_root x) ''/ug-led'' ''leds-gpios'' 256;
                   (case w of Inl _ \<Rightarrow> fail ENOTSUP
                    | Inr w \<Rightarrow>
                        if length w \<noteq> 144 then fail ENOTSUP else verify_banks E (gp_root x) w 0 (gp_banks x)) }) }) })"

section \<open>Chips\<close>

definition chip_path :: "env \<Rightarrow> string \<Rightarrow> string \<Rightarrow> (errno + string \<times> string) io" where
  "chip_path E root name =
     (let path = root @ ''/bus/gpio/devices/'' @ name in
      if length path \<ge> PATH_MAX then fail ENAMETOOLONG
      else bindE (realpath E path) (\<lambda>device.
        if \<not> starts_with root device \<or> \<not> starts_with ''/devices/'' (drop (length root) device) then fail EPERM
        else do {
          n \<leftarrow> realpath E (clipped (device @ ''/of_node''));
          n \<leftarrow> (case n of Inr node \<Rightarrow> ok node | Inl _ \<Rightarrow> realpath E (clipped (device @ ''/device/of_node'')));
          (case n of Inl e \<Rightarrow> fail e
           | Inr node \<Rightarrow>
               if \<not> starts_with (clipped (root @ ''/firmware/devicetree/base/'')) node then fail EPERM
               else ok (device, node)) }))"

definition is_chip_name :: "string \<Rightarrow> bool" where
  "is_chip_name n \<longleftrightarrow> starts_with ''gpiochip'' n \<and> drop 8 n \<noteq> [] \<and> list_all isdigit (drop 8 n)"

text \<open>A chip belongs to the bank its device-tree node names; two chips for one bank are refused.\<close>

fun assign_chip :: "string \<Rightarrow> string \<Rightarrow> string \<Rightarrow> string \<Rightarrow> gpio_bank list \<Rightarrow> errno + gpio_bank list" where
  "assign_chip root name device node [] = Inr []"
| "assign_chip root name device node (b # bs) =
     (if node = clipped (root @ ''/firmware/devicetree/base'' @ gb_node b) then
        (if gb_chip b \<noteq> [] then Inl ENOTSUP
         else map_sum id (Cons (b\<lparr>gb_chip := take 63 name, gb_device := device, gb_of_node := node\<rparr>)) (assign_chip root name device node bs))
      else map_sum id (Cons b) (assign_chip root name device node bs))"

fun assign_chips :: "env \<Rightarrow> string \<Rightarrow> string list \<Rightarrow> gpio_bank list \<Rightarrow> (errno + gpio_bank list) io" where
  "assign_chips E root [] bs = ok bs"
| "assign_chips E root (name # names) bs =
     (if \<not> is_chip_name name then assign_chips E root names bs
      else bindE (chip_path E root name) (\<lambda>(device, node).
           bindE (ret (assign_chip root name device node bs)) (\<lambda>bs. assign_chips E root names bs)))"

definition open_chip :: "env \<Rightarrow> string \<Rightarrow> (errno + nat) io" where
  "open_chip E path =
     bindE (open_device E path) (\<lambda>fd. do {
       st \<leftarrow> fstat E fd;
       (case st of Inl e \<Rightarrow> do { close_fd fd; fail e }
        | Inr st \<Rightarrow> if sx_device st = None then do { close_fd fd; fail ENODEV } else ok fd) })"

definition chip_is :: "string \<Rightarrow> string \<times> u32 \<Rightarrow> bool" where
  "chip_is name info \<longleftrightarrow> fst info = name \<and> snd info = 32"

definition GPIO_LINE_USED :: u64 where "GPIO_LINE_USED = 1"

fun lines_unused :: "env \<Rightarrow> nat \<Rightarrow> u32 list \<Rightarrow> (errno + unit) io" where
  "lines_unused E fd [] = ok ()"
| "lines_unused E fd (n # ns) =
     bindE (gpio_lineinfo E fd n) (\<lambda>flags. if flags AND GPIO_LINE_USED \<noteq> 0 then fail EBUSY else lines_unused E fd ns)"

definition request_bank :: "env \<Rightarrow> string \<Rightarrow> gpio_bank \<Rightarrow> ((errno + unit) \<times> gpio_bank) io" where
  "request_bank E device_root b =
     (if gb_chip b = [] then ret (Inl ENOTSUP, b)
      else tryC (open_chip E (clipped (device_root @ ''/'' @ gb_chip b))) b (\<lambda>fd.
        let b = b\<lparr>gb_chip_fd := Some fd\<rparr> in
        tryC (gpio_chipinfo E fd) b (\<lambda>info.
          if \<not> chip_is (gb_chip b) info then ret (Inl ENOTSUP, b)
          else tryC (lines_unused E fd (gb_offsets b)) b (\<lambda>_.
               tryC (gpio_get_line E fd (gb_offsets b)) b (\<lambda>line.
                 ret (Inr (), b\<lparr>gb_line_fd := Some line\<rparr>))))))"

fun request_banks :: "env \<Rightarrow> string \<Rightarrow> gpio_bank list \<Rightarrow> ((errno + unit) \<times> gpio_bank list) io" where
  "request_banks E device_root [] = ret (Inr (), [])"
| "request_banks E device_root (b # bs) = do {
     (r, b) \<leftarrow> request_bank E device_root b;
     (case r of Inl e \<Rightarrow> ret (Inl e, b # bs)
      | Inr _ \<Rightarrow> do { (r, bs) \<leftarrow> request_banks E device_root bs; ret (r, b # bs) }) }"

definition gpio_discover :: "env \<Rightarrow> led_gpio \<Rightarrow> ((errno + unit) \<times> led_gpio) io" where
  "gpio_discover E x = do {
     names \<leftarrow> list_dir E (clipped (gp_root x @ ''/bus/gpio/devices''));
     (case names of Inl _ \<Rightarrow> ret (Inl ENOTSUP, x)
      | Inr names \<Rightarrow>
          tryC (assign_chips E (gp_root x) names (gp_banks x)) x (\<lambda>bs. do {
            (r, bs) \<leftarrow> request_banks E (gp_device_root x) bs;
            ret (r, x\<lparr>gp_banks := bs\<rparr>) })) }"

text \<open>The check before every access.  The chips of an opened context have descriptors.\<close>

fun verify_chips :: "env \<Rightarrow> string \<Rightarrow> gpio_bank list \<Rightarrow> (errno + unit) io" where
  "verify_chips E root [] = ok ()"
| "verify_chips E root (b # bs) = do {
     p \<leftarrow> chip_path E root (gb_chip b);
     (if p \<noteq> Inr (gb_device b, gb_of_node b) then fail ENOTSUP
      else case gb_chip_fd b of None \<Rightarrow> fail ENOTSUP
        | Some fd \<Rightarrow> do {
            info \<leftarrow> gpio_chipinfo E fd;
            (case info of Inl _ \<Rightarrow> fail ENOTSUP
             | Inr info \<Rightarrow> if \<not> chip_is (gb_chip b) info then fail ENOTSUP else verify_chips E root bs) }) }"

definition gpio_verify :: "env \<Rightarrow> led_gpio \<Rightarrow> (errno + unit) io" where
  "gpio_verify E x =
     bindE (process_owners_except E (gp_client_pid x)) (\<lambda>_.
     bindE (verify_tree E x) (\<lambda>_. verify_chips E (gp_root x) (gp_banks x)))"

section \<open>Opening and closing\<close>

definition lock_controller :: "env \<Rightarrow> led_gpio \<Rightarrow> ((errno + unit) \<times> led_gpio) io" where
  "lock_controller E x =
     tryC (open_lock E ''/run/ugreenctl-led-mcu.lock'') x (\<lambda>fd.
       let x = x\<lparr>gp_lock_fd := Some fd\<rparr> in
       tryC (fstat E fd) x (\<lambda>st.
         if \<not> sx_regular st \<or> sx_uid st \<noteq> 0 \<or> sx_nlink st \<noteq> 1 then ret (Inl EPERM, x)
         else do {
           l \<leftarrow> flock E fd True;
           ret (case l of Some e \<Rightarrow> Inl (if e = EWOULDBLOCK then EBUSY else e) | None \<Rightarrow> Inr (), x) }))"

definition close_some :: "nat option \<Rightarrow> unit io" where
  "close_some fd = (case fd of None \<Rightarrow> ret () | Some fd \<Rightarrow> close_fd fd)"

definition gpio_close :: "led_gpio \<Rightarrow> unit io" where
  "gpio_close x = do {
     each (\<lambda>b. do { close_some (gb_line_fd b); close_some (gb_chip_fd b) }) (gp_banks x);
     (case gp_lock_fd x of None \<Rightarrow> ret () | Some fd \<Rightarrow> do { flock_un fd; close_fd fd }) }"

definition gpio_identity_of :: "machine_identity \<Rightarrow> led_identity" where
  "gpio_identity_of m = \<lparr>li_manufacturer = [], li_product_name = mi_product_name m, li_product_version = [], li_board_version = [],
     li_profile = led_profile_find (identity_model m) (Some (mi_product_version m)), li_source = mi_source m,
     li_compatible = mi_compatible m, li_bios_vendor = [], li_bios_version = [], li_bios_date = []\<rparr>"

definition gpio_start :: "env \<Rightarrow> led_gpio \<Rightarrow> ((errno + unit) \<times> led_gpio) io" where
  "gpio_start E x =
     tryC (verify_tree E x) x (\<lambda>_.
     tryC (process_owners_except E (gp_client_pid x)) x (\<lambda>_.
     thenC (lock_controller E x) (\<lambda>_ x. gpio_discover E x)))"

definition gpio_supported :: "machine_identity \<Rightarrow> bool" where
  "gpio_supported m \<longleftrightarrow> mi_source m = ''devicetree'' \<and>
     (case li_profile (gpio_identity_of m) of None \<Rightarrow> False | Some p \<Rightarrow> protocol p = ''sysfs-gpio'')"

definition gpio_open_internal :: "env \<Rightarrow> string \<Rightarrow> string \<Rightarrow> led_access \<Rightarrow> (errno + led_gpio) io" where
  "gpio_open_internal E root device_root ac =
     bindE (realpath E root) (\<lambda>root.
     bindE (realpath E device_root) (\<lambda>device_root.
     bindE (identity_read_at E root) (\<lambda>m.
       if \<not> gpio_supported m then fail ENOTSUP
       else case gpio_layout (identity_model m) of None \<Rightarrow> fail ENOTSUP
         | Some banks \<Rightarrow> do {
             (r, x) \<leftarrow> gpio_start E \<lparr>gp_identity = gpio_identity_of m, gp_machine = m, gp_access = ac, gp_root = root,
                         gp_device_root = device_root, gp_banks = banks, gp_lock_fd = None, gp_client_pid = 0\<rparr>;
             (case r of Inr _ \<Rightarrow> ok x | Inl e \<Rightarrow> do { gpio_close x; fail e }) })))"

definition gpio_open :: "env \<Rightarrow> led_access \<Rightarrow> (errno + led_gpio) io" where
  "gpio_open E ac = (if e_geteuid E \<noteq> 0 then fail EPERM else gpio_open_internal E ''/sys'' ''/dev'' ac)"

definition gpio_identity_confirmed :: "env \<Rightarrow> led_gpio \<Rightarrow> bool io" where
  "gpio_identity_confirmed E x = do { r \<leftarrow> gpio_verify E x; ret (r = Inr ()) }"

definition gpio_set_client :: "int \<Rightarrow> led_gpio \<Rightarrow> led_gpio" where
  "gpio_set_client pid x = x\<lparr>gp_client_pid := (if pid > 0 then pid else 0)\<rparr>"

section \<open>Reading and changing\<close>

definition gpio_target :: "led_gpio \<Rightarrow> u8 \<Rightarrow> nat option" where
  "gpio_target x i = find (\<lambda>k. ld_id (gpio_leds x ! k) = i) [0..<length (gpio_leds x)]"

definition second_color :: "led_gpio \<Rightarrow> u32" where
  "second_color x = (case li_profile (gp_identity x) of None \<Rightarrow> LED_COLOR_RED
     | Some p \<Rightarrow> if product_name p = ''DH2300'' then LED_COLOR_ORANGE else LED_COLOR_RED)"

definition selected_channel :: "u32 \<Rightarrow> nat" where
  "selected_channel c = (if c = LED_COLOR_WHITE \<or> c = LED_COLOR_CHANNEL1 then 1 else 2)"

definition pair_mask :: "nat \<Rightarrow> u64" where
  "pair_mask offset = push_bit offset 3"

definition gpio_value_of :: "led_gpio \<Rightarrow> u64 \<Rightarrow> led_value" where
  "gpio_value_of x bits =
     (let lit = zero_value\<lparr>unknown_fields := PATCH_RGB OR PATCH_TIMING,
            mode := (if bits \<noteq> 0 then LED_MODE_ON else LED_MODE_OFF), brightness := (if bits \<noteq> 0 then 1 else 0)\<rparr> in
      if bits = 1 then lit\<lparr>color := LED_COLOR_WHITE\<rparr>
      else if bits = 2 then lit\<lparr>color := second_color x\<rparr>
      else lit\<lparr>unknown_fields := unknown_fields lit OR PATCH_COLOR\<rparr>)"

text \<open>The line descriptor of a LED; every opened context has one.\<close>

definition led_line :: "led_gpio \<Rightarrow> nat \<Rightarrow> nat option" where
  "led_line x k = gb_line_fd (gp_banks x ! bank_for_led x k)"

definition gpio_read :: "env \<Rightarrow> led_gpio \<Rightarrow> u8 \<Rightarrow> (errno + led_value) io" where
  "gpio_read E x i =
     (case gpio_target x i of None \<Rightarrow> fail EINVAL
      | Some k \<Rightarrow>
          bindE (gpio_verify E x) (\<lambda>_.
            case led_line x k of None \<Rightarrow> fail EINVAL
            | Some fd \<Rightarrow>
                bindE (gpio_get_values E fd (pair_mask (index_for_led x k))) (\<lambda>bits.
                  ok (gpio_value_of x (drop_bit (index_for_led x k) bits AND 3)))))"

definition wanted_on :: "led_patch \<Rightarrow> led_value \<Rightarrow> bool" where
  "wanted_on p before =
     (if has p PATCH_MODE then mode (pv p) = LED_MODE_ON
      else if has p PATCH_BRIGHTNESS then brightness (pv p) \<noteq> 0 else brightness before \<noteq> 0)"

definition wanted_channel :: "led_patch \<Rightarrow> led_value \<Rightarrow> nat" where
  "wanted_channel p before =
     (if has p PATCH_COLOR then selected_channel (color (pv p))
      else if unknown_fields before AND PATCH_COLOR \<noteq> 0 then 1 else selected_channel (color before))"

definition pair_values :: "nat \<Rightarrow> bool \<Rightarrow> nat \<Rightarrow> u64" where
  "pair_values offset lit channel = (if lit then push_bit (offset + channel - 1) 1 else 0)"

definition gpio_meets :: "led_patch \<Rightarrow> bool \<Rightarrow> nat \<Rightarrow> led_value \<Rightarrow> bool" where
  "gpio_meets p lit channel after \<longleftrightarrow>
     brightness after = (if lit then 1 else 0) \<and>
     (has p PATCH_COLOR \<longrightarrow> unknown_fields after AND PATCH_COLOR = 0 \<and> selected_channel (color after) = channel)"

definition gpio_apply :: "env \<Rightarrow> led_gpio \<Rightarrow> u8 \<Rightarrow> led_patch \<Rightarrow> (errno + led_value) io" where
  "gpio_apply E x i p =
     (case gpio_target x i of None \<Rightarrow> fail EINVAL
      | Some k \<Rightarrow>
          (case led_validate_target_patch (Some (gpio_leds x ! k)) p of Some e \<Rightarrow> fail e
           | None \<Rightarrow>
               if \<not> la_force (gp_access x) \<or> \<not> la_apply (gp_access x) then fail EPERM
               else if has p PATCH_MODE \<and> has p PATCH_BRIGHTNESS \<and> (mode (pv p) = LED_MODE_ON) \<noteq> (brightness (pv p) \<noteq> 0)
               then fail ENOTSUP
               else
                 bindE (gpio_read E x i) (\<lambda>before.
                   let lit = wanted_on p before; channel = wanted_channel p before; offset = index_for_led x k in
                   if has p PATCH_COLOR \<and> \<not> lit then fail ENOTSUP
                   else case led_line x k of None \<Rightarrow> fail EINVAL
                     | Some fd \<Rightarrow> do {
                         r \<leftarrow> gpio_set_config E fd (pair_mask offset) (pair_values offset lit channel);
                         (case r of Some e \<Rightarrow> fail e
                          | None \<Rightarrow>
                              bindE (gpio_read E x i) (\<lambda>after.
                                if gpio_meets p lit channel after then ok after else fail EIO)) })))"


section \<open>Every descriptor is accounted for\<close>

fun acquired :: "event \<Rightarrow> nat multiset" where
  "acquired (Open_device _ (Inr fd)) = {#fd#}"
| "acquired (Open_lock _ (Inr fd)) = {#fd#}"
| "acquired (Gpio (Gpio_get_line _ _ (Inr fd))) = {#fd#}"
| "acquired _ = {#}"

fun released :: "event \<Rightarrow> nat multiset" where
  "released (Close_fd fd) = {#fd#}"
| "released _ = {#}"

definition total :: "(event \<Rightarrow> nat multiset) \<Rightarrow> trace \<Rightarrow> nat multiset" where
  "total f es = sum_list (map f es)"

lemma total_simps [simp]: "total f [] = {#}" "total f (e # es) = f e + total f es" "total f (es @ fs) = total f es + total f fs"
  by (simp_all add: total_def)

definition some_fd :: "nat option \<Rightarrow> nat multiset" where
  "some_fd fd = (case fd of None \<Rightarrow> {#} | Some n \<Rightarrow> {#n#})"

lemma some_fd_simps [simp]: "some_fd None = {#}" "some_fd (Some n) = {#n#}"
  by (simp_all add: some_fd_def)

definition bank_fds :: "gpio_bank \<Rightarrow> nat multiset" where
  "bank_fds b = some_fd (gb_line_fd b) + some_fd (gb_chip_fd b)"

definition gpio_fds :: "led_gpio \<Rightarrow> nat multiset" where
  "gpio_fds x = sum_list (map bank_fds (gp_banks x)) + some_fd (gp_lock_fd x)"

text \<open>What is held afterwards is what was held before and acquired, less what was released.\<close>

definition balanced :: "nat multiset \<Rightarrow> nat multiset \<Rightarrow> trace \<Rightarrow> bool" where
  "balanced before after es \<longleftrightarrow> before + total acquired es = after + total released es"

lemma balanced_nil [simp]: "balanced b b []"
  by (simp add: balanced_def)

lemma balanced_append: "balanced a b es \<Longrightarrow> balanced b c fs \<Longrightarrow> balanced a c (es @ fs)"
  by (simp add: balanced_def) (metis add.assoc add.left_commute)

definition silent :: "event \<Rightarrow> bool" where
  "silent e \<longleftrightarrow> acquired e = {#} \<and> released e = {#}"

lemma silent_total: "list_all silent es \<Longrightarrow> total acquired es = {#} \<and> total released es = {#}"
  by (induction es) (auto simp: silent_def)

lemma silent_balanced: "list_all silent es \<Longrightarrow> balanced b b es"
  by (simp add: balanced_def silent_total)


lemma observation_silent: "observation e \<Longrightarrow> silent e"
  by (cases e) (simp_all add: silent_def)

lemma silent_property: "emits silent (dt_property E root node name n)"
  unfolding dt_property_def read_binary_def calls by (intro emits_intros) (simp add: silent_def)

lemma silent_banks: "emits silent (verify_banks E root wiring index bs)"
  by (induction bs arbitrary: index) (auto simp: property_string_def intro!: emits_intros silent_property)

lemma silent_tree: "emits silent (verify_tree E x)"
  unfolding verify_tree_def property_string_def
  by (intro emits_intros silent_property silent_banks observes [OF observes_identity observation_silent])

lemma silent_chip_path: "emits silent (chip_path E root name)"
  unfolding chip_path_def calls by (intro emits_intros) (simp_all add: silent_def)

lemma silent_assign: "emits silent (assign_chips E root names bs)"
  by (induction names arbitrary: bs) (auto intro!: emits_intros silent_chip_path)

lemma silent_lines: "emits silent (lines_unused E fd ns)"
  by (induction ns) (auto simp: calls silent_def intro!: emits_intros)

lemma silent_chipinfo: "emits silent (gpio_chipinfo E fd)"
  by (auto simp: calls silent_def intro!: emits_intros)

lemma silent_chips: "emits silent (verify_chips E root bs)"
  by (induction bs) (auto intro!: emits_intros silent_chip_path silent_chipinfo)

lemma silent_gpio_verify: "emits silent (gpio_verify E x)"
  unfolding gpio_verify_def by (intro emits_intros silent_tree silent_chips observes [OF observe_processes observation_silent])

abbreviation moves :: "nat multiset \<Rightarrow> ('c \<Rightarrow> nat multiset) \<Rightarrow> ('r \<times> 'c) io \<Rightarrow> bool" where
  "moves before held m \<equiv> seg (\<lambda>r es. balanced before (held (snd r)) es) m"

text \<open>A step that holds nothing new, and a step that acquires one descriptor.\<close>

lemma moves_tryC:
  assumes m: "emits silent m" and c: "held c = X" and f: "\<And>x. moves X held (f x)"
  shows "moves X held (tryC m c f)"
proof (rule seg_tryC [OF seg_appends [OF m]], goal_cases)
  case (1 e es)
  then show ?case using c silent_balanced by auto
next
  case (2 y es)
  then show ?case by (intro seg_mono [OF f] balanced_append [OF silent_balanced])
qed

lemma moves_acquire:
  assumes m: "seg (\<lambda>r es. balanced {#} (case r of Inl _ \<Rightarrow> {#} | Inr fd \<Rightarrow> {#fd#}) es) m"
    and c: "held c = X" and f: "\<And>fd. moves (add_mset fd X) held (f fd)"
  shows "moves X held (tryC m c f)"
proof (rule seg_tryC [OF m], goal_cases)
  case (1 e es)
  then show ?case using c by (simp add: balanced_def)
next
  case (2 fd es)
  then have "balanced X (add_mset fd X) es" by (simp add: balanced_def)
  then show ?case by (rule seg_mono [OF f, OF balanced_append])
qed

definition idle :: "gpio_bank \<Rightarrow> bool" where
  "idle b \<longleftrightarrow> gb_chip_fd b = None \<and> gb_line_fd b = None"

lemma idle_fds: "list_all idle bs \<Longrightarrow> sum_list (map bank_fds bs) = {#}"
  by (induction bs) (auto simp: idle_def bank_fds_def)

lemma seg_open_chip: "seg (\<lambda>r es. balanced {#} (case r of Inl _ \<Rightarrow> {#} | Inr fd \<Rightarrow> {#fd#}) es) (open_chip E path)"
proof -
  have "seg (\<lambda>r es. balanced {#fd#} (case r of Inl _ \<Rightarrow> {#} | Inr fd \<Rightarrow> {#fd#}) es) (do {
       st \<leftarrow> fstat E fd;
       (case st of Inl e \<Rightarrow> do { close_fd fd; fail e }
        | Inr st \<Rightarrow> if sx_device st = None then do { close_fd fd; fail ENODEV } else ok fd) })" for fd
    by (intro seg_bind [OF seg_fstat] seg_case_sum seg_if seg_return seg_bind [OF seg_close_fd]) (auto simp: balanced_def)
  note inspect = this
  have "seg (\<lambda>r es. balanced {#} (case r of Inl _ \<Rightarrow> {#} | Inr fd \<Rightarrow> {#fd#}) es) (open_device E path)"
    unfolding open_device_def by (rule seg_prim) (auto simp: balanced_def split: sum.split)
  then show ?thesis
    unfolding open_chip_def
    by (rule seg_bindE) (auto intro: seg_mono [OF inspect] balanced_append)
qed

lemma seg_get_line: "seg (\<lambda>r es. balanced {#} (case r of Inl _ \<Rightarrow> {#} | Inr fd \<Rightarrow> {#fd#}) es) (gpio_get_line E fd ns)"
  unfolding gpio_get_line_def by (rule seg_prim) (auto simp: balanced_def split: sum.split)

lemma moves_request_bank: "idle b \<Longrightarrow> moves {#} bank_fds (request_bank E root b)"
  unfolding request_bank_def Let_def
  by (intro seg_if seg_return moves_acquire [OF seg_open_chip] moves_acquire [OF seg_get_line]
      moves_tryC [OF silent_chipinfo] moves_tryC [OF silent_lines])
    (auto simp: idle_def bank_fds_def balanced_def add_mset_commute)

lemma moves_request_banks:
  "list_all idle bs \<Longrightarrow> moves {#} (\<lambda>bs. sum_list (map bank_fds bs)) (request_banks E root bs)"
proof (induction bs)
  case Nil
  show ?case by (auto intro: seg_return)
next
  case (Cons b bs)
  then have b: "idle b" "sum_list (map bank_fds bs) = {#}" and rest: "moves {#} (\<lambda>bs. sum_list (map bank_fds bs)) (request_banks E root bs)"
    by (auto simp: idle_fds)
  have more: "balanced {#} (u + v) (es @ fs)" if "balanced {#} u es" "balanced {#} v fs" for u v es fs
    using that by (simp add: balanced_def)
  show ?case
    unfolding request_banks.simps
    by (rule seg_bind [OF moves_request_bank [OF b(1)]], intro seg_case_prod seg_case_sum seg_bind [OF rest] seg_return)
      (use b(2) in \<open>auto intro: more\<close>)
qed

lemma assign_chip_idle: "assign_chip root name device node bs = Inr cs \<Longrightarrow> list_all idle bs \<Longrightarrow> list_all idle cs"
proof (induction bs arbitrary: cs)
  case (Cons b bs)
  then show ?case
    by (cases "assign_chip root name device node bs") (auto simp: idle_def split: if_splits)
qed simp

lemma assign_chips_idle:
  "list_all idle bs \<Longrightarrow> seg (\<lambda>r es. list_all silent es \<and> (\<forall>cs. r = Inr cs \<longrightarrow> list_all idle cs)) (assign_chips E root names bs)"
proof (induction names arbitrary: bs)
  case (Cons name names)
  let ?Q = "\<lambda>r es. list_all silent es \<and> (\<forall>cs. r = Inr cs \<longrightarrow> list_all idle cs)"
  have assigned: "seg ?Q (bindE (ret (assign_chip root name device node bs)) (\<lambda>bs. assign_chips E root names bs))" for device node
    using assign_chip_idle [OF _ Cons.prems, of root name device node]
    by (cases "assign_chip root name device node bs") (auto simp: bindE_ret intro: seg_return Cons.IH)
  show ?case
    unfolding assign_chips.simps
    by (intro seg_if Cons.IH Cons.prems seg_bindE [OF seg_appends [OF silent_chip_path]] seg_case_prod)
      (auto intro: seg_mono [OF assigned])
qed (auto intro: seg_return)

lemma moves_discover:
  assumes x: "list_all idle (gp_banks x)"
  shows "moves (gpio_fds x) gpio_fds (gpio_discover E x)"
proof -
  have fds: "gpio_fds x = some_fd (gp_lock_fd x)" using x by (simp add: gpio_fds_def idle_fds)
  have request: "moves (gpio_fds x) gpio_fds (do { (r, bs) \<leftarrow> request_banks E root bs; ret (r, x\<lparr>gp_banks := bs\<rparr>) })"
    if "list_all idle bs" for root bs
    by (rule seg_bind [OF moves_request_banks [OF that]], intro seg_case_prod seg_return)
      (auto simp: idle_fds [OF x] balanced_def gpio_fds_def)
  have names: "list_all silent [List_dir d r]" for d r by (simp add: silent_def)
  show ?thesis
    unfolding gpio_discover_def
  proof (rule seg_bind [OF seg_list_dir], intro seg_case_sum seg_return, goal_cases)
    case (1 r es e)
    then show ?case by (auto intro: silent_balanced [OF names])
  next
    case (2 r es ns)
    then have es: "balanced (gpio_fds x) (gpio_fds x) es" by (auto intro: silent_balanced [OF names])
    show ?case
    proof (rule seg_tryC [OF assign_chips_idle [OF x]], goal_cases)
      case (1 e fs)
      then show ?case by (simp add: balanced_append [OF es] silent_balanced)
    next
      case (2 bs fs)
      then have "list_all idle bs" "balanced (gpio_fds x) (gpio_fds x) (es @ fs)"
        by (auto intro: balanced_append [OF es] silent_balanced)
      then show ?case by (auto intro: seg_mono [OF request] balanced_append simp flip: append_assoc)
    qed
  qed
qed

lemma moves_lock:
  assumes x: "gp_lock_fd x = None"
  shows "moves (gpio_fds x) gpio_fds (lock_controller E x)"
proof -
  have opened: "seg (\<lambda>r es. balanced {#} (case r of Inl _ \<Rightarrow> {#} | Inr fd \<Rightarrow> {#fd#}) es) (open_lock E q)" for q
    unfolding open_lock_def by (rule seg_prim) (auto simp: balanced_def split: sum.split)
  have stat: "emits silent (fstat E fd)" and lock: "emits silent (flock E fd True)" for fd
    unfolding calls by (auto simp: silent_def intro!: emits_intros)
  show ?thesis
    unfolding lock_controller_def Let_def
    by (intro moves_acquire [OF opened refl] moves_tryC [OF stat] seg_if seg_return seg_bind [OF seg_appends [OF lock]])
      (use x in \<open>auto simp: gpio_fds_def silent_balanced\<close>)
qed


lemma seg_gpio_close: "seg (\<lambda>_ es. balanced (gpio_fds x) {#} es) (gpio_close x)"
proof -
  have one: "seg (\<lambda>_ es. balanced (some_fd fd) {#} es) (close_some fd)" for fd
    unfolding close_some_def by (intro seg_case_option seg_return seg_mono [OF seg_close_fd]) (auto simp: balanced_def)
  have more: "balanced (a + b) {#} (es @ fs)" if "balanced a {#} es" "balanced b {#} fs" for a b es fs
  proof -
    have "(a + total acquired es) + (b + total acquired fs) = total released es + total released fs"
      using that by (simp add: balanced_def)
    then show ?thesis by (simp add: balanced_def ac_simps)
  qed
  have bank: "seg (\<lambda>_ es. balanced (bank_fds b) {#} es) (do { close_some (gb_line_fd b); close_some (gb_chip_fd b) })" for b
    unfolding bank_fds_def by (rule seg_bind [OF one], rule seg_mono [OF one]) (rule more)
  have banks: "seg (\<lambda>_ es. balanced (sum_list (map bank_fds bs)) {#} es)
      (each (\<lambda>b. do { close_some (gb_line_fd b); close_some (gb_chip_fd b) }) bs)" for bs
  proof (induction bs)
    case (Cons b bs)
    show ?case
      unfolding each.simps by (rule seg_bind [OF bank], rule seg_bind [OF Cons.IH], rule seg_return) (simp add: more)
  qed (auto intro: seg_return)
  have unlock: "seg (\<lambda>_ es. balanced {#fd#} {#} es) (do { flock_un fd; close_fd fd })" for fd
    unfolding flock_un_def close_fd_def
    by (rule seg_bind [OF seg_prim [where P = "\<lambda>_ es. es = [Flock_un fd]"]]) (auto simp: balanced_def intro: seg_prim)
  have "seg (\<lambda>_ es. balanced (some_fd lock) {#} es) (case lock of None \<Rightarrow> ret () | Some fd \<Rightarrow> do { flock_un fd; close_fd fd })" for lock
    by (cases lock) (auto intro: seg_return unlock)
  then show ?thesis
    unfolding gpio_close_def gpio_fds_def
    by (intro seg_bind [OF banks] seg_mono [OF _ more]) auto
qed


lemma seg_quiet:
  assumes "emits silent m" "\<And>x. seg (\<lambda>r es. balanced {#} (case r of Inl _ \<Rightarrow> {#} | Inr x \<Rightarrow> F x) es) (f x)"
  shows "seg (\<lambda>r es. balanced {#} (case r of Inl _ \<Rightarrow> {#} | Inr x \<Rightarrow> F x) es) (bindE m f)"
  by (rule seg_bindE [OF seg_appends [OF assms(1)]]) (auto simp: silent_balanced intro!: seg_mono [OF assms(2)] balanced_append [OF silent_balanced])

text \<open>
  Opening the GPIO back end never leaks or double-closes a descriptor, whatever the kernel answers: when it
  fails, every descriptor it got (chips, line requests, lock) has been closed as often as it was acquired; when it
  succeeds, exactly the descriptors of the returned context are still open, and closing releases exactly those.
\<close>

theorem gpio_open_accounts:
  "\<exists>es. snd (run_state (gpio_open E ac) h) = h @ es \<and>
     (case fst (run_state (gpio_open E ac) h) of
        Inl _ \<Rightarrow> total acquired es = total released es
      | Inr x \<Rightarrow> total acquired es = gpio_fds x + total released es \<and>
          (\<exists>fs. snd (run_state (gpio_close x) (h @ es)) = h @ es @ fs \<and> total acquired (es @ fs) = total released (es @ fs)))"
proof -
  let ?Q = "\<lambda>r es. balanced {#} (case r of Inl _ \<Rightarrow> {#} | Inr x \<Rightarrow> gpio_fds x) es"
  have start: "moves {#} gpio_fds (gpio_start E x)" if x: "list_all idle (gp_banks x)" "gp_lock_fd x = None" for x
  proof -
    have none: "gpio_fds x = {#}" using x by (simp add: gpio_fds_def idle_fds)
    have lock: "seg (\<lambda>r es. balanced {#} (gpio_fds (snd r)) es \<and> gp_banks (snd r) = gp_banks x) (lock_controller E x)"
    proof (rule seg_conj)
      show "moves {#} gpio_fds (lock_controller E x)" using moves_lock [OF x(2)] none by simp
      show "seg (\<lambda>r es. gp_banks (snd r) = gp_banks x) (lock_controller E x)"
        unfolding lock_controller_def Let_def open_lock_def fstat_def flock_def
        by (intro seg_tryC [OF seg_prim] seg_if seg_return seg_bind [OF seg_prim]) auto
    qed
    have found: "moves {#} gpio_fds (thenC (lock_controller E x) (\<lambda>_ x. gpio_discover E x))"
      by (rule seg_thenC [OF lock]) (auto intro!: seg_mono [OF moves_discover] balanced_append simp: x(1))
    show ?thesis
      unfolding gpio_start_def
      by (intro moves_tryC [OF silent_tree] moves_tryC [OF observes [OF observe_processes observation_silent]] found none)
  qed
  have finish: "seg (\<lambda>r' es'. ?Q r' (es @ es')) (case r of Inr _ \<Rightarrow> ok x | Inl e \<Rightarrow> do { gpio_close x; fail e })"
    if "balanced {#} (gpio_fds x) es" for r :: "errno + unit" and x es
    using that by (cases r) (auto intro!: seg_return seg_bind [OF seg_gpio_close] balanced_append)
  have path: "emits silent (realpath E p)" for p
    unfolding calls by (auto simp: silent_def intro!: emits_intros)
  have banks: "list_all idle bs" if "gpio_layout model = Some bs" for model bs
    using that by (auto simp: gpio_layout_def fresh_bank_def idle_def split: if_splits)
  have "seg ?Q (gpio_open E ac)"
    unfolding gpio_open_def gpio_open_internal_def
    by (intro seg_if seg_return seg_quiet path observes [OF observes_identity observation_silent] seg_case_option
        seg_bind [OF start] seg_case_prod finish) (auto intro: banks)
  then obtain es where es: "snd (run_state (gpio_open E ac) h) = h @ es" "?Q (fst (run_state (gpio_open E ac) h)) es"
    using segD [OF _ surjective_pairing] by fast
  have "\<exists>fs. snd (run_state (gpio_close x) g) = g @ fs \<and> balanced (gpio_fds x) {#} fs" for x g
    using segD [OF seg_gpio_close surjective_pairing] by fast
  with es show ?thesis
    by (auto simp: balanced_def split: sum.splits) (metis add.assoc add.commute append_assoc)
qed


section \<open>Only the two lines of the LED change\<close>

text \<open>An output configuration concerns the pair of lines of LED \<open>k\<close>, with at most one of the two driven high.\<close>

definition one_colour :: "nat \<Rightarrow> u64 \<Rightarrow> bool" where
  "one_colour n v \<longleftrightarrow> v \<in> {0, push_bit n 1, push_bit (n + 1) 1}"

fun pair_change :: "led_gpio \<Rightarrow> nat \<Rightarrow> event \<Rightarrow> bool" where
  "pair_change x k (Gpio (Gpio_set_config fd m v r)) \<longleftrightarrow>
     la_force (gp_access x) \<and> la_apply (gp_access x) \<and> led_line x k = Some fd \<and> m = pair_mask (index_for_led x k) \<and>
     one_colour (index_for_led x k) v"
| "pair_change x k _ = True"

fun no_config :: "event \<Rightarrow> bool" where
  "no_config (Gpio (Gpio_set_config _ _ _ _)) = False"
| "no_config _ = True"

lemma observation_no_config: "observation e \<Longrightarrow> no_config e"
  by (cases e) simp_all

lemma no_config_property: "emits no_config (dt_property E root node name n)" "emits no_config (property_string E root node name s)"
  unfolding property_string_def dt_property_def read_binary_def calls by (intro emits_intros; simp)+

lemma no_config_banks: "emits no_config (verify_banks E root wiring index bs)"
  by (induction bs arbitrary: index) (auto intro!: emits_intros no_config_property)

lemma no_config_tree: "emits no_config (verify_tree E x)"
  unfolding verify_tree_def
  by (intro emits_intros no_config_property no_config_banks observes [OF observes_identity observation_no_config])

lemma no_config_chip_path: "emits no_config (chip_path E root name)"
  unfolding chip_path_def calls by (intro emits_intros) simp_all

lemma no_config_chips: "emits no_config (verify_chips E root bs)"
  by (induction bs) (auto simp: calls intro!: emits_intros no_config_chip_path [unfolded calls])

lemma no_config_verify: "emits no_config (gpio_verify E x)"
  unfolding gpio_verify_def
  by (intro emits_intros no_config_tree no_config_chips observes [OF observe_processes observation_no_config])

lemma no_config_read: "emits no_config (gpio_read E x i)"
  unfolding gpio_read_def gpio_get_values_def by (intro emits_intros no_config_verify) simp_all

lemma no_config_open: "emits no_config (gpio_open E ac)"
proof -
  have assign: "emits no_config (assign_chips E root names bs)" for root names bs
    by (induction names arbitrary: bs) (auto intro!: emits_intros no_config_chip_path)
  have unused: "emits no_config (lines_unused E fd ns)" for fd ns
    by (induction ns) (auto simp: calls intro!: emits_intros)
  have request: "emits no_config (request_banks E root bs)" for root bs
    by (induction bs) (auto simp: request_bank_def open_chip_def Let_def calls intro!: emits_intros unused)
  show ?thesis
    unfolding gpio_open_def gpio_open_internal_def gpio_start_def lock_controller_def gpio_discover_def gpio_close_def close_some_def Let_def calls
    by (intro emits_intros assign request no_config_tree observes [OF observes_identity observation_no_config]
        observes [OF observe_processes observation_no_config]) simp_all
qed

lemma disjoint_pairs:
  assumes "j \<noteq> k" "bank_for_led x j = bank_for_led x k"
  shows "pair_mask (index_for_led x j) AND pair_mask (index_for_led x k) = 0"
proof (rule bit_eqI)
  fix n
  have three: "bit (3 :: int) m \<longleftrightarrow> m < 2" for m :: nat
    by (cases m rule: nat.exhaust; cases "m - 1") (auto simp: bit_Suc bit_numeral_rec)
  have apart: "index_for_led x j + 2 \<le> index_for_led x k \<or> index_for_led x k + 2 \<le> index_for_led x j"
    using assms by (auto simp: index_for_led_def bank_for_led_def split: if_splits)
  show "bit (pair_mask (index_for_led x j) AND pair_mask (index_for_led x k)) n \<longleftrightarrow> bit (0 :: u64) n"
    using apart by (auto simp: pair_mask_def bit_simps three)
qed

text \<open>
  \<^bold>\<open>C25.\<close>  Opening and reading never configure a line.  A change configures nothing without \<^verbatim>\<open>--force --apply\<close>, and
  otherwise at most once, as outputs, exactly the two lines of the requested LED, never driving both of its colours
  together; the lines of the other LEDs on that chip are disjoint from them.
\<close>

theorem gpio_changes_confined:
  assumes k: "gpio_target x i = Some k"
  shows "(\<exists>es. snd (run_state (gpio_open E ac) h) = h @ es \<and> list_all no_config es) \<and>
    (\<exists>es. snd (run_state (gpio_read E x i) h) = h @ es \<and> list_all no_config es) \<and>
    (\<exists>es. snd (run_state (gpio_apply E x i p) h) = h @ es \<and> list_all (pair_change x k) es \<and> length (filter (\<lambda>e. \<not> no_config e) es) \<le> 1) \<and>
    (\<forall>j. j \<noteq> k \<longrightarrow> bank_for_led x j = bank_for_led x k \<longrightarrow> pair_mask (index_for_led x j) AND pair_mask (index_for_led x k) = 0)"
proof -
  let ?Q = "\<lambda>_ es. list_all (pair_change x k) es \<and> length (filter (\<lambda>e. \<not> no_config e) es) \<le> 1"
  have quiet: "list_all (pair_change x k) es \<and> filter (\<lambda>e. \<not> no_config e) es = []" if "list_all no_config es" for es
  proof -
    have "no_config e \<Longrightarrow> pair_change x k e" for e by (cases "(x, k, e)" rule: pair_change.cases) auto
    with that show ?thesis by (auto simp: list_all_iff filter_empty_conv)
  qed
  have outputs: "one_colour n (pair_values n lit (wanted_channel p before))" for n lit before
    by (auto simp: one_colour_def pair_values_def wanted_channel_def selected_channel_def)
  have "seg ?Q (gpio_apply E x i p)"
    unfolding gpio_apply_def k option.case Let_def gpio_set_config_def
    by (intro seg_if seg_return seg_case_option seg_bindE [OF seg_appends [OF no_config_read]] seg_bind [OF seg_prim])
      (auto dest!: quiet simp: outputs)
  from segD [OF this surjective_pairing, of h]
    no_config_open [of E ac, unfolded appends_def, rule_format, of h] no_config_read [of E x i, unfolded appends_def, rule_format, of h]
  show ?thesis using disjoint_pairs by blast
qed


text \<open>
  A change that reports success was read back: the returned value is what reading the LED gives at the end of the
  run, with no configuration in between; it is lit exactly when the patch asks for it (or, when the patch names neither
  mode nor brightness, when it was lit before), and a requested colour is the channel that is lit.
\<close>

theorem gpio_apply_confirmed:
  assumes run: "run_state (gpio_apply E x i p) h = (Inr v, h')"
  shows "\<exists>before h1 g. run_state (gpio_read E x i) h = (Inr before, h1) \<and> run_state (gpio_read E x i) g = (Inr v, h') \<and>
     (\<exists>es. h' = g @ es \<and> list_all no_config es) \<and> brightness v = (if wanted_on p before then 1 else 0) \<and>
     (has p PATCH_COLOR \<longrightarrow> wanted_on p before \<and> selected_channel (color v) = selected_channel (color (pv p)))"
proof -
  let ?D = "\<lambda>before r h'. \<forall>v. r = Inr v \<longrightarrow> (\<exists>g. run_state (gpio_read E x i) g = (Inr v, h')) \<and>
     gpio_meets p (wanted_on p before) (wanted_channel p before) v \<and> (has p PATCH_COLOR \<longrightarrow> wanted_on p before)"
  have last: "wp (bindE (gpio_read E x i) (\<lambda>after. if gpio_meets p (wanted_on p before) (wanted_channel p before) after then ok after else fail EIO))
      (?D before) g" if "\<not> (has p PATCH_COLOR \<and> \<not> wanted_on p before)" for before g
    by (rule wp_bindEI, rule wpI) (use that in \<open>auto simp: wp_simps split: sum.split\<close>)
  have "wp (gpio_apply E x i p) (\<lambda>r h'. \<forall>v. r = Inr v \<longrightarrow> (\<exists>before h1. run_state (gpio_read E x i) h = (Inr before, h1) \<and> ?D before r h')) h"
    unfolding gpio_apply_def Let_def gpio_set_config_def
    apply (intro wp_optionI wp_ifI wp_returnI; (simp; fail)?)
    apply (rule wp_bindEI, rule wpI, rule wp_result_sumI, simp)
    apply (rule wp_mono [of _ "?D before" for before])
     apply (rule last wp_optionI wp_ifI wp_returnI wp_bindI wp_primI | assumption | (simp; fail))+
    done
  from wp_run [OF run this] obtain before h1 g
    where r: "run_state (gpio_read E x i) h = (Inr before, h1)" "run_state (gpio_read E x i) g = (Inr v, h')"
      "gpio_meets p (wanted_on p before) (wanted_channel p before) v" "has p PATCH_COLOR \<longrightarrow> wanted_on p before" by blast
  moreover obtain es where "h' = g @ es" "list_all no_config es"
    using no_config_read [of E x i, unfolded appends_def, rule_format, of g] r(2) by auto
  ultimately show ?thesis by (auto simp: gpio_meets_def wanted_channel_def)
qed

section \<open>Examples\<close>

text \<open>A DH2300 whose first LED shows white.\<close>

definition cells :: "nat list \<Rightarrow> string" where
  "cells ns = concat (map (\<lambda>n. [CHR 0x00, CHR 0x00, CHR 0x00, char_of n]) ns)"

definition example_wiring :: "nat list" where
  "example_wiring = concat (map (\<lambda>n. [7, n, 0]) [30, 31, 28, 29, 15, 13, 14, 12, 0, 0, 0, 0])"

definition example_tree :: "string \<Rightarrow> string option" where
  "example_tree path = map_of (map (\<lambda>(n, v). (''/sys/firmware/devicetree/base'' @ n, v))
     [(''/model'', ''UGREEN RK3576 DH2300 Board'' @ [CHR 0x00]), (''/compatible'', ''rockchip,rk3576'' @ [CHR 0x00]),
      (''/ug-led/compatible'', ''ug-rockchip-led'' @ [CHR 0x00]), (''/ug-led/status'', ''okay'' @ [CHR 0x00]),
      (''/ug-led/led_num'', cells [4]),
      (''/ug-led/leds-gpios'', cells example_wiring),
      (''/pinctrl/gpio@2ae20000/compatible'', ''rockchip,gpio-bank'' @ [CHR 0x00]),
      (''/pinctrl/gpio@2ae20000/phandle'', cells [7])]) path"

definition example_gpio_env :: env where
  "example_gpio_env = null_env\<lparr>
     e_read := (\<lambda>_ path. case example_tree path of None \<Rightarrow> Open_failed ENOENT | Some s \<Rightarrow> File_data s None),
     e_listdir := (\<lambda>_ d. if d = ''/sys/bus/gpio/devices'' then Inr [''gpiochip0''] else Inr []),
     e_realpath := (\<lambda>_ p. if p = ''/sys'' \<or> p = ''/dev'' then Inr p
                         else if p = ''/sys/bus/gpio/devices/gpiochip0'' then Inr ''/sys/devices/gpiochip0''
                         else Inr ''/sys/firmware/devicetree/base/pinctrl/gpio@2ae20000''),
     e_open_lock := (\<lambda>_ _. Inr 4), e_open_device := (\<lambda>_ _. Inr 5),
     e_fstat := (\<lambda>_ fd. Inr \<lparr>sx_regular = (fd = 4), sx_uid = 0, sx_nlink = 1, sx_mode = 0x180, sx_device = (if fd = 5 then Some (254, 0) else None)\<rparr>),
     e_gpio := \<lparr>e_gpio_chipinfo = (\<lambda>_ _. Inr (''gpiochip0'', 32)), e_gpio_lineinfo = (\<lambda>_ _ _. Inr 0),
       e_gpio_get_line = (\<lambda>_ _ _. Inr 6), e_gpio_get_values = (\<lambda>_ _ _. Inr 1), e_gpio_set_config = (\<lambda>_ _ _ _. None)\<rparr>\<rparr>"

definition example_gpio_on :: led_patch where
  "example_gpio_on = \<lparr>patch_fields = PATCH_MODE, pv = zero_value\<lparr>mode := LED_MODE_ON\<rparr>\<rparr>"


definition example_gpio_machine :: machine_identity where
  "example_gpio_machine = no_identity\<lparr>mi_source := ''devicetree'', mi_product_name := ''UGREEN RK3576 DH2300 Board'', mi_compatible := ''rockchip,rk3576''\<rparr>"

definition example_dh2300 :: led_gpio where
  "example_dh2300 = \<lparr>gp_identity = gpio_identity_of example_gpio_machine, gp_machine = example_gpio_machine, gp_access = full_access,
     gp_root = ''/sys'', gp_device_root = ''/dev'',
     gp_banks = [(fresh_bank ''/pinctrl/gpio@2ae20000'' [30, 31, 28, 29, 15, 13, 14, 12])
       \<lparr>gb_chip := ''gpiochip0'', gb_device := ''/sys/devices/gpiochip0'',
         gb_of_node := ''/sys/firmware/devicetree/base/pinctrl/gpio@2ae20000'', gb_chip_fd := Some 5, gb_line_fd := Some 6\<rparr>],
     gp_lock_fd = Some 4, gp_client_pid = 0\<rparr>"

lemma of_char_u32: "(of_char (char_of (n :: nat) :: char) :: u32) = of_nat (n mod 256)"
  by (metis of_char_of of_nat_of_char)

lemma example_wired: "bank_wired (cells example_wiring) 7 0 [30, 31, 28, 29, 15, 13, 14, 12]" "length (cells example_wiring) = 144"
  by (simp_all add: bank_wired_def be32_def cells_def example_wiring_def upt_rec of_char_u32)

lemma example_cells: "length (cells [n]) = 4" "be32 (cells [n]) 0 = of_nat (n mod 256)"
  by (simp_all add: be32_def cells_def of_char_u32)

lemma example_property:
  assumes "example_tree (''/sys/firmware/devicetree/base'' @ node @ ''/'' @ name) = Some s" "length s < n" "length (node @ name) < 4000"
  shows "fst (run_state (dt_property example_gpio_env ''/sys'' node name n) h) = Inr s"
  using assms by (simp add: dt_property_def read_binary_def binary_of_read_def example_gpio_env_def calls PATH_MAX_def)

lemma example_tree_lookups:
  "example_tree (''/sys/firmware/devicetree/base'' @ ''/ug-led'' @ ''/'' @ ''compatible'') = Some (''ug-rockchip-led'' @ [CHR 0x00])"
  "example_tree (''/sys/firmware/devicetree/base'' @ ''/ug-led'' @ ''/'' @ ''status'') = Some (''okay'' @ [CHR 0x00])"
  "example_tree (''/sys/firmware/devicetree/base'' @ ''/ug-led'' @ ''/'' @ ''led_num'') = Some (cells [4])"
  "example_tree (''/sys/firmware/devicetree/base'' @ ''/ug-led'' @ ''/'' @ ''leds-gpios'') = Some (cells example_wiring)"
  "example_tree (''/sys/firmware/devicetree/base'' @ ''/pinctrl/gpio@2ae20000'' @ ''/'' @ ''compatible'') = Some (''rockchip,gpio-bank'' @ [CHR 0x00])"
  "example_tree (''/sys/firmware/devicetree/base'' @ ''/pinctrl/gpio@2ae20000'' @ ''/'' @ ''phandle'') = Some (cells [7])"
  by (simp_all add: example_tree_def)

lemma example_gpio_identity: "fst (run_state (identity_read_at example_gpio_env ''/sys'') h) = Inr example_gpio_machine"
proof -
  have "text_of_raw True (''UGREEN RK3576 DH2300 Board'' @ [CHR 0x00]) = Inr ''UGREEN RK3576 DH2300 Board''"
    "compatible_of_raw 512 (''rockchip,rk3576'' @ [CHR 0x00]) = Inr ''rockchip,rk3576''" by code_simp+
  then show ?thesis
    by (simp add: identity_read_at_def identity_text_read_def raw_read_def raw_of_read_def example_gpio_env_def calls dt_identity_def
        compatible_read_def example_tree_def example_gpio_machine_def)
qed

lemma example_chip:
  "fst (run_state (chip_path example_gpio_env ''/sys'' ''gpiochip0'') h) =
     Inr (''/sys/devices/gpiochip0'', ''/sys/firmware/devicetree/base/pinctrl/gpio@2ae20000'')"
  by (simp add: chip_path_def Let_def example_gpio_env_def calls clipped_def PATH_MAX_def starts_with_def)

lemma wp_value: "fst (run_state m h) = x \<Longrightarrow> (\<And>h'. Q x h') \<Longrightarrow> wp m Q h"
  by (cases "run_state m h") (simp add: wp_def)

lemma example_gpio_leds: "gpio_leds example_dh2300 = gpio2"
proof -
  have "identity_model example_gpio_machine = ''DH2300''" by code_simp
  moreover have "led_profile_find ''DH2300'' (Some []) = Some (gpio_profile ''dh2300-gpio'' ''DH2300'' 2 gpio2 ''rockchip,rk3576'')"
    by (simp add: led_profile_find_def led_profiles_def mcu_profile_def legacy_def n76_profile_def gpio_profile_def)
  ultimately show ?thesis
    by (simp add: gpio_leds_def example_dh2300_def gpio_identity_of_def example_gpio_machine_def no_identity_def gpio_profile_def)
qed

lemma example_gpio_target:
  "gpio_target example_dh2300 0 = Some 0" "led_line example_dh2300 0 = Some 6" "index_for_led example_dh2300 0 = 0"
proof -
  have "length gpio2 = 4" "ld_id (gpio2 ! 0) = 0" by (simp_all add: gpio2_def gpio_led_def)
  moreover have "[0..<4 :: nat] = [0, 1, 2, 3]" by (simp add: upt_rec)
  ultimately show "gpio_target example_dh2300 0 = Some 0" by (simp add: gpio_target_def example_gpio_leds)
  show "led_line example_dh2300 0 = Some 6" "index_for_led example_dh2300 0 = 0"
    by (simp_all add: led_line_def bank_for_led_def index_for_led_def example_dh2300_def)
qed

lemma example_gpio_verify: "wp (gpio_verify example_gpio_env example_dh2300) (\<lambda>r _. r = Inr ()) h"
proof -
  have known: "wp (dt_property example_gpio_env ''/sys'' node name n) Q h"
    if "example_tree (''/sys/firmware/devicetree/base'' @ node @ ''/'' @ name) = Some s" "length s < n" "length (node @ name) < 4000"
      "\<And>h. Q (Inr s) h" for node name n s and Q :: "errno + string \<Rightarrow> trace \<Rightarrow> bool" and h
    by (rule wp_value [OF example_property [OF that(1-3)]]) (rule that(4))
  note lookup = example_tree_lookups [THEN known]
  have processes: "wp (process_owners_except example_gpio_env 0) (\<lambda>r _. r = Inr ()) h" for h
    by (rule wp_value [of _ _ "Inr ()"]) (simp_all add: process_owners_except_def calls example_gpio_env_def)
  have info: "wp (gpio_chipinfo example_gpio_env 5) (\<lambda>r _. r = Inr (''gpiochip0'', 32)) h" for h
    by (simp add: calls wp_simps example_gpio_env_def)
  have fields: "gp_client_pid example_dh2300 = 0" "gp_root example_dh2300 = ''/sys''" "gp_machine example_dh2300 = example_gpio_machine"
      "mi_source example_gpio_machine = ''devicetree''"
    by (simp_all add: example_dh2300_def example_gpio_machine_def)
  have chips: "wp (verify_chips example_gpio_env ''/sys'' (gp_banks example_dh2300)) (\<lambda>r _. r = Inr ()) h" for h
    by (auto simp: example_dh2300_def chip_is_def wp_simps intro!: wp_value [OF example_chip] wp_mono [OF info])
  have banks: "wp (verify_banks example_gpio_env ''/sys'' (cells example_wiring) 0 (gp_banks example_dh2300)) (\<lambda>r _. r = Inr ()) h" for h
    by (auto simp: example_dh2300_def fresh_bank_def property_string_def wp_simps example_cells example_wired intro!: lookup(5,6))
  have tree: "wp (verify_tree example_gpio_env example_dh2300) (\<lambda>r _. r = Inr ()) h" for h
    unfolding verify_tree_def fields property_string_def
    by (auto simp: wp_simps fields example_cells example_wired example_gpio_leds gpio2_def
        intro!: wp_value [OF example_gpio_identity] lookup(1-4) banks)
  show ?thesis
    unfolding gpio_verify_def fields
    by (auto simp: wp_simps intro!: wp_mono [OF processes] wp_mono [OF tree] chips)
qed

lemma example_gpio_read:
  "wp (gpio_read example_gpio_env example_dh2300 0) (\<lambda>r _. r = Inr (gpio_value_of example_dh2300 1)) h"
proof -
  have bits: "wp (gpio_get_values example_gpio_env 6 m) (\<lambda>r _. r = Inr 1) h" for m h
    by (simp add: calls wp_simps example_gpio_env_def)
  then show ?thesis
    unfolding gpio_read_def by (auto simp: wp_simps example_gpio_target intro!: wp_mono [OF example_gpio_verify] wp_mono [OF bits])
qed

theorem gpio_changes_confined_witness:
  "\<exists>es. snd (run_state (gpio_apply example_gpio_env example_dh2300 0 example_gpio_on) []) = [] @ es \<and>
     list_all (pair_change example_dh2300 0) es \<and> length (filter (\<lambda>e. \<not> no_config e) es) \<le> 1"
  using gpio_changes_confined [OF example_gpio_target(1), of example_gpio_env full_access "[]" example_gpio_on] by blast

theorem gpio_apply_confirmed_witness:
  "\<exists>v h'. run_state (gpio_apply example_gpio_env example_dh2300 0 example_gpio_on) [] = (Inr v, h') \<and> brightness v = 1"
proof -
  have eval: "led_validate_target_patch (Some (gpio_leds example_dh2300 ! 0)) example_gpio_on = None"
    unfolding example_gpio_leds by code_simp
  have access: "la_force (gp_access example_dh2300)" "la_apply (gp_access example_dh2300)"
    by (simp_all add: example_dh2300_def full_access_def)
  have fields: "has example_gpio_on PATCH_MODE" "\<not> has example_gpio_on PATCH_BRIGHTNESS" "\<not> has example_gpio_on PATCH_COLOR"
    by code_simp+
  have lit: "brightness (gpio_value_of example_dh2300 1) = 1" by (simp add: gpio_value_of_def Let_def)
  have on: "wanted_on example_gpio_on v" for v
    unfolding wanted_on_def using fields(1) by (simp add: example_gpio_on_def)
  have config: "wp (gpio_set_config example_gpio_env 6 m w) (\<lambda>r _. r = None) h" for m w h
    by (simp add: calls wp_simps example_gpio_env_def)
  have "wp (gpio_apply example_gpio_env example_dh2300 0 example_gpio_on) (\<lambda>r _. r = Inr (gpio_value_of example_dh2300 1)) []"
    unfolding gpio_apply_def Let_def
    by (auto simp: wp_simps eval access fields lit on example_gpio_target gpio_meets_def intro!: wp_mono [OF example_gpio_read] wp_mono [OF config])
  then obtain h' where run: "run_state (gpio_apply example_gpio_env example_dh2300 0 example_gpio_on) [] = (Inr (gpio_value_of example_dh2300 1), h')"
    by (auto simp: wp_def split: prod.splits)
  from gpio_apply_confirmed [OF run] run on show ?thesis by auto
qed

end
