(* ===== verification/Led_Wire.thy ===== *)
theory Led_Wire
  imports Led_Identity
begin

text \<open>
  The protocol between the LED holder and its clients (\<^verbatim>\<open>led/led_service.c\<close>): the wire format, the transfer of one
  frame, and the client.  A loop that waits for the other side takes a bound \<open>fuel\<close> on its number of rounds and
  returns \<open>None\<close> when the bound is used up.  \<open>message\<close> stands for the error text of a response, which the sources
  take from the back end or from \<^verbatim>\<open>strerror\<close>.
\<close>

section \<open>Error numbers\<close>

definition errno_numbers :: "(errno \<times> nat) list" where
  "errno_numbers = [(EPERM, 1), (ENOENT, 2), (ESRCH, 3), (EINTR, 4), (EIO, 5), (E2BIG, 7), (EAGAIN, 11), (ENOMEM, 12), (EACCES, 13),
     (EBUSY, 16), (EEXIST, 17), (ENODEV, 19), (ENOTDIR, 20), (EINVAL, 22), (EPIPE, 32), (ERANGE, 34), (ENAMETOOLONG, 36),
     (ENODATA, 61), (EPROTO, 71), (EBADMSG, 74), (EOVERFLOW, 75), (ENOTSUP, 95), (ECONNRESET, 104), (ENOTCONN, 107),
     (ETIMEDOUT, 110), (ECONNREFUSED, 111), (EINPROGRESS, 115), (ESTALE, 116), (EUCLEAN, 117)]"

definition errno_number :: "errno \<Rightarrow> nat" where
  "errno_number e = (case e of E_other n \<Rightarrow> n | _ \<Rightarrow> the (map_of errno_numbers e))"

definition errno_of_number :: "nat \<Rightarrow> errno" where
  "errno_of_number n = (case map_of (map (\<lambda>(e, k). (k, e)) errno_numbers) n of Some e \<Rightarrow> e | None \<Rightarrow> E_other n)"

section \<open>The wire format\<close>

abbreviation (input) MAGIC :: u32 where "MAGIC \<equiv> 0x55474c44"
abbreviation (input) VERSION :: u32 where "VERSION \<equiv> 1"
abbreviation (input) INFO :: u32 where "INFO \<equiv> 1"
abbreviation (input) READ :: u32 where "READ \<equiv> 2"
abbreviation (input) APPLY :: u32 where "APPLY \<equiv> 3"
abbreviation (input) BEGIN_IDENTIFY :: u32 where "BEGIN_IDENTIFY \<equiv> 4"
abbreviation (input) END_IDENTIFY :: u32 where "END_IDENTIFY \<equiv> 5"

text \<open>\<^verbatim>\<open>htonl\<close>: the four bytes of a word, most significant first, and back.\<close>

definition htonl :: "u32 \<Rightarrow> u8 list" where
  "htonl w = [ucast (drop_bit 24 w), ucast (drop_bit 16 w), ucast (drop_bit 8 w), ucast w]"

definition ntohl :: "u8 \<Rightarrow> u8 \<Rightarrow> u8 \<Rightarrow> u8 \<Rightarrow> u32" where
  "ntohl a b c d = push_bit 24 (ucast a) OR push_bit 16 (ucast b) OR push_bit 8 (ucast c) OR ucast d"

definition put_words :: "u32 list \<Rightarrow> u8 list" where
  "put_words ws = concat (map htonl ws)"

fun get_words :: "u8 list \<Rightarrow> u32 list" where
  "get_words (a # b # c # d # rest) = ntohl a b c d # get_words rest"
| "get_words _ = []"

text \<open>\<^verbatim>\<open>encode_value\<close> and \<^verbatim>\<open>decode_value\<close>: words 5 to 14.\<close>

definition value_words :: "led_value \<Rightarrow> u32 list" where
  "value_words v = [mode v, brightness v, red v, green v, blue v, on_ms v, off_ms v, color v, unknown_fields v, cached_fields v]"

definition decode_value :: "u32 list \<Rightarrow> led_value" where
  "decode_value w = zero_value\<lparr>mode := w ! 5, brightness := w ! 6, red := w ! 7, green := w ! 8, blue := w ! 9,
     on_ms := w ! 10, off_ms := w ! 11, color := w ! 12, unknown_fields := w ! 13, cached_fields := w ! 14\<rparr>"

text \<open>A text field of a response: copied by \<^verbatim>\<open>snprintf\<close> into zeroed memory.\<close>

definition text_field :: "nat \<Rightarrow> string \<Rightarrow> u8 list" where
  "text_field n s = (let t = take (n - 1) (c_str s) in map of_char t @ replicate (n - length t) 0)"

definition field_text :: "u8 list \<Rightarrow> string option" where
  "field_text f = (if 0 \<in> set f then Some (map (\<lambda>b. char_of (unat b)) (takeWhile (\<lambda>b. b \<noteq> 0) f)) else None)"

definition result_word :: "errno option \<Rightarrow> u32" where
  "result_word r = (case r of None \<Rightarrow> 0 | Some e \<Rightarrow> - of_nat (errno_number e))"

definition response_frame :: "(errno \<Rightarrow> string) \<Rightarrow> string \<Rightarrow> bool \<Rightarrow> errno + led_value \<Rightarrow> u8 list" where
  "response_frame message profile_id confirmed r =
     (case r of
        Inl e \<Rightarrow> put_words ([MAGIC, VERSION, result_word (Some e), if confirmed then 1 else 0] @ replicate 12 0) @
                 text_field 64 profile_id @ text_field 256 (message e)
      | Inr v \<Rightarrow> put_words ([MAGIC, VERSION, 0, if confirmed then 1 else 0, 0] @ value_words v @ [0]) @
                 text_field 64 profile_id @ text_field 256 [])"

section \<open>Transferring a frame\<close>

text \<open>
  One frame of \<open>length buffer\<close> bytes is sent or received before \<open>deadline\<close>; \<open>n\<close> bytes are already done.  Interrupted
  calls and \<^verbatim>\<open>EAGAIN\<close> are repeated.  \<open>stoppable\<close> tells whether the caller passed its stop flag.
\<close>

definition put_at :: "nat \<Rightarrow> u8 list \<Rightarrow> u8 list \<Rightarrow> u8 list" where
  "put_at n bs buffer = take n buffer @ bs @ drop (n + length bs) buffer"

definition move_bytes :: "env \<Rightarrow> nat \<Rightarrow> bool \<Rightarrow> u8 list \<Rightarrow> nat \<Rightarrow> (errno + nat \<times> u8 list) io" where
  "move_bytes E fd writing buffer n =
     (if writing then bindE (send_fd E fd (drop n buffer)) (\<lambda>k. ok (k, buffer))
      else bindE (recv_fd E fd (length buffer - n)) (\<lambda>bs.
        let bs = take (length buffer - n) bs in ok (length bs, put_at n bs buffer)))"

fun transfer_loop :: "env \<Rightarrow> nat \<Rightarrow> bool \<Rightarrow> bool \<Rightarrow> int \<Rightarrow> nat \<Rightarrow> u8 list \<Rightarrow> nat \<Rightarrow> ((errno + u8 list) option) io" where
  "transfer_loop E fd writing stoppable deadline 0 buffer n = ret None"
| "transfer_loop E fd writing stoppable deadline (Suc fuel) buffer n =
     (if n \<ge> length buffer then ret (Some (Inr buffer))
      else do {
        stop \<leftarrow> (if stoppable then poll_cancelled E else ret False);
        (if stop then ret (Some (Inl EINTR))
         else do {
           now \<leftarrow> monotonic_ms E;
           (case now of Inl e \<Rightarrow> ret (Some (Inl e))
            | Inr now \<Rightarrow>
                if deadline - now \<le> 0 then ret (Some (Inl ETIMEDOUT))
                else do {
                  ready \<leftarrow> poll_fd E fd writing (deadline - now);
                  (case ready of
                     Inl e \<Rightarrow> if e = EINTR then transfer_loop E fd writing stoppable deadline fuel buffer n else ret (Some (Inl e))
                   | Inr False \<Rightarrow> ret (Some (Inl ETIMEDOUT))
                   | Inr True \<Rightarrow> do {
                       r \<leftarrow> move_bytes E fd writing buffer n;
                       (case r of
                          Inl e \<Rightarrow> if e = EINTR \<or> e = EAGAIN then transfer_loop E fd writing stoppable deadline fuel buffer n
                                   else ret (Some (Inl e))
                        | Inr (k, buffer) \<Rightarrow>
                            if k = 0 then ret (Some (Inl ECONNRESET))
                            else transfer_loop E fd writing stoppable deadline fuel buffer (n + k)) }) }) }) })"

definition transfer :: "env \<Rightarrow> nat \<Rightarrow> nat \<Rightarrow> u8 list \<Rightarrow> bool \<Rightarrow> nat \<Rightarrow> bool \<Rightarrow> ((errno + u8 list) option) io" where
  "transfer E fuel fd buffer writing seconds stoppable = do {
     now \<leftarrow> monotonic_ms E;
     (case now of Inl e \<Rightarrow> ret (Some (Inl e))
      | Inr now \<Rightarrow> transfer_loop E fd writing stoppable (now + int seconds * 1000) fuel buffer 0) }"

section \<open>Requests\<close>

definition request_words :: "u32 \<Rightarrow> u32 \<Rightarrow> u32 list" where
  "request_words opcode i = [MAGIC, VERSION, opcode, i] @ replicate 12 0"

definition apply_request :: "u8 \<Rightarrow> led_patch \<Rightarrow> u32 list" where
  "apply_request i p = [MAGIC, VERSION, APPLY, ucast i, patch_fields p] @ take 8 (value_words (pv p)) @ [3, 0, 0]"

definition identify_request :: "u32 \<Rightarrow> u8 \<Rightarrow> u32 list" where
  "identify_request opcode i = (request_words opcode (ucast i))[13 := 3]"

text \<open>What the holder makes of an apply request.\<close>

definition request_patch :: "u32 list \<Rightarrow> led_patch" where
  "request_patch w = \<lparr>patch_fields = w ! 4, pv = (decode_value w)\<lparr>unknown_fields := 0, cached_fields := 0\<rparr>\<rparr>"

section \<open>The client\<close>

record service_client =
  sc_fd :: "nat option"
  sc_confirmed :: bool
  sc_access :: led_access
  sc_profile :: led_profile

text \<open>Result word, confirmation and value of a response from the expected holder.\<close>

definition read_answer :: "string \<Rightarrow> u8 list \<Rightarrow> (u32 \<times> bool \<times> led_value) option" where
  "read_answer profile_id frame =
     (let w = get_words (take 64 frame) in
      if w ! 0 \<noteq> MAGIC \<or> w ! 1 \<noteq> VERSION \<or> field_text (take 64 (drop 64 frame)) \<noteq> Some profile_id \<or>
         field_text (drop 128 frame) = None then None
      else Some (w ! 2, w ! 3 = 1, decode_value w))"

definition answer_result :: "u32 \<times> bool \<times> led_value \<Rightarrow> (errno + led_value) option" where
  "answer_result a =
     (case a of (result, confirmed, v) \<Rightarrow>
        if sint result > 0 then None
        else Some (if result \<noteq> 0 then Inl (errno_of_number (nat (- sint result)))
                   else if \<not> confirmed then Inl ENOTSUP else Inr v))"

definition disconnect :: "service_client \<Rightarrow> service_client io" where
  "disconnect k = do {
     (case sc_fd k of None \<Rightarrow> ret () | Some fd \<Rightarrow> close_fd fd);
     ret (k\<lparr>sc_fd := None, sc_confirmed := False\<rparr>) }"

text \<open>One request and its response.  A broken transfer or a response of another holder ends the session.\<close>

definition exchange :: "env \<Rightarrow> nat \<Rightarrow> u32 list \<Rightarrow> service_client \<Rightarrow> ((errno + led_value) option \<times> service_client) io" where
  "exchange E fuel w k =
     (case sc_fd k of None \<Rightarrow> ret (Some (Inl ENOTCONN), k)
      | Some fd \<Rightarrow> do {
          sent \<leftarrow> transfer E fuel fd (put_words w) True 2 False;
          received \<leftarrow> (case sent of Some (Inr _) \<Rightarrow> transfer E fuel fd (replicate 384 0) False 2 False | _ \<Rightarrow> ret sent);
          (case received of None \<Rightarrow> ret (None, k)
           | Some (Inl e) \<Rightarrow> do { k \<leftarrow> disconnect k; ret (Some (Inl e), k) }
           | Some (Inr frame) \<Rightarrow>
               (case read_answer (lp_id (sc_profile k)) frame of None \<Rightarrow> do { k \<leftarrow> disconnect k; ret (Some (Inl EPROTO), k) }
                | Some a \<Rightarrow>
                    (case answer_result a of None \<Rightarrow> do { k \<leftarrow> disconnect k; ret (Some (Inl EPROTO), k) }
                     | Some r \<Rightarrow> ret (Some r, k\<lparr>sc_confirmed := fst (snd a)\<rparr>)))) })"

definition service_close :: "service_client \<Rightarrow> unit io" where
  "service_close k = (case sc_fd k of None \<Rightarrow> ret () | Some fd \<Rightarrow> close_fd fd)"

definition connect_client :: "env \<Rightarrow> nat \<Rightarrow> nat \<Rightarrow> led_profile \<Rightarrow> led_access \<Rightarrow> ((errno + service_client) option) io" where
  "connect_client E fuel fd p ac = do {
     peer \<leftarrow> peer_credentials E fd;
     (if map_option fst peer \<noteq> Some 0 then do { close_fd fd; ret (Some (Inl EPERM)) }
      else do {
        let k = \<lparr>sc_fd = Some fd, sc_confirmed = False, sc_access = ac, sc_profile = p\<rparr>;
        timeout \<leftarrow> socket_timeout E fd 2;
        (r, k) \<leftarrow> (case timeout of Some e \<Rightarrow> ret (Some (Inl e), k) | None \<Rightarrow> exchange E fuel (request_words INFO 0) k);
        (case r of None \<Rightarrow> ret None
         | Some (Inr _) \<Rightarrow> ret (Some (Inr k))
         | Some (Inl e) \<Rightarrow> do { service_close k; ret (Some (Inl (if e = ETIMEDOUT then EBUSY else e))) }) }) }"

definition LED_SERVICE_SOCKET :: string where
  "LED_SERVICE_SOCKET = ''/run/ugreenctl-ledd.sock''"

definition socket_trusted :: "socket_stat \<Rightarrow> bool" where
  "socket_trusted st \<longleftrightarrow> so_socket st \<and> so_uid st = 0 \<and> so_mode st AND 0x3f = 0"

definition service_connect :: "env \<Rightarrow> nat \<Rightarrow> led_profile \<Rightarrow> led_access \<Rightarrow> ((errno + service_client) option) io" where
  "service_connect E fuel p ac = do {
     st \<leftarrow> lstat_socket E LED_SERVICE_SOCKET;
     (case st of Inl e \<Rightarrow> ret (Some (Inl e))
      | Inr st \<Rightarrow>
          if \<not> socket_trusted st then ret (Some (Inl EPERM))
          else do {
            fd \<leftarrow> socket_unix E;
            (case fd of Inl e \<Rightarrow> ret (Some (Inl e))
             | Inr fd \<Rightarrow> do {
                 r \<leftarrow> connect_unix E fd LED_SERVICE_SOCKET;
                 (case r of
                    Some e \<Rightarrow> do { close_fd fd; ret (Some (Inl (if e = EAGAIN \<or> e = EINPROGRESS then EBUSY else e))) }
                  | None \<Rightarrow> connect_client E fuel fd p ac) }) }) }"

definition service_identity_confirmed :: "service_client \<Rightarrow> bool" where
  "service_identity_confirmed k \<longleftrightarrow> sc_fd k \<noteq> None \<and> sc_confirmed k"

definition service_read :: "env \<Rightarrow> nat \<Rightarrow> u8 \<Rightarrow> service_client \<Rightarrow> ((errno + led_value) option \<times> service_client) io" where
  "service_read E fuel i k = exchange E fuel (request_words READ (ucast i)) k"

definition service_apply :: "env \<Rightarrow> nat \<Rightarrow> u8 \<Rightarrow> led_patch \<Rightarrow> service_client \<Rightarrow> ((errno + led_value) option \<times> service_client) io" where
  "service_apply E fuel i p k =
     (if \<not> la_force (sc_access k) \<or> \<not> la_apply (sc_access k) then ret (Some (Inl EPERM), k)
      else case led_validate_patch p of Some e \<Rightarrow> ret (Some (Inl e), k)
        | None \<Rightarrow> exchange E fuel (apply_request i p) k)"

definition identify_boundary :: "env \<Rightarrow> nat \<Rightarrow> u32 \<Rightarrow> u8 \<Rightarrow> service_client \<Rightarrow> ((errno + led_value) option \<times> service_client) io" where
  "identify_boundary E fuel opcode i k =
     (if \<not> la_force (sc_access k) \<or> \<not> la_apply (sc_access k) then ret (Some (Inl EPERM), k)
      else exchange E fuel (identify_request opcode i) k)"

fun service_wait :: "env \<Rightarrow> nat \<Rightarrow> unit io" where
  "service_wait E 0 = ret ()"
| "service_wait E (Suc n) = do {
     stop \<leftarrow> poll_cancelled E;
     (if stop then ret () else do { sleep_ms 100; service_wait E n }) }"

definition service_identify :: "env \<Rightarrow> nat \<Rightarrow> u8 \<Rightarrow> u32 \<Rightarrow> service_client \<Rightarrow> ((errno + unit) option \<times> service_client) io" where
  "service_identify E fuel i seconds k =
     (if seconds < 1 \<or> seconds > 60 then ret (Some (Inl EINVAL), k)
      else do {
        (r, k) \<leftarrow> identify_boundary E fuel BEGIN_IDENTIFY i k;
        (case r of None \<Rightarrow> ret (None, k)
         | Some (Inl e) \<Rightarrow> ret (Some (Inl e), k)
         | Some (Inr _) \<Rightarrow> do {
             service_wait E (unat seconds * 10);
             (r, k) \<leftarrow> identify_boundary E fuel END_IDENTIFY i k;
             (case r of None \<Rightarrow> ret (None, k)
              | Some (Inl e) \<Rightarrow> do { k \<leftarrow> disconnect k; ret (Some (Inl e), k) }
              | Some (Inr _) \<Rightarrow> ret (Some (Inr ()), k)) }) })"

section \<open>Reading a response back\<close>

lemma ntohl_htonl: "ntohl (ucast (drop_bit 24 w)) (ucast (drop_bit 16 w)) (ucast (drop_bit 8 w)) (ucast w) = w"
proof (rule bit_word_eqI)
  fix n assume "n < LENGTH(32)"
  consider "n < 8" | "8 \<le> n" "n < 16" | "16 \<le> n" "n < 24" | "24 \<le> n" by linarith
  then show "bit (ntohl (ucast (drop_bit 24 w)) (ucast (drop_bit 16 w)) (ucast (drop_bit 8 w)) (ucast w)) n = bit w n"
    using \<open>n < LENGTH(32)\<close> by cases (auto simp: ntohl_def bit_simps)
qed

lemma get_put_words [simp]: "get_words (put_words ws) = ws"
  by (induction ws) (simp_all add: put_words_def htonl_def ntohl_htonl)

lemma length_put_words [simp]: "length (put_words ws) = 4 * length ws"
  by (induction ws) (simp_all add: put_words_def htonl_def)

lemma length_text_field [simp]: "0 < n \<Longrightarrow> length (text_field n s) = n"
  by (simp add: text_field_def Let_def)

lemma unat_of_char_u8 [simp]: "unat (of_char c :: u8) = of_char c"
proof -
  have "unat (of_nat (of_char c) :: u8) = of_char c mod 256" by (simp add: unat_of_nat take_bit_eq_mod)
  then show ?thesis by (simp add: of_nat_of_char)
qed

lemma char_of_byte [simp]: "char_of (unat (of_char c :: u8)) = c"
  by simp

lemma of_char_zero: "(of_char c :: u8) = 0 \<longleftrightarrow> c = CHR 0x00"
proof
  assume "(of_char c :: u8) = 0"
  then have "c = char_of (unat (0 :: u8))" using char_of_byte [of c] by simp
  then show "c = CHR 0x00" by (simp add: char_of_def)
qed simp

lemma field_text_text_field: "0 < n \<Longrightarrow> field_text (text_field n s) = Some (take (n - 1) (c_str s))"
proof -
  assume n: "0 < n"
  let ?t = "take (n - 1) (c_str s)"
  have "c \<noteq> CHR 0x00" if "c \<in> set ?t" for c
    using that by (auto simp: c_str_def dest!: in_set_takeD set_takeWhileD)
  then have "takeWhile (\<lambda>b. b \<noteq> 0) (map of_char ?t @ replicate (n - length ?t) (0 :: u8)) = map of_char ?t"
    by (subst takeWhile_append2) (auto simp: of_char_zero takeWhile_replicate)
  with n show ?thesis by (auto simp: field_text_def text_field_def Let_def comp_def)
qed

definition plain_errno :: "errno \<Rightarrow> bool" where
  "plain_errno e \<longleftrightarrow> (case e of E_other n \<Rightarrow> 0 < n \<and> n < 2 ^ 31 \<and> n \<notin> snd ` set errno_numbers | _ \<Rightarrow> True)"

lemma errno_of_number_of: "plain_errno e \<Longrightarrow> errno_of_number (errno_number e) = e"
proof (cases e)
  case (E_other n)
  assume "plain_errno e"
  with E_other have "map_of (map (\<lambda>(e, k). (k, e)) errno_numbers) n = None"
    by (auto simp: plain_errno_def map_of_eq_None_iff image_iff split_beta) 
  with E_other show ?thesis by (simp add: errno_of_number_def errno_number_def)
qed (simp_all add: errno_of_number_def errno_number_def errno_numbers_def)

lemma errno_number_bounds: "plain_errno e \<Longrightarrow> 0 < errno_number e \<and> errno_number e < 2 ^ 31"
  by (cases e) (simp_all add: plain_errno_def errno_number_def errno_numbers_def)

lemma sint_minus_of_nat: "n < 2 ^ 31 \<Longrightarrow> sint (- of_nat n :: u32) = - int n"
proof -
  assume n: "n < 2 ^ 31"
  have "sint (- of_nat n :: u32) = sint (word_of_int (- int n) :: u32)" by simp
  also have "\<dots> = signed_take_bit 31 (- int n)" by (subst sint_sbintrunc') simp
  also have "\<dots> = - int n" using n by (simp add: signed_take_bit_int_eq_self)
  finally show ?thesis .
qed

section \<open>What a transfer moves\<close>

text \<open>The bytes the other side took from us and gave us through one descriptor.\<close>

definition sent :: "nat \<Rightarrow> trace \<Rightarrow> u8 list" where
  "sent fd es = concat (map (\<lambda>e. case e of Net (Send f bs (Inr k)) \<Rightarrow> (if f = fd then take k bs else []) | _ \<Rightarrow> []) es)"

definition received :: "nat \<Rightarrow> trace \<Rightarrow> u8 list" where
  "received fd es = concat (map (\<lambda>e. case e of Net (Recv f k (Inr bs)) \<Rightarrow> (if f = fd then take k bs else []) | _ \<Rightarrow> []) es)"

lemma sent_append [simp]: "sent fd (es @ fs) = sent fd es @ sent fd fs" "sent fd [] = []"
  by (simp_all add: sent_def)

lemma received_append [simp]: "received fd (es @ fs) = received fd es @ received fd fs" "received fd [] = []"
  by (simp_all add: received_def)

definition idle_peer :: "nat \<Rightarrow> trace \<Rightarrow> bool" where
  "idle_peer fd es \<longleftrightarrow> sent fd es = [] \<and> received fd es = []"

definition moved :: "nat \<Rightarrow> bool \<Rightarrow> nat \<Rightarrow> u8 list \<Rightarrow> u8 list \<Rightarrow> trace \<Rightarrow> bool" where
  "moved fd writing n buffer b es \<longleftrightarrow> length b = length buffer \<and> take n b = take n buffer \<and>
     (if writing then b = buffer \<and> sent fd es = drop n buffer \<and> received fd es = [] 
      else drop n b = received fd es \<and> sent fd es = [])"

lemma seg_quiet_calls:
  "seg (\<lambda>_ es. idle_peer fd es) (if s then poll_cancelled E else ret False)"
  "seg (\<lambda>_ es. idle_peer fd es) (monotonic_ms E)"
  "seg (\<lambda>_ es. idle_peer fd es) (poll_fd E f w t)"
  by (auto simp: calls idle_peer_def sent_def received_def intro!: seg_intros)

definition moved_once :: "nat \<Rightarrow> bool \<Rightarrow> nat \<Rightarrow> u8 list \<Rightarrow> errno + nat \<times> u8 list \<Rightarrow> trace \<Rightarrow> bool" where
  "moved_once fd writing n buffer r es \<longleftrightarrow>
     (case r of Inl _ \<Rightarrow> idle_peer fd es
      | Inr (k, b) \<Rightarrow>
          if writing then b = buffer \<and> sent fd es = take k (drop n buffer) \<and> received fd es = []
          else sent fd es = [] \<and> length (received fd es) = k \<and> n + k \<le> length buffer \<and> b = put_at n (received fd es) buffer)"

lemma seg_move_bytes:
  assumes n: "n < length buffer"
  shows "seg (moved_once fd writing n buffer) (move_bytes E fd writing buffer n)"
proof -
  have send: "seg (\<lambda>r es. es = [Net (Send fd bs r)]) (send_fd E fd bs)" for bs
    by (simp add: calls seg_prim)
  have recv: "seg (\<lambda>r es. es = [Net (Recv fd k r)]) (recv_fd E fd k)" for k
    by (simp add: calls seg_prim)
  show ?thesis
    unfolding move_bytes_def
    apply (rule seg_if)
     apply (rule seg_bindE [OF send])
      apply (simp add: moved_once_def idle_peer_def sent_def received_def)
     apply (rule seg_return)
     apply (simp add: moved_once_def idle_peer_def sent_def received_def)
    apply (rule seg_bindE [OF recv])
     apply (simp add: moved_once_def idle_peer_def sent_def received_def)
    apply (unfold Let_def, rule seg_return)
    using n apply (auto simp: moved_once_def idle_peer_def sent_def received_def)
    done
qed

lemma moved_step:
  assumes once: "moved_once fd writing n buffer (Inr (k, b)) es" and n: "n < length buffer"
    and rest: "moved fd writing (n + k) b b' fs"
  shows "moved fd writing n buffer b' (es @ fs)"
proof (cases writing)
  case True
  with once rest show ?thesis
    by (auto simp: moved_def moved_once_def) (metis append_take_drop_id drop_drop add.commute)
next
  case False
  let ?bs = "received fd es"
  from once False have b: "b = put_at n ?bs buffer" "length ?bs = k" "n + k \<le> length buffer" "sent fd es = []"
    by (auto simp: moved_once_def)
  then have "length b = length buffer" "take (n + k) b = take n buffer @ ?bs"
    by (auto simp: put_at_def)
  with rest False b have b': "length b' = length buffer" "take (n + k) b' = take n buffer @ ?bs" "drop (n + k) b' = received fd fs"
      "sent fd fs = []"
    by (auto simp: moved_def)
  then have "b' = take n buffer @ ?bs @ received fd fs" by (metis append_assoc append_take_drop_id)
  with b' n False b show ?thesis by (simp add: moved_def)
qed

lemma moved_idle: "moved fd writing n buffer b fs \<Longrightarrow> idle_peer fd es \<Longrightarrow> moved fd writing n buffer b (es @ fs)"
  by (simp add: moved_def idle_peer_def split: if_splits)

lemma seg_transfer_loop:
  "seg (\<lambda>r es. \<forall>b. r = Some (Inr b) \<longrightarrow> moved fd writing n buffer b es) (transfer_loop E fd writing stoppable deadline fuel buffer n)"
proof (induction fuel arbitrary: buffer n)
  case 0
  then show ?case by (simp add: seg_return)
next
  case (Suc fuel)
  have again: "seg (\<lambda>r es. \<forall>b. r = Some (Inr b) \<longrightarrow> moved fd writing n buffer b (fs @ es))
      (transfer_loop E fd writing stoppable deadline fuel buffer n)" if "idle_peer fd fs" for fs
    using that by (auto intro!: seg_mono [OF Suc.IH] moved_idle)
  note quiet = seg_quiet_calls [where fd = fd]
  show ?case
  proof (cases "length buffer \<le> n")
    case True
    then show ?thesis by (simp add: moved_def seg_return)
  next
    case False
    then have n: "n < length buffer" by simp
    have tail: "seg (\<lambda>r es. \<forall>b. r = Some (Inr b) \<longrightarrow> moved fd writing n buffer b (fs @ es))
        (do { r \<leftarrow> move_bytes E fd writing buffer n;
              (case r of
                 Inl e \<Rightarrow> if e = EINTR \<or> e = EAGAIN then transfer_loop E fd writing stoppable deadline fuel buffer n
                          else ret (Some (Inl e))
               | Inr (k, buffer) \<Rightarrow>
                   if k = 0 then ret (Some (Inl ECONNRESET))
                   else transfer_loop E fd writing stoppable deadline fuel buffer (n + k)) })" if "idle_peer fd fs" for fs
      apply (rule seg_bind [OF seg_move_bytes [OF n]])
      apply (intro seg_case_sum seg_case_prod seg_if seg_return)
         apply (rule seg_mono [OF Suc.IH])
      subgoal using that by (auto simp: moved_once_def intro!: moved_idle)
        apply simp
       apply simp
      apply (rule seg_mono [OF Suc.IH])
      using that n by (auto intro!: moved_idle [of _ _ _ _ _ "_ @ _"] intro: moved_step)
    show ?thesis
      unfolding transfer_loop.simps if_not_P [OF False]
      apply (rule seg_bind [OF quiet(1)], rule seg_if, simp add: seg_return)
      apply (rule seg_bind [OF quiet(2)], rule seg_case_sum, simp add: seg_return, rule seg_if, simp add: seg_return)
      apply (rule seg_bind [OF quiet(3)], rule seg_case_sum, rule seg_if)
      subgoal for stop es1 t es2 now r es3 e
        using again [of "es1 @ es2 @ es3"] by (simp add: idle_peer_def)
       apply (simp add: seg_return)
      subgoal for stop es1 t es2 now r es3 ready
        using tail [of "es1 @ es2 @ es3"] by (cases ready) (simp_all add: idle_peer_def seg_return)
      done
  qed
qed

text \<open>
  \<^bold>\<open>C32.\<close> A finished transfer moved every byte of the frame exactly once and in order, however the kernel split it and however
  often the calls were interrupted.
\<close>

theorem transfer_exact:
  assumes run: "run_state (transfer E fuel fd buffer writing seconds stoppable) h = (Some (Inr b), h')"
  shows "\<exists>es. h' = h @ es \<and> length b = length buffer \<and>
    (if writing then sent fd es = buffer \<and> received fd es = [] else received fd es = b \<and> sent fd es = [])"
proof -
  have "seg (\<lambda>r es. \<forall>b. r = Some (Inr b) \<longrightarrow> moved fd writing 0 buffer b es) (transfer E fuel fd buffer writing seconds stoppable)"
    unfolding transfer_def
    apply (rule seg_bind [OF seg_quiet_calls(2) [where fd = fd]], rule seg_case_sum, simp add: seg_return)
    apply (auto intro!: seg_mono [OF seg_transfer_loop] moved_idle)
    done
  from segD [OF this run] show ?thesis by (auto simp: moved_def)
qed

section \<open>Every transfer ends\<close>

text \<open>
  A transfer repeats interrupted calls only until its deadline.  \<open>K\<close> bounds how many calls fit into one millisecond of
  the monotonic clock.
\<close>

definition clock_runs :: "env \<Rightarrow> (trace \<Rightarrow> int) \<Rightarrow> nat \<Rightarrow> bool" where
  "clock_runs E now K \<longleftrightarrow> 0 < K \<and> (\<forall>h t. e_monotonic (e_sockets E) h = Inr t \<longrightarrow> t = now h) \<and>
     (\<forall>h es. now (h @ es) \<ge> now h + int (length es div K))"

lemma transfer_loop_returns:
  assumes clock: "clock_runs E now K" and fuel: "0 < fuel" "D * K < fuel + length es"
    and deadline: "deadline \<le> now h + int D"
  shows "wp (transfer_loop E fd writing stoppable deadline fuel buffer n) (\<lambda>r _. r \<noteq> None) (h @ es)"
  using fuel
proof (induction fuel arbitrary: buffer n es)
  case 0
  then show ?case by simp
next
  case (Suc fuel)
  have again: "wp (transfer_loop E fd writing stoppable deadline fuel b m) (\<lambda>r _. r \<noteq> None) (h @ es @ fs)"
    if "\<not> deadline - now (h @ es @ gs) \<le> 0" "length gs < length fs" for b m fs gs
  proof (rule Suc.IH)
    from clock have K: "0 < K" and runs: "now g + int (length fs div K) \<le> now (g @ fs)" for g fs
      by (auto simp: clock_runs_def)
    from runs [of h "es @ gs"] that(1) deadline have "(length es + length gs) div K < D" by simp
    with K have "length es + length gs < D * K" by (simp add: div_less_iff_less_mult)
    with Suc.prems that(2) show "0 < fuel" "D * K < fuel + length (es @ fs)" by auto
  qed
  have time: "t = now g" if "e_monotonic (e_sockets E) g = Inr t" for t g
    using clock that by (simp add: clock_runs_def)
  have stop: "wp (if stoppable then poll_cancelled E else ret False) (\<lambda>_ g. \<exists>gs. g = h @ es @ gs) (h @ es)"
    by (simp add: calls wp_simps)
  have move: "wp (move_bytes E fd writing buffer n) (\<lambda>_ h'. \<exists>e. h' = g @ [e]) g" for g
    unfolding move_bytes_def by (auto simp: calls wp_simps split: sum.split)
  have ready: "wp (do { ready \<leftarrow> poll_fd E fd writing (deadline - now (h @ es @ gs));
             (case ready of
                Inl e \<Rightarrow> if e = EINTR then transfer_loop E fd writing stoppable deadline fuel buffer n else ret (Some (Inl e))
              | Inr False \<Rightarrow> ret (Some (Inl ETIMEDOUT))
              | Inr True \<Rightarrow> do {
                  r \<leftarrow> move_bytes E fd writing buffer n;
                  (case r of
                     Inl e \<Rightarrow> if e = EINTR \<or> e = EAGAIN then transfer_loop E fd writing stoppable deadline fuel buffer n
                              else ret (Some (Inl e))
                   | Inr (k, buffer) \<Rightarrow>
                       if k = 0 then ret (Some (Inl ECONNRESET))
                       else transfer_loop E fd writing stoppable deadline fuel buffer (n + k)) }) })
          (\<lambda>r _. r \<noteq> None) (h @ es @ gs @ [x])" if "\<not> deadline - now (h @ es @ gs) \<le> 0" for gs x
    unfolding poll_fd_def
    apply (intro wp_bindI wp_primI wp_sumI wp_ifI wp_returnI)
      apply (simp add: again [OF that, of "gs @ [x, _]", simplified])
     apply simp
    subgoal for r b
      apply (cases b; simp only: bool.case)
       apply (rule wp_bindI, rule wp_mono [OF move])
       apply (auto simp: wp_simps intro!: again [OF that, of "gs @ [x, _, _]", simplified] split: sum.split)
      done
    done
  show ?case
    unfolding transfer_loop.simps
    apply (rule wp_ifI, rule wp_returnI, simp)
    apply (rule wp_bindI, rule wp_mono [OF stop], erule exE, simp only:)
    apply (rule wp_ifI, rule wp_returnI, simp)
    apply (unfold monotonic_ms_def, rule wp_bindI, simp only: wp_prim)
    apply (rule wp_sumI, rule wp_returnI, simp)
    apply (drule time)
    apply (simp only: append_assoc, rule wp_ifI, rule wp_returnI, simp)
    apply (rule ready)
    apply simp
    done
qed

lemma transfer_returns:
  assumes clock: "clock_runs E now K" and fuel: "seconds * 1000 * K < fuel"
  shows "wp (transfer E fuel fd buffer writing seconds stoppable) (\<lambda>r _. r \<noteq> None) h"
proof -
  have "deadline + int seconds * 1000 \<le> now h + int (seconds * 1000)" if "e_monotonic (e_sockets E) h = Inr deadline" for deadline
    using clock that by (simp add: clock_runs_def)
  then show ?thesis
    unfolding transfer_def monotonic_ms_def
    using transfer_loop_returns [OF clock, where h = h and D = "seconds * 1000" and es = "[_]"] fuel
    by (auto simp: wp_simps split: sum.split)
qed

text \<open>
  \<^bold>\<open>C33.\<close> A transfer ends: once the bound exceeds the number of calls that fit into the time limit, it is never used up.
\<close>

theorem transfer_terminates:
  assumes "clock_runs E now K" "seconds * 1000 * K < fuel"
  shows "\<exists>r h'. run_state (transfer E fuel fd buffer writing seconds stoppable) h = (Some r, h')"
proof -
  from transfer_returns [OF assms] have "wp (transfer E fuel fd buffer writing seconds stoppable) (\<lambda>r _. r \<noteq> None) h" .
  then show ?thesis by (auto simp: wp_def split: prod.splits)
qed

section \<open>Answers\<close>

text \<open>A value as the protocol carries it: the words of an N76 controller stay behind.\<close>

definition plain_value :: "led_value \<Rightarrow> bool" where
  "plain_value v \<longleftrightarrow> \<not> n76_mode_valid v \<and> \<not> unverified_write v \<and> n76_modes v = (0, 0) \<and> n76_version v = 0"

lemma decode_value_words: "plain_value v \<Longrightarrow> decode_value ([a, b, c, d, e] @ value_words v @ [f]) = v"
  by (simp add: decode_value_def value_words_def plain_value_def zero_value_def)

lemma read_frame:
  assumes "c_str i = i" "length i < 64" "length ws = 16" "ws ! 0 = MAGIC" "ws ! 1 = VERSION"
  shows "read_answer j (put_words ws @ text_field 64 i @ text_field 256 m) =
    (if j = i then Some (ws ! 2, ws ! 3 = 1, decode_value ws) else None)"
  using assms by (simp add: read_answer_def field_text_text_field Let_def)

text \<open>
  \<^bold>\<open>C36.\<close> What the holder encodes, its client decodes: the result of a request, error or value, survives the response
  frame, except that a success is no success while the holder's hardware identity is unconfirmed; and a client of
  another model rejects the frame.
\<close>

theorem answer_round_trip:
  assumes "c_str i = i" "length i < 64"
    and "case r of Inl e \<Rightarrow> plain_errno e | Inr v \<Rightarrow> plain_value v"
  shows "map_option answer_result (read_answer j (response_frame message i confirmed r)) =
    (if j \<noteq> i then None else Some (Some (if isl r \<or> confirmed then r else Inl ENOTSUP)))"
proof (cases r)
  case (Inl e)
  with assms(3) errno_number_bounds [of e] have "sint (result_word (Some e)) = - int (errno_number e)" "0 < errno_number e"
    by (auto simp: result_word_def sint_minus_of_nat)
  with Inl assms show ?thesis
    by (auto simp: response_frame_def read_frame answer_result_def errno_of_number_of)
next
  case (Inr v)
  with assms show ?thesis
    using decode_value_words [of v MAGIC VERSION 0 "if confirmed then 1 else 0" 0 0]
    by (auto simp: response_frame_def read_frame answer_result_def value_words_def)
qed

text \<open>The two outcomes of an exchange: an answer, or a session that is over.\<close>

definition answered :: "nat \<Rightarrow> u32 list \<Rightarrow> service_client \<Rightarrow> errno + led_value \<Rightarrow> service_client \<Rightarrow> trace \<Rightarrow> bool" where
  "answered fd w k r k' es \<longleftrightarrow> sent fd es = put_words w \<and> length (received fd es) = 384 \<and>
     (\<exists>a. read_answer (lp_id (sc_profile k)) (received fd es) = Some a \<and> answer_result a = Some r \<and>
        k' = k\<lparr>sc_confirmed := fst (snd a)\<rparr>)"

definition hung_up :: "nat \<Rightarrow> service_client \<Rightarrow> errno + led_value \<Rightarrow> service_client \<Rightarrow> trace \<Rightarrow> bool" where
  "hung_up fd k r k' es \<longleftrightarrow> isl r \<and> k' = k\<lparr>sc_fd := None, sc_confirmed := False\<rparr> \<and> (\<exists>fs. es = fs @ [Close_fd fd])"

lemma seg_transfer:
  "seg (\<lambda>r es. \<forall>b. r = Some (Inr b) \<longrightarrow> moved fd writing 0 buffer b es) (transfer E fuel fd buffer writing seconds stoppable)"
  unfolding transfer_def
  by (rule seg_bind [OF seg_quiet_calls(2) [where fd = fd]], rule seg_case_sum, simp add: seg_return)
    (auto intro!: seg_mono [OF seg_transfer_loop] moved_idle)

lemma seg_disconnect:
  "sc_fd k = Some fd \<Longrightarrow> seg (\<lambda>k' es. k' = k\<lparr>sc_fd := None, sc_confirmed := False\<rparr> \<and> es = [Close_fd fd]) (disconnect k)"
  unfolding disconnect_def by (auto intro!: seg_bind [OF seg_close_fd] seg_return)

lemma seg_exchange:
  assumes fd: "sc_fd k = Some fd"
  shows "seg (\<lambda>(r, k') es. \<forall>x. r = Some x \<longrightarrow> answered fd w k x k' es \<or> hung_up fd k x k' es) (exchange E fuel w k)"
proof -
  let ?Q = "\<lambda>(r, k') es. \<forall>x. r = Some x \<longrightarrow> answered fd w k x k' es \<or> hung_up fd k x k' es"
  have hang: "seg (\<lambda>r es. ?Q r (fs @ es)) (do { k \<leftarrow> disconnect k; ret (Some (Inl e), k) })" for fs e
    by (rule seg_bind [OF seg_disconnect [OF fd]], rule seg_return) (auto simp: hung_up_def)
  have both: "seg (\<lambda>r es. \<forall>b. r = Some (Inr b) \<longrightarrow> sent fd es = put_words w \<and> received fd es = b \<and> length b = 384)
      (do { s \<leftarrow> transfer E fuel fd (put_words w) True 2 False;
            (case s of Some (Inr _) \<Rightarrow> transfer E fuel fd (replicate 384 0) False 2 False | _ \<Rightarrow> ret s) })"
    apply (rule seg_bind [OF seg_transfer])
    subgoal for r es
      by (cases r; cases "the r") (auto simp: moved_def intro!: seg_return seg_mono [OF seg_transfer])
    done
  have "exchange E fuel w k = do {
      received \<leftarrow> do { s \<leftarrow> transfer E fuel fd (put_words w) True 2 False;
            (case s of Some (Inr _) \<Rightarrow> transfer E fuel fd (replicate 384 0) False 2 False | _ \<Rightarrow> ret s) };
      (case received of None \<Rightarrow> ret (None, k)
           | Some (Inl e) \<Rightarrow> do { k \<leftarrow> disconnect k; ret (Some (Inl e), k) }
           | Some (Inr frame) \<Rightarrow>
               (case read_answer (lp_id (sc_profile k)) frame of None \<Rightarrow> do { k \<leftarrow> disconnect k; ret (Some (Inl EPROTO), k) }
                | Some a \<Rightarrow>
                    (case answer_result a of None \<Rightarrow> do { k \<leftarrow> disconnect k; ret (Some (Inl EPROTO), k) }
                     | Some r \<Rightarrow> ret (Some r, k\<lparr>sc_confirmed := fst (snd a)\<rparr>)))) }"
    by (simp add: exchange_def fd bind_assoc)
  also have "seg ?Q \<dots>"
    apply (rule seg_bind [OF both])
    apply (intro seg_case_option seg_case_sum hang)
     apply (auto intro!: seg_return simp: answered_def)
    done
  finally show ?thesis .
qed

text \<open>
  \<^bold>\<open>C34.\<close> A broken exchange ends the session: either the holder took the whole request, gave a whole response that names the
  client's model, and this response is the result, or the client closed the connection.
\<close>

theorem exchange_outcome:
  assumes "sc_fd k = Some fd" "run_state (exchange E fuel w k) h = ((Some r, k'), h')"
  shows "\<exists>es. h' = h @ es \<and> (answered fd w k r k' es \<or> hung_up fd k r k' es)"
  using segD [OF seg_exchange [OF assms(1)] assms(2)] by auto

lemma exchange_returns:
  assumes "clock_runs E now K" "2000 * K < fuel"
  shows "wp (exchange E fuel w k) (\<lambda>r _. fst r \<noteq> None) h"
proof -
  have move: "wp (transfer E fuel fd b wr 2 False) (\<lambda>r _. r \<noteq> None) h" for fd b wr h
    by (rule transfer_returns [OF assms(1)]) (use assms(2) in simp)
  have hang: "wp (do { k \<leftarrow> disconnect k; ret (Some (Inl e), k) }) (\<lambda>r _. fst r \<noteq> None) h" for e h
    by (auto simp: wp_simps intro!: wp_mono [OF wp_True])
  show ?thesis
    unfolding exchange_def
    apply (intro wp_optionI wp_returnI wp_bindI, simp)
    apply (rule wp_mono [OF move])
    subgoal for fd s g
      apply (rule wp_bindI, rule wp_mono [of _ "\<lambda>r _. r \<noteq> None"])
       apply (cases s; cases "the s") apply (auto simp: wp_simps simp del: not_None_eq intro!: move)[4]
      apply (intro wp_optionI wp_returnI wp_sumI hang)
         apply simp_all
      done
    done
qed


section \<open>Examples\<close>

text \<open>A holder that takes every request at once and answers each with the same frame; a call takes a millisecond.\<close>

definition example_response :: "u8 list" where
  "example_response = response_frame (\<lambda>_. []) ''dh2300'' True (Inr zero_value)"

definition example_peer :: env where
  "example_peer = null_env\<lparr>e_sockets := null_sockets\<lparr>e_monotonic := (\<lambda>h. Inr (int (length h))), e_poll := (\<lambda>_ _ _ _. Inr True),
     e_send := (\<lambda>_ _ bs. Inr (length bs)), e_recv := (\<lambda>_ _ n. Inr (take n example_response))\<rparr>\<rparr>"

definition example_client :: service_client where
  "example_client = \<lparr>sc_fd = Some 7, sc_confirmed = True, sc_access = full_access, sc_profile = example_gpio\<rparr>"

lemma example_clock: "clock_runs example_peer (\<lambda>h. int (length h)) 1"
  by (simp add: clock_runs_def example_peer_def)

lemma length_example_response: "length example_response = 384"
  by (simp add: example_response_def response_frame_def value_words_def)

lemma example_transfer:
  assumes "0 < length b" "length b \<le> 384" "2 \<le> fuel"
  shows "run_state (transfer example_peer fuel 7 b writing 2 False) h =
    (Some (Inr (if writing then b else take (length b) example_response)),
     h @ [Net (Monotonic_ms (Inr (int (length h)))), Net (Monotonic_ms (Inr (int (length h + 1)))),
          Net (Poll_fd 7 writing 1999 (Inr True)),
          if writing then Net (Send 7 b (Inr (length b))) else Net (Recv 7 (length b) (Inr (take (length b) example_response)))])"
proof -
  obtain f where "fuel = Suc (Suc f)" using assms(3) by (cases fuel; cases "fuel - 1") auto
  with assms length_example_response show ?thesis
    by (cases writing) (simp_all add: transfer_def calls example_peer_def move_bytes_def put_at_def)
qed

theorem transfer_exact_witness:
  "\<exists>es. snd (run_state (transfer example_peer 3 7 [0, 0] False 2 False) []) = [] @ es \<and>
     received 7 es = take 2 example_response \<and> sent 7 es = []"
proof -
  have two: "length [0, 0 :: u8] = 2" by simp
  obtain h' where run: "run_state (transfer example_peer 3 7 [0, 0] False 2 False) [] = (Some (Inr (take 2 example_response)), h')"
    using example_transfer [of "[0, 0]" 3 False "[]", unfolded two] by simp
  from transfer_exact [OF run] run show ?thesis by auto
qed

theorem transfer_terminates_witness:
  "\<exists>r h'. run_state (transfer example_peer 2001 7 [0, 0] False 2 True) [] = (Some r, h')"
  by (rule transfer_terminates [OF example_clock]) simp

theorem answer_round_trip_witness:
  "map_option answer_result (read_answer ''dh2300'' (response_frame (\<lambda>_. ''busy'') ''dh2300'' True (Inl EBUSY))) = Some (Some (Inl EBUSY))"
  using answer_round_trip [of "''dh2300''" "Inl EBUSY" "''dh2300''" "\<lambda>_. ''busy''" True]
  by (simp add: c_str_def plain_errno_def)

lemma example_answer: "read_answer (lp_id example_gpio) example_response = Some (0, True, zero_value)"
proof -
  have "plain_value zero_value" by (simp add: plain_value_def zero_value_def)
  then have "decode_value ([MAGIC, VERSION, 0, 1, 0] @ value_words zero_value @ [0]) = zero_value"
    by (rule decode_value_words)
  then show ?thesis
    by (simp add: example_response_def response_frame_def read_frame example_gpio_def gpio_profile_def c_str_def value_words_def)
qed

lemma example_exchange:
  assumes "length w = 16" "2 \<le> fuel"
  shows "\<exists>h'. run_state (exchange example_peer fuel w example_client) h = ((Some (Inr zero_value), example_client), h')"
proof -
  have take: "take 384 example_response = example_response" using length_example_response by simp
  have fields: "sc_fd example_client = Some 7" "sc_profile example_client = example_gpio" "example_client\<lparr>sc_confirmed := True\<rparr> = example_client"
    by (simp_all add: example_client_def)
  from assms show ?thesis
    by (simp add: exchange_def example_transfer fields take example_answer answer_result_def)
qed

theorem exchange_outcome_witness:
  "\<exists>h' es. run_state (exchange example_peer 3 (request_words READ 0) example_client) [] = ((Some (Inr zero_value), example_client), h') \<and>
     h' = [] @ es \<and> answered 7 (request_words READ 0) example_client (Inr zero_value) example_client es"
proof -
  obtain h' where run: "run_state (exchange example_peer 3 (request_words READ 0) example_client) [] = ((Some (Inr zero_value), example_client), h')"
    using example_exchange [of "request_words READ 0" 3 "[]"] by (auto simp: request_words_def)
  have "sc_fd example_client = Some 7" by (simp add: example_client_def)
  from exchange_outcome [OF this run] run show ?thesis by (auto simp: hung_up_def)
qed


end
