(* ===== verification/Led_Service.thy ===== *)
theory Led_Service
  imports Led_Wire Led_Cs201x Led_Gpio
begin

text \<open>
  The LED holder (\<^verbatim>\<open>led/led_service.c\<close>): the handler of one request, the connection with its guarantee that an
  identification is undone when the client leaves, the two back ends, and the daemon with its socket.  Bounds and
  \<open>message\<close> as in \<open>Led_Wire\<close>: \<open>frames\<close> bounds the rounds of one transfer, \<open>fuel\<close> and \<open>requests\<close> the requests
  of a connection and the turns of the accept loop.
\<close>

section \<open>The server\<close>

record 'c service_ops =
  so_identity :: led_identity
  so_confirmed :: "'c \<Rightarrow> bool io"
  so_read :: "u8 \<Rightarrow> 'c \<Rightarrow> ((errno + led_value) \<times> 'c) io"
  so_apply :: "u8 \<Rightarrow> led_patch \<Rightarrow> 'c \<Rightarrow> ((errno + led_value) \<times> 'c) io"
  so_client :: "int \<Rightarrow> 'c \<Rightarrow> 'c"
  so_identify :: "((u8 \<Rightarrow> 'c \<Rightarrow> ((errno + unit) \<times> 'c) io) \<times> (u8 \<Rightarrow> 'c \<Rightarrow> ((errno + unit) \<times> 'c) io)) option"

record connection_state =
  cn_saved :: bool
  cn_restore_failed :: bool
  cn_saved_id :: u8

definition fresh_connection :: connection_state where
  "fresh_connection = \<lparr>cn_saved = False, cn_restore_failed = False, cn_saved_id = 0\<rparr>"

definition so_profile_id :: "'c service_ops \<Rightarrow> string" where
  "so_profile_id ops = (case li_profile (so_identity ops) of None \<Rightarrow> [] | Some p \<Rightarrow> lp_id p)"

definition so_has_led :: "'c service_ops \<Rightarrow> u32 \<Rightarrow> bool" where
  "so_has_led ops i \<longleftrightarrow> (case li_profile (so_identity ops) of None \<Rightarrow> False | Some p \<Rightarrow> list_ex (\<lambda>l. ucast (ld_id l) = i) (leds p))"

definition words_clear :: "nat set \<Rightarrow> u32 list \<Rightarrow> bool" where
  "words_clear ks w \<longleftrightarrow> (\<forall>k \<in> ks. w ! k = 0)"

text \<open>Starting an identification; a failed start is undone at once.\<close>

definition serve_begin ::
  "(u8 \<Rightarrow> 'c \<Rightarrow> ((errno + unit) \<times> 'c) io) \<Rightarrow> (u8 \<Rightarrow> 'c \<Rightarrow> ((errno + unit) \<times> 'c) io) \<Rightarrow> u8 \<Rightarrow> connection_state \<Rightarrow> 'c \<Rightarrow>
     ((errno + led_value) \<times> connection_state \<times> 'c) io" where
  "serve_begin begin_identify end_identify i s c =
     (if cn_saved s then ret (Inl EBUSY, s, c)
      else do {
        (r, c) \<leftarrow> begin_identify i c;
        (case r of
           Inr _ \<Rightarrow> ret (Inr zero_value, s\<lparr>cn_saved := True, cn_saved_id := i\<rparr>, c)
         | Inl e \<Rightarrow> do {
             (restored, c) \<leftarrow> end_identify i c;
             ret (Inl e, (if restored \<noteq> Inr () \<and> restored \<noteq> Inl ENOENT
                          then s\<lparr>cn_saved := True, cn_saved_id := i, cn_restore_failed := True\<rparr> else s), c) }) })"

definition serve_end ::
  "(u8 \<Rightarrow> 'c \<Rightarrow> ((errno + unit) \<times> 'c) io) \<Rightarrow> u8 \<Rightarrow> connection_state \<Rightarrow> 'c \<Rightarrow> ((errno + led_value) \<times> connection_state \<times> 'c) io" where
  "serve_end end_identify i s c =
     (if \<not> cn_saved s \<or> i \<noteq> cn_saved_id s then ret (Inl EINVAL, s, c)
      else do {
        (r, c) \<leftarrow> end_identify i c;
        ret (case r of Inr _ \<Rightarrow> (Inr zero_value, s\<lparr>cn_saved := False\<rparr>, c) | Inl e \<Rightarrow> (Inl e, s\<lparr>cn_restore_failed := True\<rparr>, c)) })"

definition handle_request :: "'c service_ops \<Rightarrow> u32 list \<Rightarrow> connection_state \<Rightarrow> 'c \<Rightarrow> ((errno + led_value) \<times> connection_state \<times> 'c) io" where
  "handle_request ops w s c =
     (let opcode = w ! 2; i = w ! 3 in
      if w ! 0 \<noteq> MAGIC \<or> w ! 1 \<noteq> VERSION \<or> w ! 14 \<noteq> 0 \<or> w ! 15 \<noteq> 0 \<or> i > 255 then ret (Inl EPROTO, s, c)
      else do {
        confirmed \<leftarrow> so_confirmed ops c;
        (if \<not> confirmed then ret (Inl ENOTSUP, s, c)
         else if opcode = INFO then ret (if words_clear {3..<16} w then Inr zero_value else Inl EPROTO, s, c)
         else if opcode = READ then
           (if \<not> words_clear {4..<16} w then ret (Inl EPROTO, s, c)
            else do { (r, c) \<leftarrow> so_read ops (ucast i) c; ret (r, s, c) })
         else if opcode = BEGIN_IDENTIFY \<or> opcode = END_IDENTIFY then
           (if \<not> words_clear ({4..<16} - {13}) w then ret (Inl EPROTO, s, c)
            else if w ! 13 \<noteq> 3 then ret (Inl EPERM, s, c)
            else case so_identify ops of None \<Rightarrow> ret (Inl ENOTSUP, s, c)
              | Some (begin_identify, end_identify) \<Rightarrow>
                  if opcode = BEGIN_IDENTIFY then
                    (if \<not> so_has_led ops i then ret (Inl ENOTSUP, s, c) else serve_begin begin_identify end_identify (ucast i) s c)
                  else serve_end end_identify (ucast i) s c)
         else if opcode = APPLY then
           (if w ! 13 \<noteq> 3 then ret (Inl EPERM, s, c)
            else if cn_saved s then ret (Inl EBUSY, s, c)
            else case led_validate_patch (request_patch w) of Some e \<Rightarrow> ret (Inl e, s, c)
              | None \<Rightarrow> do { (r, c) \<leftarrow> so_apply ops (ucast i) (request_patch w) c; ret (r, s, c) })
         else ret (Inl EINVAL, s, c)) })"

text \<open>The loop over the requests of one connection; the result is that of \<^verbatim>\<open>serve_requests\<close>.\<close>

fun serve_requests ::
  "env \<Rightarrow> (errno \<Rightarrow> string) \<Rightarrow> nat \<Rightarrow> nat \<Rightarrow> 'c service_ops \<Rightarrow> nat \<Rightarrow> connection_state \<Rightarrow> 'c \<Rightarrow> ((errno + unit) option \<times> connection_state \<times> 'c) io" where
  "serve_requests E message frames 0 ops fd s c = ret (None, s, c)"
| "serve_requests E message frames (Suc fuel) ops fd s c = do {
     stop \<leftarrow> poll_cancelled E;
     (if stop then ret (Some (Inr ()), s, c)
      else do {
        request \<leftarrow> transfer E frames fd (replicate 64 0) False 75 True;
        (case request of None \<Rightarrow> ret (None, s, c)
         | Some (Inl e) \<Rightarrow> ret (Some (if e = ECONNRESET then Inr () else Inl e), s, c)
         | Some (Inr bytes) \<Rightarrow> do {
             (r, s, c) \<leftarrow> handle_request ops (get_words bytes) s c;
             confirmed \<leftarrow> so_confirmed ops c;
             sent \<leftarrow> transfer E frames fd (response_frame message (so_profile_id ops) confirmed r) True 75 True;
             (case sent of None \<Rightarrow> ret (None, s, c)
              | Some (Inl _) \<Rightarrow> ret (Some (Inl EPIPE), s, c)
              | Some (Inr _) \<Rightarrow>
                  if r = Inl EPROTO then ret (Some (Inl EPROTO), s, c)
                  else if cn_restore_failed s then ret (Some (Inl (case r of Inl e \<Rightarrow> e | Inr _ \<Rightarrow> EIO)), s, c)
                  else serve_requests E message frames fuel ops fd s c) }) }) }"

definition finish_connection :: "'c service_ops \<Rightarrow> (errno + unit) option \<Rightarrow> connection_state \<Rightarrow> 'c \<Rightarrow> ((errno + unit) option \<times> connection_state \<times> 'c) io" where
  "finish_connection ops r s c =
     (case so_identify ops of
        Some (_, end_identify) \<Rightarrow>
          if \<not> cn_saved s then ret (r, s, c)
          else do {
            (restored, c) \<leftarrow> end_identify (cn_saved_id s) c;
            ret (case restored of Inr _ \<Rightarrow> (r, s, c) | Inl e \<Rightarrow> (Some (Inl e), s\<lparr>cn_restore_failed := True\<rparr>, c)) }
      | None \<Rightarrow> ret (r, s, c))"

text \<open>The result, whether the restoration failed, and the context; \<open>None\<close> when the bound was used up.\<close>

definition serve_connection ::
  "env \<Rightarrow> (errno \<Rightarrow> string) \<Rightarrow> nat \<Rightarrow> nat \<Rightarrow> 'c service_ops \<Rightarrow> nat \<Rightarrow> 'c \<Rightarrow> (((errno + unit) \<times> bool) option \<times> 'c) io" where
  "serve_connection E message frames fuel ops fd c = do {
     peer \<leftarrow> peer_credentials E fd;
     (case peer of None \<Rightarrow> ret (Some (Inl EPERM, False), c)
      | Some (uid, pid) \<Rightarrow>
          if uid \<noteq> 0 \<or> pid \<le> 0 then ret (Some (Inl EPERM, False), c)
          else do {
            let c = so_client ops pid c;
            timeout \<leftarrow> socket_timeout E fd 75;
            (r, s, c) \<leftarrow> (case timeout of Some e \<Rightarrow> ret (Some (Inl e), fresh_connection, c)
                         | None \<Rightarrow> serve_requests E message frames fuel ops fd fresh_connection c);
            (case r of None \<Rightarrow> ret (None, c)
             | Some r \<Rightarrow> do {
                 (r, s, c) \<leftarrow> finish_connection ops (Some r) s c;
                 stop \<leftarrow> (if cn_restore_failed s then ret True else poll_cancelled E);
                 ret (map_option (\<lambda>r. (r, cn_restore_failed s)) r, if stop then c else so_client ops 0 c) }) }) }"

definition gpio_ops :: "env \<Rightarrow> led_gpio \<Rightarrow> led_gpio service_ops" where
  "gpio_ops E x = \<lparr>so_identity = gp_identity x,
     so_confirmed = gpio_identity_confirmed E,
     so_read = (\<lambda>i x. do { r \<leftarrow> gpio_read E x i; ret (r, x) }),
     so_apply = (\<lambda>i p x. do { r \<leftarrow> gpio_apply E x i p; ret (r, x) }),
     so_client = gpio_set_client, so_identify = None\<rparr>"

definition cs_ops :: "env \<Rightarrow> cs201x \<Rightarrow> cs201x service_ops" where
  "cs_ops E c = \<lparr>so_identity = cs_identity c,
     so_confirmed = (\<lambda>c. ret (cs_confirmed c)),
     so_read = cs_read E, so_apply = cs_apply E, so_client = cs_set_client,
     so_identify = Some (cs_begin_identify E, cs_end_identify E)\<rparr>"

section \<open>The daemon\<close>

text \<open>A socket left behind is removed only when nobody answers on it.\<close>

definition clear_stale_socket :: "env \<Rightarrow> (errno + unit) io" where
  "clear_stale_socket E = do {
     st \<leftarrow> lstat_socket E LED_SERVICE_SOCKET;
     (case st of Inl e \<Rightarrow> ret (if e = ENOENT then Inr () else Inl e)
      | Inr st \<Rightarrow>
          if \<not> socket_trusted st then fail EPERM
          else bindE (socket_unix E) (\<lambda>fd. do {
            r \<leftarrow> connect_unix E fd LED_SERVICE_SOCKET;
            close_fd fd;
            (case r of None \<Rightarrow> fail EBUSY
             | Some e \<Rightarrow>
                 if e \<noteq> ECONNREFUSED then fail e
                 else do {
                   u \<leftarrow> unlink E LED_SERVICE_SOCKET;
                   (case u of Some e \<Rightarrow> fail e | None \<Rightarrow> ok ()) }) })) }"

text \<open>The accept loop: its result, the client whose connection stays open during shutdown, and the context.\<close>

fun accept_loop ::
  "env \<Rightarrow> (errno \<Rightarrow> string) \<Rightarrow> nat \<Rightarrow> nat \<Rightarrow> nat \<Rightarrow> 'c service_ops \<Rightarrow> nat \<Rightarrow> 'c \<Rightarrow> (((errno + unit) \<times> nat option) option \<times> 'c) io" where
  "accept_loop E message frames requests 0 ops listener c = ret (None, c)"
| "accept_loop E message frames requests (Suc fuel) ops listener c = do {
     stop \<leftarrow> poll_cancelled E;
     (if stop then ret (Some (Inr (), None), c)
      else do {
        ready \<leftarrow> poll_fd E listener False 500;
        (case ready of
           Inl e \<Rightarrow> if e = EINTR then accept_loop E message frames requests fuel ops listener c else ret (Some (Inl e, None), c)
         | Inr False \<Rightarrow> accept_loop E message frames requests fuel ops listener c
         | Inr True \<Rightarrow> do {
             client \<leftarrow> accept_fd E listener;
             (case client of
                Inl e \<Rightarrow> if e = EINTR then accept_loop E message frames requests fuel ops listener c else ret (Some (Inl e, None), c)
              | Inr client \<Rightarrow> do {
                  (served, c) \<leftarrow> serve_connection E message frames requests ops client c;
                  (case served of None \<Rightarrow> ret (None, c)
                   | Some (r, restore_failed) \<Rightarrow> do {
                       stop \<leftarrow> (if restore_failed then ret True else poll_cancelled E);
                       (if stop then ret (Some (if restore_failed then (case r of Inl e \<Rightarrow> Inl e | Inr _ \<Rightarrow> Inl EIO) else Inr (), Some client), c)
                        else do { close_fd client; accept_loop E message frames requests fuel ops listener c }) }) }) }) }) }"

definition remove_own_socket :: "env \<Rightarrow> nat \<times> nat \<Rightarrow> unit io" where
  "remove_own_socket E bound = do {
     st \<leftarrow> lstat_socket E LED_SERVICE_SOCKET;
     (case st of Inl _ \<Rightarrow> ret ()
      | Inr st \<Rightarrow>
          if so_uid st = 0 \<and> so_socket st \<and> so_file st = bound then do { unlink E LED_SERVICE_SOCKET; ret () } else ret ()) }"

text \<open>Listening on the socket until the loop ends: everything between opening and closing the back end.\<close>

definition serve_socket ::
  "env \<Rightarrow> (errno \<Rightarrow> string) \<Rightarrow> nat \<Rightarrow> nat \<Rightarrow> nat \<Rightarrow> 'c service_ops \<Rightarrow> 'c \<Rightarrow> (((errno + unit) \<times> nat option) option \<times> 'c) io" where
  "serve_socket E message frames requests fuel ops c = do {
     r \<leftarrow> clear_stale_socket E;
     (case r of Inl e \<Rightarrow> ret (Some (Inl e, None), c)
      | Inr _ \<Rightarrow> do {
          l \<leftarrow> socket_unix E;
          (case l of Inl e \<Rightarrow> ret (Some (Inl e, None), c)
           | Inr listener \<Rightarrow> do {
               b \<leftarrow> bind_unix E listener LED_SERVICE_SOCKET;
               (case b of Some e \<Rightarrow> do { close_fd listener; ret (Some (Inl e, None), c) }
                | None \<Rightarrow> do {
                    bound \<leftarrow> lstat_socket E LED_SERVICE_SOCKET;
                    ready \<leftarrow> (case bound of Inl e \<Rightarrow> ret (Some e) | Inr _ \<Rightarrow> chmod_listen E listener LED_SERVICE_SOCKET);
                    (r, c) \<leftarrow> (case ready of Some e \<Rightarrow> ret (Some (Inl e, None), c)
                               | None \<Rightarrow> accept_loop E message frames requests fuel ops listener c);
                    close_fd listener;
                    remove_own_socket E (case bound of Inl _ \<Rightarrow> (0, 0) | Inr st \<Rightarrow> so_file st);
                    ret (r, c) }) }) }) }"

definition close_client :: "nat option \<Rightarrow> unit io" where
  "close_client fd = (case fd of None \<Rightarrow> ret () | Some fd \<Rightarrow> close_fd fd)"

definition service_run :: "env \<Rightarrow> (errno \<Rightarrow> string) \<Rightarrow> nat \<Rightarrow> nat \<Rightarrow> nat \<Rightarrow> led_access \<Rightarrow> bool \<Rightarrow> ((errno + unit) option) io" where
  "service_run E message frames requests fuel ac takeover_flow =
     (if e_geteuid E \<noteq> 0 \<or> \<not> la_force ac \<or> \<not> la_apply ac then ret (Some (Inl EPERM))
      else do {
        identity \<leftarrow> led_detect E;
        (case identity of Inl e \<Rightarrow> ret (Some (Inl e))
         | Inr identity \<Rightarrow>
             (case map_option protocol (li_profile identity) of
                Some proto \<Rightarrow>
                  if proto = ''cs201x-sio'' then do {
                    r \<leftarrow> cs_open_holder E ac takeover_flow;
                    (case r of Inl e \<Rightarrow> ret (Some (Inl e))
                     | Inr c \<Rightarrow> do {
                         (r, c) \<leftarrow> serve_socket E message frames requests fuel (cs_ops E c) c;
                         (case r of None \<Rightarrow> ret None
                          | Some (r, client) \<Rightarrow> do {
                              restored \<leftarrow> cs_restore_close E c;
                              close_client client;
                              ret (Some (case restored of Inl e \<Rightarrow> Inl e | Inr _ \<Rightarrow> r)) }) }) }
                  else if proto = ''sysfs-gpio'' then
                    (if takeover_flow then ret (Some (Inl EINVAL))
                     else do {
                       r \<leftarrow> gpio_open E ac;
                       (case r of Inl e \<Rightarrow> ret (Some (Inl e))
                        | Inr x \<Rightarrow> do {
                            (r, x) \<leftarrow> serve_socket E message frames requests fuel (gpio_ops E x) x;
                            (case r of None \<Rightarrow> ret None
                             | Some (r, client) \<Rightarrow> do { gpio_close x; close_client client; ret (Some r) }) }) })
                  else ret (Some (Inl ENOTSUP))
              | None \<Rightarrow> ret (Some (Inl ENOTSUP)))) })"

section \<open>Requests over the wire are local calls\<close>

text \<open>A patch as the protocol carries it.\<close>

definition carried :: "led_patch \<Rightarrow> led_patch" where
  "carried p = p\<lparr>pv := (pv p)\<lparr>unknown_fields := 0, cached_fields := 0, n76_mode_valid := False, unverified_write := False,
     n76_modes := (0, 0), n76_version := 0\<rparr>\<rparr>"

lemma request_patch_apply: "request_patch (apply_request i p) = carried p"
  by (simp add: request_patch_def apply_request_def value_words_def decode_value_def carried_def zero_value_def)

lemma request_patch_words: "request_patch [a, b, c, d, patch_fields p, mode (pv p), brightness (pv p), red (pv p), green (pv p),
   blue (pv p), on_ms (pv p), off_ms (pv p), color (pv p), e, f, g] = carried p"
  by (simp add: request_patch_def decode_value_def carried_def zero_value_def)

lemma ucast_id_u8: "ucast (ucast i :: u32) = (i :: u8)"
  by (rule bit_word_eqI) (auto simp: bit_simps)

lemma id_byte: "\<not> (255 :: u32) < ucast (i :: u8)"
  using u8_le [of i] by (simp add: word_less_nat_alt not_less)

lemma requests_served:
  "handle_request ops (get_words (put_words (request_words READ (ucast i)))) s c = do {
     confirmed \<leftarrow> so_confirmed ops c;
     (if \<not> confirmed then ret (Inl ENOTSUP, s, c) else do { (r, c) \<leftarrow> so_read ops i c; ret (r, s, c) }) }"
  "handle_request ops (get_words (put_words (apply_request i p))) s c = do {
     confirmed \<leftarrow> so_confirmed ops c;
     (if \<not> confirmed then ret (Inl ENOTSUP, s, c)
      else if cn_saved s then ret (Inl EBUSY, s, c)
      else case led_validate_patch (carried p) of Some e \<Rightarrow> ret (Inl e, s, c)
        | None \<Rightarrow> do { (r, c) \<leftarrow> so_apply ops i (carried p) c; ret (r, s, c) }) }"
proof -
  have sixteen: "{4..<16} = {4, 5, 6, 7, 8, 9, 10, 11, 12, 13, 14, 15 :: nat}"
    by (simp only: atLeastLessThan_upt) (simp add: upt_rec_numeral del: set_upt)
  define w where "w = request_words READ (ucast i)"
  have w: "w ! 0 = MAGIC" "w ! 1 = VERSION" "w ! 2 = READ" "w ! 3 = ucast i" "w ! 14 = 0" "w ! 15 = 0" "words_clear {4..<16} w"
    by (simp_all add: w_def request_words_def words_clear_def sixteen)
  show "handle_request ops (get_words (put_words (request_words READ (ucast i)))) s c = do {
     confirmed \<leftarrow> so_confirmed ops c;
     (if \<not> confirmed then ret (Inl ENOTSUP, s, c) else do { (r, c) \<leftarrow> so_read ops i c; ret (r, s, c) }) }"
    unfolding w_def [symmetric] get_put_words by (simp add: handle_request_def w id_byte Let_def del: One_nat_def) (simp only: ucast_id_u8)
  show "handle_request ops (get_words (put_words (apply_request i p))) s c = do {
     confirmed \<leftarrow> so_confirmed ops c;
     (if \<not> confirmed then ret (Inl ENOTSUP, s, c)
      else if cn_saved s then ret (Inl EBUSY, s, c)
      else case led_validate_patch (carried p) of Some e \<Rightarrow> ret (Inl e, s, c)
        | None \<Rightarrow> do { (r, c) \<leftarrow> so_apply ops i (carried p) c; ret (r, s, c) }) }"
    by (simp add: handle_request_def apply_request_def value_words_def id_byte Let_def)
      (simp only: request_patch_words ucast_id_u8 simp_thms)
qed

text \<open>
  \<^bold>\<open>C31.\<close> Talking to the holder is talking to its back end: the bytes of a read or apply request make the holder call its
  own operation for the same LED with the same patch, once its hardware identity is confirmed; a change is refused
  during an identification and when the patch is malformed.
\<close>

theorem remote_calls:
  "(handle_request ops (get_words (put_words (request_words READ (ucast i)))) s c = do {
     confirmed \<leftarrow> so_confirmed ops c;
     (if \<not> confirmed then ret (Inl ENOTSUP, s, c) else do { (r, c) \<leftarrow> so_read ops i c; ret (r, s, c) }) }) \<and>
   (handle_request ops (get_words (put_words (apply_request i p))) s c = do {
     confirmed \<leftarrow> so_confirmed ops c;
     (if \<not> confirmed then ret (Inl ENOTSUP, s, c)
      else if cn_saved s then ret (Inl EBUSY, s, c)
      else case led_validate_patch (carried p) of Some e \<Rightarrow> ret (Inl e, s, c)
        | None \<Rightarrow> do { (r, c) \<leftarrow> so_apply ops i (carried p) c; ret (r, s, c) }) })"
  by (intro conjI requests_served)

section \<open>No identification outlives its connection\<close>

text \<open>
  What the server relies on.  \<open>lit c\<close> tells that an effect of an identification may still be shown; \<open>honest\<close> that a
  restoration that fails does not answer \<^verbatim>\<open>ENOENT\<close>, which the server takes for \<open>nothing to restore\<close>.
\<close>

definition accounted :: "('c \<Rightarrow> bool) \<Rightarrow> connection_state \<Rightarrow> 'c \<Rightarrow> bool" where
  "accounted lit s c \<longleftrightarrow> (lit c \<longrightarrow> cn_saved s)"

locale identify_backend =
  fixes ops :: "'c service_ops" and lit :: "'c \<Rightarrow> bool" and honest :: bool
  assumes client: "lit (so_client ops pid c) = lit c"
    and reads: "wp (so_read ops i c) (\<lambda>(r, c') _. lit c' \<longrightarrow> lit c) h"
    and applies: "wp (so_apply ops i p c) (\<lambda>(r, c') _. lit c' \<longrightarrow> lit c) h"
    and none: "so_identify ops = None \<Longrightarrow> \<not> lit c"
    and ends: "so_identify ops = Some (b, e) \<Longrightarrow> honest \<Longrightarrow> wp (e i c) (\<lambda>(r, c') _. r = Inr () \<or> r = Inl ENOENT \<longrightarrow> \<not> lit c') h"
begin

lemma begin_accounted:
  assumes "so_identify ops = Some (b, e)" honest "accounted lit s c"
  shows "wp (serve_begin b e i s c) (\<lambda>(r, s', c') _. accounted lit s' c') h"
  unfolding serve_begin_def
  apply (intro wp_ifI wp_returnI wp_bindI, simp add: assms)
  apply (rule wp_mono [OF wp_True])
  apply (auto simp: wp_simps accounted_def split: sum.splits if_splits intro!: wp_mono [OF ends [OF assms(1,2)]])
  done

lemma end_accounted:
  assumes "so_identify ops = Some (b, e)" honest "accounted lit s c"
  shows "wp (serve_end e i s c) (\<lambda>(r, s', c') _. accounted lit s' c') h"
  unfolding serve_end_def
  using assms(3)
  by (auto simp: wp_simps accounted_def split: sum.splits if_splits intro!: wp_mono [OF ends [OF assms(1,2)]])

lemma request_accounted:
  assumes honest "accounted lit s c"
  shows "wp (handle_request ops w s c) (\<lambda>(r, s', c') _. accounted lit s' c') h"
  unfolding handle_request_def Let_def
  apply (rule wp_ifI, rule wp_returnI, simp add: assms)
  apply (rule wp_bindI, rule wp_mono [OF wp_True])
  apply (intro wp_ifI wp_optionI wp_prodI wp_returnI wp_bindI begin_accounted end_accounted)
                  apply (simp_all add: assms)
   apply (rule wp_mono [OF reads], use assms(2) in \<open>auto simp: wp_simps accounted_def\<close>)
  apply (rule wp_mono [OF applies], use assms(2) in \<open>auto simp: wp_simps accounted_def\<close>)
  done

lemma requests_accounted:
  assumes honest
  shows "accounted lit s c \<Longrightarrow> wp (serve_requests E message frames fuel ops fd s c) (\<lambda>(r, s', c') _. accounted lit s' c') h"
proof (induction fuel arbitrary: s c h)
  case 0
  then show ?case by (simp add: wp_simps)
next
  case (Suc fuel)
  show ?case
    unfolding serve_requests.simps
    apply (rule wp_bindI, rule wp_mono [OF wp_True], rule wp_ifI, rule wp_returnI, simp add: Suc.prems)
    apply (rule wp_bindI, rule wp_mono [OF wp_True], intro wp_optionI wp_sumI wp_returnI, simp_all add: Suc.prems)
    apply (rule wp_bindI, rule wp_mono [OF request_accounted [OF assms Suc.prems]], rule wp_prodI, rule wp_prodI)
    apply (rule wp_bindI, rule wp_mono [OF wp_True], rule wp_bindI, rule wp_mono [OF wp_True])
    apply (intro wp_optionI wp_sumI wp_ifI wp_returnI Suc.IH, simp_all)
    done
qed

lemma no_effect_left:
  assumes honest "\<not> lit c"
  shows "wp (serve_connection E message frames fuel ops fd c) (\<lambda>(r, c') _. \<forall>x. r = Some (x, False) \<longrightarrow> \<not> lit c') h"
proof -
  have start: "accounted lit fresh_connection (so_client ops pid c)" for pid
    using assms(2) client by (simp add: accounted_def)
  have finish: "wp (finish_connection ops r s c) (\<lambda>(r, s', c') _. cn_restore_failed s' \<or> \<not> lit c') h"
    if "accounted lit s c" for r s c h
    unfolding finish_connection_def
    using that none
    by (auto simp: wp_simps accounted_def split: option.splits sum.splits intro!: wp_mono [OF ends [OF _ assms(1)]])
  show ?thesis
    unfolding serve_connection_def Let_def
    apply (rule wp_bindI, rule wp_mono [OF wp_True], intro wp_optionI wp_prodI wp_ifI wp_returnI, simp add: assms, simp add: assms)
    apply (rule wp_bindI, rule wp_mono [OF wp_True], rule wp_bindI)
    apply (rule wp_mono [of _ "\<lambda>(r, s', c') _. accounted lit s' c'"])
     apply (intro wp_optionI wp_returnI requests_accounted [OF assms(1) start], simp add: start)
    apply (intro wp_prodI wp_optionI wp_returnI, simp)
    apply (rule wp_bindI, rule wp_mono [OF finish], simp, intro wp_prodI)
    apply (rule wp_bindI, rule wp_mono [OF wp_True], rule wp_returnI)
    apply (auto simp: client)
    done
qed

end


interpretation gpio_server: identify_backend "gpio_ops E x" "\<lambda>_. False" True for E x
  by unfold_locales (simp_all add: gpio_ops_def wp_simps)

text \<open>
  The CS2011 back end.  Its own \<^verbatim>\<open>ENOENT\<close> means that nothing was saved, but the checks before each of its steps also
  hand on the errors of reading \<^verbatim>\<open>/proc\<close> and \<^verbatim>\<open>/sys\<close>; \<open>guard_never_missing\<close> excludes that they answer \<^verbatim>\<open>ENOENT\<close>.
\<close>

definition guard_never_missing :: "env \<Rightarrow> bool" where
  "guard_never_missing E \<longleftrightarrow> (\<forall>w x c h. fst (fst (run_state (cs_guard_flow E w x c) h)) \<noteq> Inl ENOENT)"

definition steady :: "bool \<Rightarrow> bool \<Rightarrow> ((errno + 'a) \<times> cs201x) io \<Rightarrow> bool" where
  "steady b M m \<longleftrightarrow> (\<forall>h. wp m (\<lambda>(r, c) _. cs_identify_saved c = b \<and> (M \<longrightarrow> r \<noteq> Inl ENOENT)) h)"

lemma steady_wp: "steady b M m \<Longrightarrow> (\<And>r c h. cs_identify_saved c = b \<Longrightarrow> (M \<Longrightarrow> r \<noteq> Inl ENOENT) \<Longrightarrow> Q (r, c) h) \<Longrightarrow> wp m Q h"
  unfolding steady_def by (rule wp_mono, erule spec) auto

lemma steady_return: "cs_identify_saved (snd x) = b \<Longrightarrow> (M \<Longrightarrow> fst x \<noteq> Inl ENOENT) \<Longrightarrow> steady b M (ret x)"
  by (simp add: steady_def wp_simps split_beta)

lemma steady_thenC:
  assumes m: "steady b M m" and f: "\<And>x c. cs_identify_saved c = b \<Longrightarrow> steady b M (f x c)"
  shows "steady b M (thenC m f)"
proof -
  have "wp (thenC m f) (\<lambda>(r, c) _. cs_identify_saved c = b \<and> (M \<longrightarrow> r \<noteq> Inl ENOENT)) h" for h
    unfolding thenC_def
    by (rule wp_bindI, rule steady_wp [OF m]) (use f in \<open>auto simp: wp_simps steady_def split: sum.split\<close>)
  then show ?thesis by (simp add: steady_def)
qed

lemma steady_bind:
  assumes f: "\<And>x. steady b M (f x)"
  shows "steady b M (State_Monad.bind m f)"
  unfolding steady_def by (intro allI, rule wp_bindI, rule wp_mono [OF wp_True], rule f [unfolded steady_def, rule_format])

lemma steady_tryC: "cs_identify_saved c = b \<Longrightarrow> (\<And>x. steady b False (f x)) \<Longrightarrow> steady b False (tryC m c f)"
  unfolding tryC_def by (rule steady_bind) (auto intro: steady_return split: sum.split)

lemma steady_if: "(p \<Longrightarrow> steady b M m) \<Longrightarrow> (\<not> p \<Longrightarrow> steady b M n) \<Longrightarrow> steady b M (if p then m else n)"
  by simp

lemma steady_prod: "(\<And>u v. steady b M (f u v)) \<Longrightarrow> steady b M (case x of (u, v) \<Rightarrow> f u v)"
  by (cases x) simp

lemmas steady_intros = steady_return steady_thenC steady_tryC steady_bind steady_if steady_prod

lemma steady_guard_flow:
  assumes "cs_identify_saved c = b" "M \<longrightarrow> guard_never_missing E"
  shows "steady b M (cs_guard_flow E w x c)"
proof -
  have claim: "steady b False (cs_claim_runtime E base d)" if "cs_identify_saved d = b" for base d
    unfolding cs_claim_runtime_def by (intro steady_if steady_tryC steady_return; simp add: that)
  have saved: "steady b False (cs_guard_flow E w x c)"
    unfolding cs_guard_flow_def Let_def
    by (intro steady_if steady_thenC steady_tryC steady_bind steady_prod steady_return claim; simp add: assms(1))
  show ?thesis
    unfolding steady_def
  proof
    fix h
    obtain r d g where run: "run_state (cs_guard_flow E w x c) h = ((r, d), g)" by (metis surj_pair)
    from saved have "cs_identify_saved d = b" by (auto simp: steady_def wp_def run dest: spec [of _ h])
    moreover have "M \<longrightarrow> r \<noteq> Inl ENOENT" using assms(2) run by (metis fst_conv guard_never_missing_def)
    ultimately show "wp (cs_guard_flow E w x c) (\<lambda>(r, c) _. cs_identify_saved c = b \<and> (M \<longrightarrow> r \<noteq> Inl ENOENT)) h"
      by (simp add: wp_def run)
  qed
qed

lemma steady_snapshot:
  "cs_identify_saved c = b \<Longrightarrow> M \<longrightarrow> guard_never_missing E \<Longrightarrow> steady b M (cs_snapshot E i c)"
  unfolding cs_snapshot_def cs_guard_def
  by (intro steady_intros steady_guard_flow; simp)

lemma steady_commit:
  assumes "cs_identify_saved c = b" "M \<longrightarrow> guard_never_missing E"
  shows "steady b M (cs_commit E i wanted before restore c)"
proof -
  have byte: "steady b M (cs_write_byte E i f v c)" if "cs_identify_saved c = b" for f v c
    unfolding cs_write_byte_def cs_guard_def
    by (intro steady_intros steady_guard_flow) (auto simp: that assms(2))
  have fields: "steady b M (cs_write_fields E i wanted before restore q fs c)" if "cs_identify_saved c = b" for q fs c
    using that
  proof (induction fs arbitrary: c)
    case Nil
    then show ?case by (simp add: steady_return)
  next
    case (Cons f fs)
    then show ?case unfolding cs_write_fields.simps by (intro steady_if steady_thenC byte Cons.IH)
  qed
  show ?thesis
    unfolding cs_commit_def Let_def
    by (intro steady_thenC steady_if byte fields steady_snapshot steady_return) (auto simp: assms)
qed

lemma end_identify_dark:
  assumes "guard_never_missing E"
  shows "wp (cs_end_identify E i c) (\<lambda>(r, c') _. r = Inr () \<or> r = Inl ENOENT \<longrightarrow> \<not> cs_identify_saved c') h"
proof -
  have "steady (cs_identify_saved c) True (cs_commit E i w w True c)" for w
    by (rule steady_commit) (auto simp: assms)
  note commit = steady_wp [OF this]
  show ?thesis
    unfolding cs_end_identify_def thenC_def
    by (intro wp_ifI wp_returnI wp_bindI commit; (auto simp: wp_simps split: sum.split)?)
qed

lemma steady_apply: "steady (cs_identify_saved c) False (cs_apply E i p c)"
proof -
  have commit: "steady b False (cs_commit E i wanted before restore c)" if "cs_identify_saved c = b" for b wanted before restore c
    by (rule steady_commit) (auto simp: that)
  have again: "steady b False (do {
                (r, c) \<leftarrow> cs_commit E i wanted before False c;
                (case r of Inl e \<Rightarrow> cs_restore_after_error E i before wanted e c
                 | Inr _ \<Rightarrow> ret (Inr (cs_decode wanted), c)) })" if "cs_identify_saved c = b" for b wanted before c
    unfolding steady_def
    apply (intro allI, rule wp_bindI, rule steady_wp [OF commit [OF that]], simp)
    apply (intro wp_sumI wp_returnI)
     apply (rule steady_wp [where b = b and M = False])
      apply (unfold cs_restore_after_error_def, intro steady_thenC commit steady_return)
        apply simp_all
    done
  show ?thesis
    unfolding cs_apply_def cs_guard_def Let_def
    apply (intro steady_if steady_return)
         apply simp_all[4]
    apply (cases "cs_validate_patch p")
     apply (simp only: option.case)
     apply (intro steady_thenC steady_guard_flow steady_snapshot steady_if steady_return again)
          apply simp_all
    apply (simp add: steady_return)
    done
qed

interpretation cs_server: identify_backend "cs_ops E k" cs_identify_saved "guard_never_missing E" for E k
proof
  fix i p c h
  have reading: "steady (cs_identify_saved c) False (cs_read E i c)"
    unfolding cs_read_def by (intro steady_thenC steady_return steady_snapshot) auto
  show "wp (so_read (cs_ops E k) i c) (\<lambda>(r, c') _. cs_identify_saved c' \<longrightarrow> cs_identify_saved c) h"
    by (simp add: cs_ops_def, rule steady_wp [OF reading], simp)
  show "wp (so_apply (cs_ops E k) i p c) (\<lambda>(r, c') _. cs_identify_saved c' \<longrightarrow> cs_identify_saved c) h"
    by (simp add: cs_ops_def, rule steady_wp [OF steady_apply], simp)
  show "wp (e i c) (\<lambda>(r, c') _. r = Inr () \<or> r = Inl ENOENT \<longrightarrow> \<not> cs_identify_saved c') h"
    if "so_identify (cs_ops E k) = Some (b, e)" "guard_never_missing E" for b e
  proof -
    from that(1) have "e = cs_end_identify E" by (simp add: cs_ops_def)
    with end_identify_dark [OF that(2)] show ?thesis by (simp only:)
  qed
qed (simp_all add: cs_ops_def cs_set_client_def)



text \<open>A root client that connects to the DXP2800 GT of the examples and leaves at once.\<close>

lemma example_guard_errors: "guard_never_missing (example_cs_env v)"
proof -
  have permission: "wp (cs_permission (example_cs_env v) b n e) (\<lambda>r _. r = Inr ()) h" for b n e h
    by (simp add: cs_permission_def calls wp_simps example_cs_env_def)
  have ec: "wp (cs_ec_read (example_cs_env v) b r) (\<lambda>_ _. True) h" for b r h by simp
  define other where "other z \<longleftrightarrow> fst z \<noteq> Inl ENOENT" for z :: "(errno + u8) \<times> cs201x"
  have other: "other (Inr u, d)" "e \<noteq> ENOENT \<Longrightarrow> other (Inl e, d)" for u d e
    by (auto simp: other_def)
  have "wp (cs_guard_flow (example_cs_env v) w x c) (\<lambda>z _. other z) h" for w x c h
    by (auto simp: other cs_guard_flow_def Let_def tryC_def thenC_def cs_claim_runtime_def wp_simps intro!: wp_mono [OF ec]
        wp_result [OF example_detect] wp_result [OF example_owners] wp_result [OF example_probe] wp_mono [OF permission])
  then show ?thesis
    unfolding guard_never_missing_def by (simp add: wp_def split_beta other_def)
qed


text \<open>Without \<open>guard_never_missing\<close> this fails: the answer \<^verbatim>\<open>ENOENT\<close> of a check during a restoration is taken for
  \<open>nothing was saved\<close>.\<close>

lemma end_identify_ambiguous:
  "\<exists>c' h'. run_state (cs_end_identify null_env 0 (example_cs\<lparr>cs_identify_saved := True\<rparr>)) [] = ((Inl ENOENT, c'), h') \<and> cs_identify_saved c'"
proof -
  have detect: "fst (run_state (led_detect null_env) h) = Inl ENOENT" for h
    by (simp add: led_detect_def identity_read_def identity_read_at_def identity_text_read_def raw_read_def raw_of_read_def
        read_file_def dt_identity_def optional_field_def)
  let ?c = "example_cs\<lparr>cs_identify_saved := True\<rparr>"
  have c: "cs_identify_id ?c = 0" "cs_identify_saved ?c" "la_force (cs_access ?c)" "la_apply (cs_access ?c)"
    by (simp_all add: example_cs_def cs_fresh_def)
  have "wp (cs_end_identify null_env 0 ?c) (\<lambda>(r, c') _. r = Inl ENOENT \<and> cs_identify_saved c') []"
    unfolding cs_end_identify_def cs_commit_def cs_write_byte_def cs_guard_def cs_guard_flow_def thenC_def tryC_def Let_def
    using c by (auto simp: wp_simps simp del: null_env_def intro!: wp_result [OF detect])
  then show ?thesis by (auto simp: wp_def split: prod.splits)
qed

end
