(* ===== verification/Led_Session.thy ===== *)
theory Led_Session
  imports Led_Wire Led_Cs201x Led_Sysfs Led_N76
begin

text \<open>
  LED sessions (\<^verbatim>\<open>led/led.c\<close>) with the transport of the production build: opening the controller of the machine (the
  holder, the CS2011 chip, a kernel LED driver, a direct N76 controller or an MCU on I2C), reading, changing and
  identifying a LED, closing.  A session is a \<open>led_session\<close>; an operation that may change it returns it beside the
  result.  \<open>fuel\<close> bounds the rounds of a transfer to the holder as in \<open>Led_Wire\<close>; the result \<open>E_other 0\<close>, which is no
  error number, tells that it was used up.
\<close>

section \<open>Data\<close>

record led_session =
  ls_identity :: led_identity
  ls_access :: led_access
  ls_fd :: "nat option"
  ls_lock_fd :: "nat option"
  ls_locked :: bool
  ls_chip_id :: u16
  ls_n76_version :: u8
  ls_n76_failed :: bool
  ls_bus :: string
  ls_bus_number :: u32
  ls_sysfs :: "led_sysfs option"
  ls_service :: "service_client option"
  ls_cs :: "cs201x option"

definition fresh_session :: "led_access \<Rightarrow> led_identity \<Rightarrow> led_session" where
  "fresh_session ac i = \<lparr>ls_identity = i, ls_access = ac, ls_fd = None, ls_lock_fd = None, ls_locked = False, ls_chip_id = 0,
     ls_n76_version = 0, ls_n76_failed = False, ls_bus = [], ls_bus_number = 0, ls_sysfs = None, ls_service = None, ls_cs = None\<rparr>"

text \<open>Sessions exist only for a machine with a profile.\<close>

definition ls_profile :: "led_session \<Rightarrow> led_profile" where
  "ls_profile s = the (li_profile (ls_identity s))"

definition direct :: "led_session \<Rightarrow> bool" where
  "direct s \<longleftrightarrow> n76_direct (ls_access s)"

definition device_fd :: "led_session \<Rightarrow> nat" where
  "device_fd s = the (ls_fd s)"

definition smbus_block :: "led_profile \<Rightarrow> bool" where
  "smbus_block p \<longleftrightarrow> starts_with ''smbus-block-'' (protocol p)"

definition bounded :: "(errno + 'a) option \<Rightarrow> errno + 'a" where
  "bounded r = (case r of None \<Rightarrow> Inl (E_other 0) | Some r \<Rightarrow> r)"

section \<open>The transport\<close>

definition led_modules :: "string list" where
  "led_modules = [''led_ugreen'', ''leds_mcu_28a48'', ''leds_mcu_68a88'', ''leds_mcu'', ''leds_mcu_n76e003'', ''leds_ugreen'',
     ''ugreen_led'', ''ugreen_leds'', ''ug_mcu'', ''leds_mcu_n76e003_dh2600'']"

fun paths_absent :: "env \<Rightarrow> string list \<Rightarrow> (errno + unit) io" where
  "paths_absent E [] = ok ()"
| "paths_absent E (path # paths) = do {
     r \<leftarrow> lstat_regular E path;
     (case r of Inr _ \<Rightarrow> fail EBUSY | Inl e \<Rightarrow> if e \<noteq> ENOENT then fail e else paths_absent E paths) }"

definition i2c_device :: "u32 \<Rightarrow> string \<Rightarrow> string" where
  "i2c_device bus address = ''/sys/bus/i2c/devices/'' @ dec (unat bus) @ ''-'' @ address"

definition production_owners :: "env \<Rightarrow> led_session \<Rightarrow> (errno + unit) io" where
  "production_owners E s =
     (if \<not> direct s \<and> li_profile (ls_identity s) \<noteq> None \<and> starts_with ''sysfs-'' (protocol (ls_profile s)) then process_owners E
      else bindE (paths_absent E (map (\<lambda>m. ''/sys/module/'' @ m) led_modules)) (\<lambda>_.
           bindE (paths_absent E
             (if direct s then map (i2c_device (n76_bus (ls_access s))) [''0031'', ''0026'']
              else if ls_bus s \<noteq> [] then [i2c_device (ls_bus_number s) ''003a'' @ ''/driver''] else [])) (\<lambda>_.
             process_owners E)))"

definition session_lock :: "env \<Rightarrow> led_session \<Rightarrow> ((errno + unit) \<times> led_session) io" where
  "session_lock E s =
     tryC (open_lock E ''/run/ugreenctl-led-mcu.lock'') s (\<lambda>fd.
       let s = s\<lparr>ls_lock_fd := Some fd\<rparr> in
       tryC (fstat E fd) s (\<lambda>st.
         if \<not> sx_regular st \<or> sx_uid st \<noteq> 0 \<or> sx_nlink st \<noteq> 1 then ret (Inl EPERM, s)
         else do {
           r \<leftarrow> flock E fd True;
           ret (case r of None \<Rightarrow> Inr () | Some e \<Rightarrow> Inl (if e = EWOULDBLOCK then EBUSY else e), s) }))"

definition session_unlock :: "led_session \<Rightarrow> unit io" where
  "session_unlock s = (case ls_lock_fd s of None \<Rightarrow> ret () | Some fd \<Rightarrow> do { flock_un fd; close_fd fd })"

definition status_of :: "errno option \<Rightarrow> errno + unit" where
  "status_of r = (case r of None \<Rightarrow> Inr () | Some e \<Rightarrow> Inl e)"

definition claim_address :: "env \<Rightarrow> led_session \<Rightarrow> (errno + unit) io" where
  "claim_address E s = do { r \<leftarrow> i2c_slave E (device_fd s) (n76_address (ls_access s)); ret (status_of r) }"

definition n76_read_byte :: "env \<Rightarrow> led_session \<Rightarrow> u8 \<Rightarrow> (errno + u8) io" where
  "n76_read_byte E s reg = bindE (claim_address E s) (\<lambda>_. do { sleep_ms 1; smbus_read_byte E (device_fd s) reg })"

definition n76_write_byte :: "env \<Rightarrow> led_session \<Rightarrow> u8 \<Rightarrow> u8 \<Rightarrow> (errno + unit) io" where
  "n76_write_byte E s reg v =
     bindE (claim_address E s) (\<lambda>_. do { r \<leftarrow> smbus_write_byte E (device_fd s) reg v; ret (status_of r) })"

definition read_chip_id :: "env \<Rightarrow> led_session \<Rightarrow> (errno + u16) io" where
  "read_chip_id E s =
     (if direct s
      then bindE (n76_read_byte E s 0x5a) (\<lambda>high. bindE (n76_read_byte E s 0x5b) (\<lambda>low.
             ok (push_bit 8 (ucast high) OR ucast low)))
      else smbus_read_word E (device_fd s) (chip_register (ls_profile s)))"

definition read_led_status :: "env \<Rightarrow> led_session \<Rightarrow> u8 \<Rightarrow> (errno + u8 list) io" where
  "read_led_status E s i =
     bindE (smbus_read_block E (device_fd s) (0x81 + i)) (\<lambda>(count, data).
       if count \<noteq> 11 then fail EBADMSG else ok (take 11 (data @ replicate 11 0)))"

definition write_command :: "env \<Rightarrow> led_session \<Rightarrow> u8 \<Rightarrow> u8 list \<Rightarrow> (errno + unit) io" where
  "write_command E s i frame = do {
     r \<leftarrow> (if smbus_block (ls_profile s) then smbus_write_block E (device_fd s) True i (take 11 frame)
          else smbus_write_block E (device_fd s) False i (take 12 frame));
     ret (status_of r) }"

definition read_ack :: "env \<Rightarrow> led_session \<Rightarrow> (errno + unit) io" where
  "read_ack E s = bindE (smbus_read_byte E (device_fd s) 0x80) (\<lambda>b. if b = 1 then ok () else fail EIO)"

definition verify_session_identity :: "env \<Rightarrow> led_session \<Rightarrow> (errno + unit) io" where
  "verify_session_identity E s =
     bindE (led_detect E) (\<lambda>current. if same_identity (ls_identity s) current then ok () else fail ESTALE)"

section \<open>Reading\<close>

definition session_target :: "led_session \<Rightarrow> u8 \<Rightarrow> led_descriptor option" where
  "session_target s i = (case li_profile (ls_identity s) of None \<Rightarrow> None | Some p \<Rightarrow> find (\<lambda>l. ld_id l = i) (leds p))"

definition in_use :: "led_session \<Rightarrow> bool" where
  "in_use s \<longleftrightarrow> ls_locked s \<or> ls_service s \<noteq> None \<or> ls_cs s \<noteq> None"

fun read_attempts :: "env \<Rightarrow> led_session \<Rightarrow> u8 \<Rightarrow> nat list \<Rightarrow> errno \<Rightarrow> (errno + led_value) io" where
  "read_attempts E s i [] e = fail e"
| "read_attempts E s i (pause # pauses) e = do {
     sleep_ms pause;
     r \<leftarrow> bindE (read_led_status E s i) (\<lambda>frame. ret (led_decode frame));
     (case r of Inr v \<Rightarrow> ok v
      | Inl e \<Rightarrow> if e = EBUSY \<or> e = EACCES \<or> e = EPERM then fail e else read_attempts E s i pauses e) }"

definition ALL_FIELDS :: u32 where
  "ALL_FIELDS = PATCH_MODE OR PATCH_RGB OR PATCH_COLOR OR PATCH_BRIGHTNESS OR PATCH_TIMING"

definition n76_read :: "env \<Rightarrow> led_session \<Rightarrow> u8 \<Rightarrow> (errno + led_value) io" where
  "n76_read E s i =
     (let bit = (if i = 1 then 4 else if i = 2 then 2 else 0) in
      bindE (read_chip_id E s) (\<lambda>chip.
      bindE (n76_read_byte E s 0x5d) (\<lambda>version.
        if chip \<noteq> ls_chip_id s \<or> chip \<noteq> 0xa5b5 \<or> version \<noteq> ls_n76_version s then fail ESTALE
        else bindE (n76_read_byte E s (0x50 + bit)) (\<lambda>first.
             bindE (n76_read_byte E s (0x51 + bit)) (\<lambda>second.
               if first > 3 \<or> second > 3 then fail EBADMSG
               else ok (zero_value\<lparr>unknown_fields := ALL_FIELDS, n76_mode_valid := True, n76_modes := (first, second),
                          n76_version := version\<rparr>))))))"

definition led_read :: "env \<Rightarrow> nat \<Rightarrow> led_session \<Rightarrow> u8 \<Rightarrow> ((errno + led_value) \<times> led_session) io" where
  "led_read E fuel s i =
     (if \<not> in_use s \<or> session_target s i = None then ret (Inl EINVAL, s)
      else tryC (verify_session_identity E s) s (\<lambda>_.
        case ls_cs s of Some c \<Rightarrow> do { (r, c) \<leftarrow> cs_read E i c; ret (r, s\<lparr>ls_cs := Some c\<rparr>) }
        | None \<Rightarrow>
          (case ls_service s of Some k \<Rightarrow> do { (r, k) \<leftarrow> service_read E fuel i k; ret (bounded r, s\<lparr>ls_service := Some k\<rparr>) }
           | None \<Rightarrow>
             tryC (production_owners E s) s (\<lambda>_. do {
               r \<leftarrow> (case ls_sysfs s of Some x \<Rightarrow> sysfs_read E x i
                    | None \<Rightarrow> if direct s then n76_read E s i else read_attempts E s i [8, 3, 3] EBADMSG);
               ret (r, s) }))))"

section \<open>Authorization\<close>

definition is_n76_profile :: "led_profile \<Rightarrow> bool" where
  "is_n76_profile p \<longleftrightarrow> protocol p = ''sysfs-n76'' \<and>
     (lp_id p = ''dh2600-n76'' \<and> product_name p = ''DH2600'' \<or> lp_id p = ''dxp480t-n76'' \<and> product_name p = ''DXP480T Plus'')"

definition block_protocol :: "led_profile \<Rightarrow> bool" where
  "block_protocol p \<longleftrightarrow> protocol p \<in> {''legacy-i2c-block'', ''smbus-block-be'', ''smbus-block-le''}"

definition check_chip :: "env \<Rightarrow> led_session \<Rightarrow> (errno + unit) io" where
  "check_chip E s = do {
     r \<leftarrow> read_chip_id E s;
     (case r of Inl _ \<Rightarrow> fail ENOTSUP
      | Inr current \<Rightarrow>
          if current = 0 \<or> ls_chip_id s = 0 then fail ENOTSUP
          else if current \<noteq> expected_chip_id (ls_profile s) \<or> current \<noteq> ls_chip_id s then fail ENOTSUP
          else if direct s then
            (if ls_n76_failed s then fail EIO
             else bindE (n76_read_byte E s 0x5d) (\<lambda>version. if version \<noteq> ls_n76_version s then fail ESTALE else ok ()))
          else if \<not> block_protocol (ls_profile s) then fail ENOTSUP else ok ()) }"

definition authorize_write :: "env \<Rightarrow> led_session \<Rightarrow> (errno + unit) io" where
  "authorize_write E s =
     (if \<not> in_use s then fail EINVAL
      else if \<not> la_apply (ls_access s) \<or> experimental (ls_profile s) \<and> \<not> la_force (ls_access s) then fail EPERM
      else bindE (verify_session_identity E s) (\<lambda>_.
        case ls_cs s of Some c \<Rightarrow> if cs_confirmed c then ok () else fail ENOTSUP
        | None \<Rightarrow>
          (case ls_service s of Some k \<Rightarrow> if service_identity_confirmed k then ok () else fail ENOTSUP
           | None \<Rightarrow>
             bindE (production_owners E s) (\<lambda>_.
               case ls_sysfs s of
                 Some x \<Rightarrow> do { confirmed \<leftarrow> sysfs_identity_confirmed E x; (if confirmed then ok () else fail ENOTSUP) }
               | None \<Rightarrow> check_chip E s))))"

definition led_identity_confirmed :: "env \<Rightarrow> led_session \<Rightarrow> bool io" where
  "led_identity_confirmed E s =
     (if direct s
      then ret (ls_locked s \<and> \<not> ls_n76_failed s \<and> (case li_profile (ls_identity s) of None \<Rightarrow> False | Some p \<Rightarrow> is_n76_profile p) \<and>
                ls_chip_id s = 0xa5b5)
      else case ls_cs s of Some c \<Rightarrow> ret (cs_confirmed c)
        | None \<Rightarrow>
          (case ls_service s of Some k \<Rightarrow> ret (service_identity_confirmed k)
           | None \<Rightarrow>
             (case ls_sysfs s of Some x \<Rightarrow> sysfs_identity_confirmed E x
              | None \<Rightarrow> ret (ls_locked s \<and> li_profile (ls_identity s) \<noteq> None \<and> ls_chip_id s \<noteq> 0 \<and>
                             ls_chip_id s = expected_chip_id (ls_profile s) \<and> block_protocol (ls_profile s)))))"

section \<open>Changing a LED\<close>

definition retained :: "led_patch \<Rightarrow> led_value \<Rightarrow> bool" where
  "retained p v \<longleftrightarrow>
     (has p PATCH_RGB \<longrightarrow> red v = red (pv p) \<and> green v = green (pv p) \<and> blue v = blue (pv p)) \<and>
     (has p PATCH_BRIGHTNESS \<longrightarrow> brightness v = brightness (pv p)) \<and>
     (has p PATCH_MODE \<longrightarrow> mode v = mode (pv p)) \<and>
     (has p PATCH_TIMING \<longrightarrow> on_ms v = on_ms (pv p) \<and> off_ms v = off_ms (pv p))"

definition command_frame :: "led_profile \<Rightarrow> u8 \<Rightarrow> u8 \<Rightarrow> u8 list \<Rightarrow> errno + u8 list" where
  "command_frame p i command parameters =
     (if smbus_block p then led_encode_smbus command parameters (protocol p = ''smbus-block-le'')
      else led_encode i command parameters)"

text \<open>\<^verbatim>\<open>change\<close>: one command; \<open>expected\<close> names the fields it must leave behind.\<close>

definition led_change :: "env \<Rightarrow> nat \<Rightarrow> led_session \<Rightarrow> u8 \<Rightarrow> u8 \<times> u8 list \<times> led_patch \<Rightarrow> ((errno + led_value) \<times> led_session) io" where
  "led_change E fuel s i step =
     (case step of (command, parameters, expected) \<Rightarrow>
       tryC (authorize_write E s) s (\<lambda>_.
         case command_frame (ls_profile s) i command parameters of Inl e \<Rightarrow> ret (Inl e, s)
         | Inr frame \<Rightarrow> do {
             sleep_ms 1;
             tryC (write_command E s i frame) s (\<lambda>_. do {
               sleep_ms 2;
               tryC (read_ack E s) s (\<lambda>_.
                 thenC (led_read E fuel s i) (\<lambda>v s. ret (if retained expected v then Inr v else Inl EIO, s))) }) }))"

definition byte_of :: "u32 \<Rightarrow> u8" where
  "byte_of w = ucast w"

text \<open>The commands of a patch in the order of the code: colour, brightness, mode with its timing.\<close>

definition change_steps :: "led_patch \<Rightarrow> (u8 \<times> u8 list \<times> led_patch) list" where
  "change_steps p =
     (let v = pv p in
      (if has p PATCH_RGB then [(2, [byte_of (red v), byte_of (green v), byte_of (blue v), 0], p\<lparr>patch_fields := PATCH_RGB\<rparr>)] else []) @
      (if has p PATCH_BRIGHTNESS then [(1, [byte_of (brightness v), 0, 0, 0], p\<lparr>patch_fields := PATCH_BRIGHTNESS\<rparr>)] else []) @
      (if has p PATCH_MODE
       then (if mode v \<le> LED_MODE_ON then [(3, [byte_of (mode v), 0, 0, 0], p\<lparr>patch_fields := PATCH_MODE\<rparr>)]
             else let cycle = on_ms v + off_ms v in
               [(if mode v = LED_MODE_BLINK then 4 else 5,
                 [byte_of (drop_bit 8 cycle), byte_of cycle, byte_of (drop_bit 8 (on_ms v)), byte_of (on_ms v)],
                 p\<lparr>patch_fields := PATCH_MODE OR PATCH_TIMING\<rparr>)])
       else []))"

fun led_changes :: "env \<Rightarrow> nat \<Rightarrow> u8 \<Rightarrow> (u8 \<times> u8 list \<times> led_patch) list \<Rightarrow> led_value \<Rightarrow> led_session \<Rightarrow>
    ((errno + led_value) \<times> led_session) io" where
  "led_changes E fuel i [] v s = ret (Inr v, s)"
| "led_changes E fuel i (step # steps) v s = thenC (led_change E fuel s i step) (\<lambda>v s. led_changes E fuel i steps v s)"

text \<open>The commands of an N76 plan; the two mode registers are read back.\<close>

fun n76_commands :: "env \<Rightarrow> led_session \<Rightarrow> n76_plan_struct \<Rightarrow> n76_command list \<Rightarrow> (errno + unit) io" where
  "n76_commands E s plan [] = ok ()"
| "n76_commands E s plan (c # cs) =
     bindE (authorize_write E s) (\<lambda>_.
     bindE (n76_write_byte E s (cmd_reg c) (cmd_value c)) (\<lambda>_. do {
       sleep_ms (settle_ms c);
       bindE (if cmd_reg c = fst (mode_registers plan) \<or> cmd_reg c = snd (mode_registers plan)
              then bindE (n76_read_byte E s (cmd_reg c)) (\<lambda>actual. if actual \<noteq> cmd_value c then fail EIO else ok ())
              else ok ()) (\<lambda>_. n76_commands E s plan cs) }))"

definition n76_apply :: "env \<Rightarrow> nat \<Rightarrow> led_session \<Rightarrow> u8 \<Rightarrow> led_patch \<Rightarrow> ((errno + led_value) \<times> led_session) io" where
  "n76_apply E fuel s i p =
     (case n76_plan (ls_profile s) i p of Inl e \<Rightarrow> ret (Inl e, s)
      | Inr plan \<Rightarrow>
          thenC (led_read E fuel s i) (\<lambda>_ s. do {
            (r, s) \<leftarrow> tryC (n76_commands E s plan (commands plan)) s (\<lambda>_.
              thenC (led_read E fuel s i) (\<lambda>v s.
                ret (if n76_modes v \<noteq> expected_modes plan then Inl EIO else Inr v, s)));
            ret (case r of Inl e \<Rightarrow> (Inl e, s\<lparr>ls_n76_failed := True\<rparr>) | Inr v \<Rightarrow> (Inr (v\<lparr>unverified_write := True\<rparr>), s)) }))"

definition led_preflight :: "env \<Rightarrow> led_session \<Rightarrow> u8 \<Rightarrow> led_value \<Rightarrow> led_patch \<Rightarrow> (errno + unit) io" where
  "led_preflight E s i before p =
     (if session_target s i = None then fail EINVAL
      else if direct s then ret (case n76_plan (ls_profile s) i p of Inl e \<Rightarrow> Inl e | Inr _ \<Rightarrow> Inr ())
      else case ls_sysfs s of Some x \<Rightarrow> sysfs_preflight E x i before p
        | None \<Rightarrow> ret (status_of (led_validate_state_patch (ls_profile s) (session_target s i) before p)))"

definition i2c_apply :: "env \<Rightarrow> nat \<Rightarrow> led_session \<Rightarrow> u8 \<Rightarrow> led_patch \<Rightarrow> ((errno + led_value) \<times> led_session) io" where
  "i2c_apply E fuel s i p =
     thenC (led_read E fuel s i) (\<lambda>v s.
     thenC (led_changes E fuel i (change_steps p) v s) (\<lambda>v s. ret (if retained p v then Inr v else Inl EIO, s)))"

definition led_apply :: "env \<Rightarrow> nat \<Rightarrow> led_session \<Rightarrow> u8 \<Rightarrow> led_patch \<Rightarrow> ((errno + led_value) \<times> led_session) io" where
  "led_apply E fuel s i p =
     (if session_target s i = None then ret (Inl EINVAL, s)
      else case led_validate_target_patch (session_target s i) p of Some e \<Rightarrow> ret (Inl e, s)
      | None \<Rightarrow>
          tryC (authorize_write E s) s (\<lambda>_.
            if direct s then n76_apply E fuel s i p
            else case ls_cs s of Some c \<Rightarrow> do { (r, c) \<leftarrow> cs_apply E i p c; ret (r, s\<lparr>ls_cs := Some c\<rparr>) }
            | None \<Rightarrow>
              (case ls_service s of
                 Some k \<Rightarrow> do { (r, k) \<leftarrow> service_apply E fuel i p k; ret (bounded r, s\<lparr>ls_service := Some k\<rparr>) }
               | None \<Rightarrow>
                 (case ls_sysfs s of Some x \<Rightarrow> do { r \<leftarrow> sysfs_apply (authorize_write E s) E x i p; ret (r, s) }
                  | None \<Rightarrow> i2c_apply E fuel s i p))))"

section \<open>Identification\<close>

definition binary_flash :: "led_value \<Rightarrow> nat \<Rightarrow> led_patch" where
  "binary_flash saved tick =
     \<lparr>patch_fields = (if odd tick then PATCH_MODE else PATCH_MODE OR PATCH_COLOR),
      pv = zero_value\<lparr>mode := (if odd tick then LED_MODE_OFF else LED_MODE_ON),
        color := (if mode saved = LED_MODE_ON then color saved else LED_COLOR_WHITE)\<rparr>\<rparr>"

fun binary_flashes :: "env \<Rightarrow> nat \<Rightarrow> u8 \<Rightarrow> led_value \<Rightarrow> nat list \<Rightarrow> led_session \<Rightarrow> ((errno + unit) \<times> led_session) io" where
  "binary_flashes E fuel i saved [] s = ret (Inr (), s)"
| "binary_flashes E fuel i saved (tick # ticks) s =
     thenC (led_apply E fuel s i (binary_flash saved tick)) (\<lambda>_ s. do {
       stop \<leftarrow> poll_cancelled E;
       (if stop then ret (Inr (), s) else do { sleep_ms 250; binary_flashes E fuel i saved ticks s }) })"

definition identify_binary :: "env \<Rightarrow> nat \<Rightarrow> led_session \<Rightarrow> u8 \<Rightarrow> u32 \<Rightarrow> ((errno + unit) \<times> led_session) io" where
  "identify_binary E fuel s i seconds =
     thenC (led_read E fuel s i) (\<lambda>saved s.
       if unknown_fields saved AND (PATCH_MODE OR PATCH_BRIGHTNESS) \<noteq> 0 \<or>
          mode saved = LED_MODE_ON \<and> unknown_fields saved AND PATCH_COLOR \<noteq> 0 then ret (Inl ENOTSUP, s)
       else if mode saved \<noteq> LED_MODE_ON \<and> mode saved \<noteq> LED_MODE_OFF then ret (Inl ENOTSUP, s)
       else do {
         (result, s) \<leftarrow> binary_flashes E fuel i saved [0..<unat seconds * 4] s;
         thenC (led_apply E fuel s i
             \<lparr>patch_fields = (if mode saved = LED_MODE_ON then PATCH_MODE OR PATCH_COLOR else PATCH_MODE), pv = saved\<rparr>)
           (\<lambda>current s.
             ret (if mode current \<noteq> mode saved \<or> brightness current \<noteq> brightness saved \<or>
                     mode saved = LED_MODE_ON \<and> color current \<noteq> color saved then Inl EIO else result, s)) })"

definition RGB_FIELDS :: u32 where
  "RGB_FIELDS = PATCH_RGB OR PATCH_BRIGHTNESS OR PATCH_MODE OR PATCH_TIMING"

definition identify_patch :: led_patch where
  "identify_patch = \<lparr>patch_fields = RGB_FIELDS,
     pv = zero_value\<lparr>mode := LED_MODE_BLINK, red := 255, green := 100, brightness := 255, on_ms := 250, off_ms := 250\<rparr>\<rparr>"

fun identify_wait :: "env \<Rightarrow> nat \<Rightarrow> unit io" where
  "identify_wait E 0 = ret ()"
| "identify_wait E (Suc n) = do {
     stop \<leftarrow> poll_cancelled E;
     (if stop then ret () else do { sleep_ms 100; identify_wait E n }) }"

definition steady_led :: "led_value \<Rightarrow> bool" where
  "steady_led v \<longleftrightarrow> mode v = LED_MODE_OFF \<or> mode v = LED_MODE_ON"

definition same_led_state :: "led_value \<Rightarrow> led_value \<Rightarrow> bool" where
  "same_led_state a b \<longleftrightarrow> mode a = mode b \<and> brightness a = brightness b \<and> red a = red b \<and> green a = green b \<and>
     blue a = blue b \<and> on_ms a = on_ms b \<and> off_ms a = off_ms b"

text \<open>Restoration: the dormant timing of a steady LED is written while it blinks.\<close>

definition restore_led :: "env \<Rightarrow> nat \<Rightarrow> led_session \<Rightarrow> u8 \<Rightarrow> led_value \<Rightarrow> ((errno + led_value) \<times> led_session) io" where
  "restore_led E fuel s i original =
     (let first = (if steady_led original then original\<lparr>mode := LED_MODE_BLINK\<rparr> else original) in
      thenC (led_apply E fuel s i \<lparr>patch_fields = RGB_FIELDS, pv = first\<rparr>) (\<lambda>current s.
        if mode first \<noteq> mode original then led_apply E fuel s i \<lparr>patch_fields = PATCH_MODE, pv = original\<rparr>
        else ret (Inr current, s)))"

definition identify_rgb :: "env \<Rightarrow> nat \<Rightarrow> led_session \<Rightarrow> u8 \<Rightarrow> u32 \<Rightarrow> ((errno + unit) \<times> led_session) io" where
  "identify_rgb E fuel s i seconds =
     thenC (led_read E fuel s i) (\<lambda>original s. do {
       (result, s) \<leftarrow> led_apply E fuel s i identify_patch;
       (if isl result then ret () else identify_wait E (unat seconds * 10));
       thenC (restore_led E fuel s i original) (\<lambda>current s.
         ret (if \<not> same_led_state current original then Inl EIO
              else case result of Inl e \<Rightarrow> Inl e | Inr _ \<Rightarrow> Inr (), s)) })"

definition led_identify :: "env \<Rightarrow> nat \<Rightarrow> led_session \<Rightarrow> u8 \<Rightarrow> u32 \<Rightarrow> ((errno + unit) \<times> led_session) io" where
  "led_identify E fuel s i seconds =
     (if seconds < 1 \<or> seconds > 60 then ret (Inl EINVAL, s)
      else tryC (authorize_write E s) s (\<lambda>_.
        case session_target s i of None \<Rightarrow> ret (Inl EINVAL, s)
        | Some t \<Rightarrow>
          (case ls_cs s of Some c \<Rightarrow> do { (r, c) \<leftarrow> cs_identify E i seconds c; ret (r, s\<lparr>ls_cs := Some c\<rparr>) }
           | None \<Rightarrow>
             (case (if protocol (ls_profile s) = ''cs201x-sio'' then ls_service s else None) of
                Some k \<Rightarrow> do { (r, k) \<leftarrow> service_identify E fuel i seconds k; ret (bounded r, s\<lparr>ls_service := Some k\<rparr>) }
              | None \<Rightarrow>
                (case ls_sysfs s of
                   Some x \<Rightarrow> do { r \<leftarrow> sysfs_identify (authorize_write E s) (authorize_write E s) E x i seconds; ret (r, s) }
                 | None \<Rightarrow> if \<not> rgb t then identify_binary E fuel s i seconds else identify_rgb E fuel s i seconds)))))"

section \<open>Opening\<close>

text \<open>\<^verbatim>\<open>sscanf(name, "i2c-%u%c", ...) == 1\<close>: a number and nothing after it.\<close>

definition adapter_number :: "string \<Rightarrow> u32 option" where
  "adapter_number name =
     (if \<not> starts_with ''i2c-'' name then None
      else let digits = drop 4 name; (v, rest, range) = strtoul10 digits in
        if rest \<noteq> [] \<or> digits = [] then None else Some (ucast v))"

definition adapter_name :: "env \<Rightarrow> string \<Rightarrow> (errno + string) io" where
  "adapter_name E entry = do {
     let directory = ''/sys/class/i2c-dev/'' @ entry;
     r \<leftarrow> led_read_text E (directory @ ''/name'') 256;
     (if r = Inl ENOENT then led_read_text E (directory @ ''/device/name'') 256 else ret r) }"

text \<open>The adapters whose name has the documented prefix.\<close>

fun matching_adapters :: "env \<Rightarrow> led_profile \<Rightarrow> string list \<Rightarrow> (errno + u32 list) io" where
  "matching_adapters E p [] = ok []"
| "matching_adapters E p (entry # entries) =
     (case adapter_number entry of None \<Rightarrow> matching_adapters E p entries
      | Some n \<Rightarrow>
          bindE (adapter_name E entry) (\<lambda>name.
          bindE (matching_adapters E p entries) (\<lambda>ns.
            ok (if (case bus_prefix p of None \<Rightarrow> False | Some q \<Rightarrow> starts_with q name) then n # ns else ns))))"

definition I2C_READ_BYTE_DATA :: u64 where "I2C_READ_BYTE_DATA = 0x00080000"
definition I2C_WRITE_BYTE_DATA :: u64 where "I2C_WRITE_BYTE_DATA = 0x00100000"
definition I2C_READ_WORD_DATA :: u64 where "I2C_READ_WORD_DATA = 0x00200000"
definition I2C_WRITE_BLOCK_DATA :: u64 where "I2C_WRITE_BLOCK_DATA = 0x02000000"
definition I2C_READ_I2C_BLOCK :: u64 where "I2C_READ_I2C_BLOCK = 0x04000000"
definition I2C_WRITE_I2C_BLOCK :: u64 where "I2C_WRITE_I2C_BLOCK = 0x08000000"

definition required_functions :: "led_profile \<Rightarrow> u64" where
  "required_functions p =
     I2C_READ_I2C_BLOCK OR (if smbus_block p then I2C_WRITE_BLOCK_DATA else I2C_WRITE_I2C_BLOCK) OR
     I2C_READ_BYTE_DATA OR I2C_READ_WORD_DATA"

definition has_functions :: "env \<Rightarrow> nat \<Rightarrow> u64 \<Rightarrow> (errno + unit) io" where
  "has_functions E fd required =
     bindE (i2c_funcs E fd) (\<lambda>functions. if functions AND required \<noteq> required then fail ENOTSUP else ok ())"

definition bus_device :: "u32 \<Rightarrow> string" where
  "bus_device n = ''/dev/i2c-'' @ dec (unat n)"

definition find_bus :: "env \<Rightarrow> led_session \<Rightarrow> ((errno + unit) \<times> led_session) io" where
  "find_bus E s =
     tryC (list_dir E ''/sys/class/i2c-dev'') s (\<lambda>entries.
     tryC (matching_adapters E (ls_profile s) entries) s (\<lambda>ns.
       case ns of
         [n] \<Rightarrow>
           (let s = s\<lparr>ls_bus_number := n, ls_bus := bus_device n\<rparr> in
            tryC (production_owners E s) s (\<lambda>_.
            tryC (open_device E (ls_bus s)) s (\<lambda>fd.
              let s = s\<lparr>ls_fd := Some fd\<rparr> in
              tryC (has_functions E fd (required_functions (ls_profile s))) s (\<lambda>_. do {
                r \<leftarrow> i2c_slave E fd (i2c_address (ls_profile s));
                ret (status_of r, s) }))))
       | _ \<Rightarrow> ret (Inl ENOTSUP, s)))"

definition acquire :: "env \<Rightarrow> led_session \<Rightarrow> ((errno + unit) \<times> led_session) io" where
  "acquire E s =
     tryC (production_owners E s) s (\<lambda>_. thenC (session_lock E s) (\<lambda>_ s. ret (Inr (), s\<lparr>ls_locked := True\<rparr>)))"

definition n76_probe :: "env \<Rightarrow> led_session \<Rightarrow> ((errno + unit) \<times> led_session) io" where
  "n76_probe E s =
     tryC (verify_session_identity E s) s (\<lambda>_.
     tryC (production_owners E s) s (\<lambda>_.
     tryC (read_chip_id E s) s (\<lambda>chip.
       let s = s\<lparr>ls_chip_id := chip\<rparr> in
       if chip \<noteq> 0xa5b5 then ret (Inl ENODEV, s)
       else tryC (n76_read_byte E s 0x5d) s (\<lambda>version. ret (Inr (), s\<lparr>ls_n76_version := version\<rparr>)))))"

definition n76_open_bus :: "env \<Rightarrow> led_session \<Rightarrow> ((errno + unit) \<times> led_session) io" where
  "n76_open_bus E s =
     (let n = n76_bus (ls_access s); s = s\<lparr>ls_bus_number := n, ls_bus := bus_device n\<rparr> in
      tryC (open_device E (ls_bus s)) s (\<lambda>fd.
        let s = s\<lparr>ls_fd := Some fd\<rparr> in
        tryC (fstat E fd) s (\<lambda>st.
          if sx_device st \<noteq> Some (89, unat n) then ret (Inl ENODEV, s)
          else tryC (has_functions E fd (I2C_READ_BYTE_DATA OR I2C_WRITE_BYTE_DATA)) s (\<lambda>_. n76_probe E s))))"

text \<open>An absent chip identity does not stop a read-only session.\<close>

definition probe :: "env \<Rightarrow> nat \<Rightarrow> led_session \<Rightarrow> ((errno + unit) \<times> led_session) io" where
  "probe E fuel s = do {
     r \<leftarrow> read_chip_id E s;
     let s = s\<lparr>ls_chip_id := (case r of Inl _ \<Rightarrow> 0 | Inr chip \<Rightarrow> chip)\<rparr>;
     thenC (led_read E fuel s 0) (\<lambda>_ s. thenC (led_read E fuel s 1) (\<lambda>_ s. ret (Inr (), s))) }"

definition led_close :: "env \<Rightarrow> led_session \<Rightarrow> unit io" where
  "led_close E s = do {
     (case ls_cs s of None \<Rightarrow> ret () | Some c \<Rightarrow> cs_close E c);
     (case ls_service s of None \<Rightarrow> ret () | Some k \<Rightarrow> service_close k);
     (case ls_fd s of None \<Rightarrow> ret () | Some fd \<Rightarrow> close_fd fd);
     session_unlock s }"

definition open_locked :: "env \<Rightarrow> nat \<Rightarrow> led_session \<Rightarrow> ((errno + unit) \<times> led_session) io" where
  "open_locked E fuel s =
     thenC (acquire E s) (\<lambda>_ s.
       if direct s then n76_open_bus E s
       else if starts_with ''sysfs-'' (protocol (ls_profile s)) then
         tryC (sysfs_open E (ls_profile s) ''/sys'') s (\<lambda>x.
           ret (Inr (), s\<lparr>ls_sysfs := Some x,
             ls_bus := take 63 (''sysfs:'' @ (case sysfs_driver (ls_profile s) of None \<Rightarrow> [] | Some d \<Rightarrow> d))\<rparr>))
       else thenC (find_bus E s) (\<lambda>_ s. probe E fuel s))"

definition direct_refused :: "led_access \<Rightarrow> led_profile \<Rightarrow> bool" where
  "direct_refused ac p \<longleftrightarrow> n76_direct ac \<and>
     (\<not> is_n76_profile p \<or> n76_bus ac > 65535 \<or> n76_address ac \<noteq> 0x31 \<and> n76_address ac \<noteq> 0x26)"

definition service_session :: "led_session \<Rightarrow> service_client \<Rightarrow> led_session" where
  "service_session s k =
     (let cs = protocol (ls_profile s) = ''cs201x-sio'' in
      s\<lparr>ls_service := Some k, ls_bus := (if cs then ''cs201x'' else ''gpio'') @ '':ugreenctl-ledd'',
        ls_chip_id := (if cs then expected_chip_id (ls_profile s) else 0)\<rparr>)"

text \<open>A holder that is present but unavailable is never bypassed: only \<^verbatim>\<open>ENOENT\<close> leads to the local back ends.\<close>

definition open_local :: "env \<Rightarrow> nat \<Rightarrow> led_session \<Rightarrow> (errno + led_session) io" where
  "open_local E fuel s =
     (if protocol (ls_profile s) = ''cs201x-sio''
      then bindE (cs_open E (ls_access s)) (\<lambda>c.
        ok (s\<lparr>ls_cs := Some c, ls_identity := cs_identity c, ls_chip_id := cs_chip_id c, ls_bus := take 63 (cs_bus c)\<rparr>))
      else do {
        (r, s) \<leftarrow> open_locked E fuel s;
        (case r of Inl e \<Rightarrow> do { led_close E s; fail e } | Inr _ \<Rightarrow> ok s) })"

definition led_open :: "env \<Rightarrow> nat \<Rightarrow> led_access \<Rightarrow> (errno + led_session) io" where
  "led_open E fuel ac =
     bindE (led_detect E) (\<lambda>identity.
       let s = fresh_session ac identity; p = ls_profile s in
       if direct_refused ac p then fail ENOTSUP
       else if protocol p = ''cs201x-sio'' \<or> protocol p = ''sysfs-gpio'' then do {
         r \<leftarrow> service_connect E fuel p ac;
         (case bounded r of Inr k \<Rightarrow> ok (service_session s k)
          | Inl e \<Rightarrow> if e = ENOENT then open_local E fuel s else fail e) }
       else open_local E fuel s)"

section \<open>What a session on the MCU may write\<close>

text \<open>The events that change something outside the process.\<close>

fun no_change :: "event \<Rightarrow> bool" where
  "no_change (Smbus_write_byte _ _ _ _) = False"
| "no_change (Smbus_write_block _ _ _ _ _) = False"
| "no_change (Write_file _ _ _) = False"
| "no_change (Outb _ _) = False"
| "no_change (Set_wol _ _ _ _) = False"
| "no_change (Spawn _ _) = False"
| "no_change (Gpio (Gpio_set_config _ _ _ _)) = False"
| "no_change (Net (Send _ _ _)) = False"
| "no_change _ = True"

lemma observation_no_change: "observation e \<Longrightarrow> no_change e"
  by (cases e) simp_all

definition mcu_session :: "led_session \<Rightarrow> bool" where
  "mcu_session s \<longleftrightarrow> ls_cs s = None \<and> ls_service s = None \<and> ls_sysfs s = None \<and> \<not> direct s"

definition write_allowed :: "led_session \<Rightarrow> bool" where
  "write_allowed s \<longleftrightarrow> la_apply (ls_access s) \<and> (experimental (ls_profile s) \<longrightarrow> la_force (ls_access s))"

text \<open>The history ends with the expected answer of the chip to its identity register and the pause before the command.\<close>

definition chip_answered :: "led_session \<Rightarrow> trace \<Rightarrow> bool" where
  "chip_answered s es \<longleftrightarrow>
     (\<exists>cs. es = cs @ [Smbus_read_word (device_fd s) (chip_register (ls_profile s)) (Inr (expected_chip_id (ls_profile s))), Sleep_ms 1])"

definition command_for :: "led_session \<Rightarrow> u8 \<Rightarrow> event \<Rightarrow> bool" where
  "command_for s i e \<longleftrightarrow>
     (\<exists>command parameters frame r. command_frame (ls_profile s) i command parameters = Inr frame \<and>
        e = Smbus_write_block (device_fd s) (smbus_block (ls_profile s)) i (take (if smbus_block (ls_profile s) then 11 else 12) frame) r)"

definition mcu_checked :: "led_session \<Rightarrow> u8 \<Rightarrow> trace \<Rightarrow> bool" where
  "mcu_checked s i es \<longleftrightarrow>
     (\<forall>as e bs. es = as @ e # bs \<longrightarrow> \<not> no_change e \<longrightarrow> write_allowed s \<and> command_for s i e \<and> chip_answered s as)"

lemma chip_answered_prefix: "chip_answered s fs \<Longrightarrow> chip_answered s (es @ fs)"
  unfolding chip_answered_def by (metis append_assoc)

lemma mcu_checked_append:
  assumes "mcu_checked s i es" "mcu_checked s i fs"
  shows "mcu_checked s i (es @ fs)"
  unfolding mcu_checked_def
proof (intro allI impI)
  fix as e bs
  assume "es @ fs = as @ e # bs" and e: "\<not> no_change e"
  then consider us where "es = as @ e # us" | us where "as = es @ us" "fs = us @ e # bs"
    by (auto simp: append_eq_append_conv2 append_eq_Cons_conv)
  then show "write_allowed s \<and> command_for s i e \<and> chip_answered s as"
    using assms e unfolding mcu_checked_def by cases (blast intro: chip_answered_prefix)+
qed

interpretation mcu: segments "mcu_checked s i" for s i
  by unfold_locales (simp add: mcu_checked_def, rule mcu_checked_append)

lemma unchanged_checked: "list_all no_change es \<Longrightarrow> mcu_checked s i es"
  by (auto simp: mcu_checked_def)

lemma checked_quiet: "mcu_checked s i fs \<Longrightarrow> list_all no_change gs \<Longrightarrow> mcu_checked s i (fs @ gs)"
  by (rule mcu.append) (simp_all add: unchanged_checked)

section \<open>Steps that change nothing\<close>

lemma quiet_verify: "emits no_change (verify_session_identity E s)"
  unfolding verify_session_identity_def
  by (intro emits_intros observes [OF observe_detect observation_no_change])

lemma quiet_owners: "emits no_change (production_owners E s)"
proof -
  have absent: "emits no_change (paths_absent E ps)" for ps
    by (induction ps) (auto simp: calls intro!: emits_intros)
  show ?thesis
    unfolding production_owners_def process_owners_def
    by (intro emits_intros absent observes [OF observe_processes observation_no_change])
qed

text \<open>The value was decoded from a status frame of LED \<open>i\<close>, and nothing was changed afterwards.\<close>

definition last_status :: "led_session \<Rightarrow> u8 \<Rightarrow> led_value \<Rightarrow> trace \<Rightarrow> bool" where
  "last_status s i v es \<longleftrightarrow>
     (\<exists>as data bs. es = as @ Smbus_read_block (device_fd s) (0x81 + i) (Inr (11, data)) # bs \<and> list_all no_change bs \<and>
        led_decode (take 11 (data @ replicate 11 0)) = Inr v)"

lemma last_status_prefix: "last_status s i v fs \<Longrightarrow> last_status s i v (es @ fs)"
  unfolding last_status_def by (metis append_assoc)

lemma last_statusI:
  "led_decode (take 11 (data @ replicate 11 0)) = Inr v \<Longrightarrow> last_status s i v [Smbus_read_block (device_fd s) (0x81 + i) (Inr (11, data))]"
  unfolding last_status_def by (intro exI [of _ "[]"] exI [of _ data]) simp

lemma seg_attempts:
  "seg (\<lambda>r es. list_all no_change es \<and> (\<forall>v. r = Inr v \<longrightarrow> last_status s i v es)) (read_attempts E s i pauses e)"
proof (induction pauses arbitrary: e)
  case Nil
  then show ?case by (simp add: seg_return)
next
  case (Cons pause pauses)
  have pause: "seg (\<lambda>_ es. list_all no_change es) (sleep_ms n)" for n
    by (simp add: calls seg_prim)
  have frame: "seg (\<lambda>r es. list_all no_change es \<and> (\<forall>v. r = Inr v \<longrightarrow> last_status s i v es))
      (bindE (read_led_status E s i) (\<lambda>frame. ret (led_decode frame)))"
    unfolding read_led_status_def calls
    by (rule seg_bindE [of "\<lambda>r es. list_all no_change es \<and> (\<forall>frame. r = Inr frame \<longrightarrow> (\<exists>data.
          es = [Smbus_read_block (device_fd s) (0x81 + i) (Inr (11, data))] \<and> frame = take 11 (data @ replicate 11 0)))"])
      (auto intro!: seg_bindE [OF seg_prim [where P = "\<lambda>r es. es = [Smbus_read_block (device_fd s) (0x81 + i) r]"]] seg_return
        simp del: take_append intro: last_statusI split: if_splits)
  show ?case
    unfolding read_attempts.simps
    by (rule seg_bind [OF pause], rule seg_bind [OF frame], rule seg_case_sum, rule seg_if)
      (auto intro!: seg_return seg_mono [OF Cons.IH] intro: last_status_prefix)
qed

lemma seg_read:
  assumes s: "mcu_session s"
  shows "seg (\<lambda>(r, s') es. s' = s \<and> list_all no_change es \<and> (\<forall>v. r = Inr v \<longrightarrow> last_status s i v es)) (led_read E fuel s i)"
proof -
  have none: "ls_cs s = None" "ls_service s = None" "ls_sysfs s = None" "\<not> direct s" using s by (auto simp: mcu_session_def)
  show ?thesis
    unfolding led_read_def none option.case if_not_P [OF none(4)]
    by (rule seg_if, rule seg_return, simp, rule seg_tryC [OF seg_appends [OF quiet_verify]], simp,
        rule seg_tryC [OF seg_appends [OF quiet_owners]], simp, rule seg_bind [OF seg_attempts], rule seg_return)
      (auto intro: last_status_prefix)
qed

section \<open>Authorization ends with the identity of the chip\<close>

lemma seg_authorize:
  assumes s: "mcu_session s"
  shows "seg (\<lambda>r es. list_all no_change es \<and> (r = Inr () \<longrightarrow> write_allowed s \<and> chip_answered s (es @ [Sleep_ms 1]))) (authorize_write E s)"
proof -
  have none: "ls_cs s = None" "ls_service s = None" "ls_sysfs s = None" "\<not> direct s" using s by (auto simp: mcu_session_def)
  have chip: "seg (\<lambda>r es. list_all no_change es \<and> (r = Inr () \<longrightarrow> chip_answered s (es @ [Sleep_ms 1]))) (check_chip E s)"
    unfolding check_chip_def read_chip_id_def if_not_P [OF none(4)] calls
    by (rule seg_bind [OF seg_prim [where P = "\<lambda>r es. es = [Smbus_read_word (device_fd s) (chip_register (ls_profile s)) r]"]], simp)
      (auto intro!: seg_case_sum seg_if seg_return simp: chip_answered_def)
  show ?thesis
    unfolding authorize_write_def none option.case
    by (rule seg_if, rule seg_return, simp, rule seg_if, rule seg_return, simp,
        rule seg_bindE [OF seg_appends [OF quiet_verify]], simp, rule seg_bindE [OF seg_appends [OF quiet_owners]], simp,
        rule seg_mono [OF chip])
      (auto simp: write_allowed_def intro: chip_answered_prefix)
qed

section \<open>Changes\<close>

text \<open>What a changing operation leaves: the session as it was, checked writes only, and for a result the last status.\<close>

definition left_by :: "led_session \<Rightarrow> u8 \<Rightarrow> ('a \<Rightarrow> led_value \<Rightarrow> bool) \<Rightarrow> (errno + 'a) \<times> led_session \<Rightarrow> trace \<Rightarrow> bool" where
  "left_by s i Q r es \<longleftrightarrow> snd r = s \<and> mcu_checked s i es \<and> (\<forall>x. fst r = Inr x \<longrightarrow> (\<exists>v. last_status s i v es \<and> Q x v))"

lemma seg_write_command:
  assumes "command_frame (ls_profile s) i command parameters = Inr frame" "write_allowed s"
  shows "seg (\<lambda>r es. \<forall>as. chip_answered s as \<longrightarrow> mcu_checked s i as \<longrightarrow> mcu_checked s i (as @ es)) (write_command E s i frame)"
proof -
  let ?e = "\<lambda>r. Smbus_write_block (device_fd s) (smbus_block (ls_profile s)) i (take (if smbus_block (ls_profile s) then 11 else 12) frame) r"
  have one: "seg (\<lambda>r es. es = [?e r]) (if smbus_block (ls_profile s) then smbus_write_block E (device_fd s) True i (take 11 frame)
          else smbus_write_block E (device_fd s) False i (take 12 frame))"
    by (auto simp: calls intro!: seg_if seg_prim)
  have checked: "mcu_checked s i (as @ [?e r])" if "chip_answered s as" "mcu_checked s i as" for as r
    unfolding mcu_checked_def
  proof (intro allI impI)
    fix bs e cs
    assume split: "as @ [?e r] = bs @ e # cs" and e: "\<not> no_change e"
    then consider us where "as = bs @ e # us" | "bs = as" "e = ?e r"
      by (cases cs rule: rev_cases) auto
    then show "write_allowed s \<and> command_for s i e \<and> chip_answered s bs"
    proof cases
      case 1
      with that(2) e show ?thesis unfolding mcu_checked_def by blast
    next
      case 2
      with that(1) assms show ?thesis unfolding command_for_def by blast
    qed
  qed
  show ?thesis
    unfolding write_command_def by (rule seg_bind [OF one], rule seg_return) (auto simp: checked)
qed

lemma seg_change:
  assumes s: "mcu_session s"
  shows "seg (left_by s i (\<lambda>v w. v = w \<and> retained (snd (snd step)) v)) (led_change E fuel s i step)"
proof -
  obtain command parameters expected where step: "step = (command, parameters, expected)" by (cases step)
  let ?Q = "left_by s i (\<lambda>v w. v = w \<and> retained expected v)"
  have sleep: "seg (\<lambda>_ es. es = [Sleep_ms n]) (sleep_ms n)" for n
    by (simp add: calls seg_prim)
  have ack: "seg (\<lambda>_ es. list_all no_change es) (read_ack E s)"
    unfolding read_ack_def calls by (rule seg_appends) (intro emits_intros; simp)
  have after: "seg (\<lambda>r es. ?Q r (fs @ es)) (do {
               sleep_ms 2;
               tryC (read_ack E s) s (\<lambda>_.
                 thenC (led_read E fuel s i) (\<lambda>v s. ret (if retained expected v then Inr v else Inl EIO, s))) })"
    if fs: "mcu_checked s i fs" for fs
    apply (rule seg_bind [OF sleep], rule seg_tryC [OF ack])
    subgoal using fs by (simp add: left_by_def checked_quiet)
    apply (rule seg_thenC [OF seg_read [OF s, unfolded case_prod_unfold]])
    subgoal using fs by (simp add: left_by_def checked_quiet)
    subgoal for _ es1 _ es2 v t es3
      using fs last_status_prefix [of s i v es3 "fs @ es1 @ es2"]
      by (intro seg_return) (simp add: left_by_def checked_quiet)
    done
  have command: "seg (\<lambda>r es. ?Q r (fs @ es)) (do {
             sleep_ms 1;
             tryC (write_command E s i frame) s (\<lambda>_. do {
               sleep_ms 2;
               tryC (read_ack E s) s (\<lambda>_.
                 thenC (led_read E fuel s i) (\<lambda>v s. ret (if retained expected v then Inr v else Inl EIO, s))) }) })"
    if frame: "command_frame (ls_profile s) i command parameters = Inr frame" and allowed: "write_allowed s"
      and fs: "list_all no_change fs" "chip_answered s (fs @ [Sleep_ms 1])" for frame fs
  proof -
    have "mcu_checked s i (fs @ [Sleep_ms 1])" using fs(1) by (simp add: unchanged_checked)
    with fs(2) show ?thesis
      apply -
      apply (rule seg_bind [OF sleep], rule seg_tryC [OF seg_write_command [OF frame allowed]])
      subgoal for _ es1 e es2
        by (drule spec [of _ "fs @ es1"]) (simp add: left_by_def)
      subgoal for _ es1 x es2
        using after [of "fs @ es1 @ es2"] by (auto dest: spec [of _ "fs @ es1"])
      done
  qed
  show ?thesis
    unfolding led_change_def step prod.case snd_conv
    apply (rule seg_tryC [OF seg_authorize [OF s]])
    subgoal by (simp add: left_by_def unchanged_checked)
    subgoal for x es
      apply (rule seg_case_sum)
      subgoal by (rule seg_return) (simp add: left_by_def unchanged_checked)
      subgoal for frame using command [of frame es] by simp
      done
    done
qed

lemma seg_changes:
  assumes s: "mcu_session s"
  shows "mcu_checked s i fs \<Longrightarrow> last_status s i v fs \<Longrightarrow>
    seg (\<lambda>r es. left_by s i (=) r (fs @ es)) (led_changes E fuel i steps v s)"
proof (induction steps arbitrary: v fs)
  case Nil
  then show ?case by (auto intro!: seg_return simp: left_by_def)
next
  case (Cons step steps)
  show ?case
    unfolding led_changes.simps
    apply (rule seg_thenC [OF seg_change [OF s]])
    subgoal using Cons.prems by (simp add: left_by_def mcu.append)
    subgoal for w t es
      using Cons.IH [of "fs @ es" w] Cons.prems by (auto simp: left_by_def mcu.append intro: last_status_prefix)
    done
qed

lemma seg_i2c_apply:
  assumes s: "mcu_session s"
  shows "seg (left_by s i (\<lambda>v w. v = w \<and> retained p v)) (i2c_apply E fuel s i p)"
  unfolding i2c_apply_def
  apply (rule seg_thenC [OF seg_read [OF s, unfolded case_prod_unfold]])
  subgoal by (simp add: left_by_def unchanged_checked)
  subgoal for v t es
    apply (rule seg_thenC [of "\<lambda>r es'. left_by s i (=) r (es @ es')"])
    subgoal using seg_changes [OF s, of i es v] by (simp add: unchanged_checked)
    subgoal by (simp add: left_by_def)
    subgoal by (rule seg_return) (auto simp: left_by_def)
    done
  done

lemma seg_apply:
  assumes s: "mcu_session s"
  shows "seg (left_by s i (\<lambda>v w. v = w \<and> retained p v)) (led_apply E fuel s i p)"
proof -
  have none: "ls_cs s = None" "ls_service s = None" "ls_sysfs s = None" "\<not> direct s" using s by (auto simp: mcu_session_def)
  have prefix: "left_by s i Q r (es @ fs)" if "list_all no_change es" "left_by s i Q r fs" for Q r es fs
    using that mcu.append [OF unchanged_checked [OF that(1)], of s i fs] by (auto simp: left_by_def intro: last_status_prefix)
  show ?thesis
    unfolding led_apply_def none option.case if_not_P [OF none(4)]
    apply (rule seg_if, rule seg_return, simp add: left_by_def unchanged_checked, rule seg_case_option)
     apply (rule seg_tryC [OF seg_authorize [OF s]])
    subgoal by (simp add: left_by_def unchanged_checked)
    subgoal by (rule seg_mono [OF seg_i2c_apply [OF s]]) (auto intro: prefix)
    subgoal by (rule seg_return) (simp add: left_by_def unchanged_checked)
    done
qed

section \<open>Identification\<close>

lemma keeps_read: "mcu_session s \<Longrightarrow> t = s \<Longrightarrow> keeps (\<lambda>t. t = s) (mcu_checked s i) (led_read E fuel t i)"
  unfolding keeps_def by (auto intro!: seg_mono [OF seg_read] unchanged_checked)

lemma keeps_apply: "mcu_session s \<Longrightarrow> t = s \<Longrightarrow> keeps (\<lambda>t. t = s) (mcu_checked s i) (led_apply E fuel t i p)"
  unfolding keeps_def by (auto intro!: seg_mono [OF seg_apply] simp: left_by_def)

lemma quiet_identify_wait: "emits no_change (identify_wait E n)"
  by (induction n) (auto simp: calls intro!: emits_intros)

lemma keeps_flashes:
  assumes s: "mcu_session s"
  shows "t = s \<Longrightarrow> keeps (\<lambda>t. t = s) (mcu_checked s i) (binary_flashes E fuel i saved ticks t)"
proof (induction ticks arbitrary: t)
  case (Cons tick ticks)
  have quiet: "appends (mcu_checked s i) (poll_cancelled E)" "appends (mcu_checked s i) (sleep_ms 250)"
    by (auto simp: calls intro!: appends_prim unchanged_checked)
  show ?case
    unfolding binary_flashes.simps
    by (intro mcu.keeps_thenC keeps_apply [OF s] mcu.keeps_bind quiet keeps_if mcu.keeps_return Cons)
qed (auto intro: mcu.keeps_return)

lemma keeps_binary:
  assumes s: "mcu_session s"
  shows "keeps (\<lambda>t. t = s) (mcu_checked s i) (identify_binary E fuel s i seconds)"
  unfolding identify_binary_def
  by (intro mcu.keeps_thenC keeps_read [OF s] keeps_if mcu.keeps_return mcu.keeps_next [OF keeps_flashes [OF s]] keeps_apply [OF s]) auto

text \<open>A restoration that reports success has read the original state back.\<close>

lemma seg_restore:
  assumes s: "mcu_session s"
  shows "seg (left_by s i (=)) (restore_led E fuel s i original)"
proof -
  have one: "seg (left_by s i (=)) (led_apply E fuel s i p)" for p
    by (rule seg_mono [OF seg_apply [OF s]]) (auto simp: left_by_def)
  show ?thesis
    unfolding restore_led_def Let_def
    apply (rule seg_thenC [OF one])
    subgoal by (simp add: left_by_def)
    subgoal for v t es
      by (rule seg_if, simp add: left_by_def, rule seg_mono [OF one], auto simp: left_by_def intro: mcu.append last_status_prefix,
          rule seg_return, simp)
    done
qed

definition rgb_restored :: "led_session \<Rightarrow> u8 \<Rightarrow> (errno + unit) \<times> led_session \<Rightarrow> trace \<Rightarrow> bool" where
  "rgb_restored s i r es \<longleftrightarrow> snd r = s \<and> mcu_checked s i es \<and>
     (fst r = Inr () \<longrightarrow> (\<exists>pre post original current. es = pre @ post \<and> list_all no_change pre \<and> last_status s i original pre \<and>
        last_status s i current post \<and> same_led_state current original))"

lemma seg_identify_rgb:
  assumes s: "mcu_session s"
  shows "seg (rgb_restored s i) (identify_rgb E fuel s i seconds)"
proof -
  have wait: "seg (\<lambda>_ es. mcu_checked s i es) (if isl r then ret () else identify_wait E n)" for r :: "errno + led_value" and n
    by (rule seg_appends) (auto intro!: mcu.return appends_mono [OF quiet_identify_wait] unchanged_checked)
  have rest: "seg (\<lambda>r es. snd r = s \<and> mcu_checked s i es \<and> (fst r = Inr () \<longrightarrow> (\<exists>current. last_status s i current es \<and> same_led_state current original)))
      (do { (result, t) \<leftarrow> led_apply E fuel s i identify_patch;
            (if isl result then ret () else identify_wait E (unat seconds * 10));
            thenC (restore_led E fuel t i original) (\<lambda>current t.
              ret (if \<not> same_led_state current original then Inl EIO
                   else case result of Inl e \<Rightarrow> Inl e | Inr _ \<Rightarrow> Inr (), t)) })" for original
    apply (rule seg_bind [OF seg_apply [OF s]], rule seg_case_prod, rule seg_bind [OF wait])
    subgoal for r es result t u fs
      apply (subgoal_tac "t = s")
       apply (simp only:)
       apply (rule seg_thenC [OF seg_restore [OF s]])
      subgoal by (simp add: left_by_def mcu.append)
      subgoal for x c gs
        by (rule seg_return) (auto simp: left_by_def intro: mcu.append last_status_prefix split: sum.splits)
      apply (simp add: left_by_def)
      done
    done
  show ?thesis
    unfolding identify_rgb_def
    apply (rule seg_thenC [OF seg_read [OF s, unfolded case_prod_unfold]])
    subgoal by (simp add: rgb_restored_def unchanged_checked)
    subgoal for original t es
      apply (subgoal_tac "t = s")
       apply (simp only:)
       apply (rule seg_mono [OF rest])
      subgoal for r fs
        by (auto simp: rgb_restored_def intro: mcu.append unchanged_checked)
      apply simp
      done
    done
qed

text \<open>
  \<^bold>\<open>C27.\<close> A change of an MCU LED that reports success returns the value decoded from the last status frame of that LED, read
  after the last write, and that value holds every colour, brightness, mode and timing the patch asked for.
\<close>

theorem led_apply_confirmed:
  assumes "mcu_session s" "run_state (led_apply E fuel s i p) h = ((Inr v, s'), h')"
  shows "\<exists>es. h' = h @ es \<and> last_status s i v es \<and> retained p v"
  using segD [OF seg_apply [OF assms(1)] assms(2)] by (auto simp: left_by_def)

lemma seg_identify:
  assumes s: "mcu_session s"
  shows "seg (\<lambda>r es. snd r = s \<and> mcu_checked s i es \<and>
    (fst r = Inr () \<longrightarrow> (\<exists>t. session_target s i = Some t \<and> (rgb t \<longrightarrow> rgb_restored s i r es)))) (led_identify E fuel s i seconds)"
proof -
  have none: "ls_cs s = None" "ls_service s = None" "ls_sysfs s = None" "\<not> direct s" using s by (auto simp: mcu_session_def)
  have binary: "seg (\<lambda>r es. snd r = s \<and> mcu_checked s i es) (identify_binary E fuel s i seconds)"
    using keeps_binary [OF s] by (simp add: keeps_def)
  have restored: "rgb_restored s i r (es @ fs)" if "list_all no_change es" "rgb_restored s i r fs" for r es fs
  proof -
    have "es @ pre @ post = (es @ pre) @ post" for pre post by simp
    with that mcu.append [OF unchanged_checked [OF that(1)], of s i fs] show ?thesis
      unfolding rgb_restored_def by (metis last_status_prefix list_all_append)
  qed
  show ?thesis
    unfolding led_identify_def none option.case if_cancel
    apply (rule seg_if, rule seg_return, simp add: unchanged_checked)
    apply (rule seg_tryC [OF seg_authorize [OF s]])
    subgoal by (simp add: unchanged_checked)
    subgoal for x es
      apply (rule seg_case_option, rule seg_return, simp add: unchanged_checked, rule seg_if)
      subgoal by (rule seg_mono [OF binary]) (simp add: mcu.append unchanged_checked)
      subgoal
        by (rule seg_mono [OF seg_identify_rgb [OF s]])
          (auto simp: restored mcu.append unchanged_checked rgb_restored_def [of s i "(_, _)"])
      done
    done
qed

text \<open>
  \<^bold>\<open>C26.\<close> Whatever the hardware answers, changing or identifying a LED of an MCU session writes nothing but well-formed command
  frames for that LED, only in a session opened for writing (an experimental profile also needs force), and each one
  directly after the chip has answered its identity register with the value the profile expects.
\<close>

theorem led_commands_checked:
  assumes "mcu_session s"
  shows "(\<exists>es. snd (run_state (led_apply E fuel s i p) h) = h @ es \<and> mcu_checked s i es) \<and>
    (\<exists>es. snd (run_state (led_identify E fuel s i seconds) h) = h @ es \<and> mcu_checked s i es)"
  using segD [OF seg_apply [OF assms] surjective_pairing] segD [OF seg_identify [OF assms] surjective_pairing]
  by (fastforce simp: left_by_def)

text \<open>
  \<^bold>\<open>C28.\<close> An identification of an RGB LED that reports success has put the LED back: a status read before the first write and
  a status read after the last one agree in mode, brightness, colour and timing.
\<close>

theorem led_identify_restores:
  assumes "mcu_session s" "session_target s i = Some t" "rgb t"
    and "run_state (led_identify E fuel s i seconds) h = ((Inr (), s'), h')"
  shows "\<exists>pre post original current. h' = h @ pre @ post \<and> list_all no_change pre \<and> last_status s i original pre \<and>
    last_status s i current post \<and> same_led_state current original"
  using segD [OF seg_identify [OF assms(1)] assms(4)] assms(2,3) by (auto simp: rgb_restored_def)

section \<open>Direct N76 sessions\<close>

definition n76_session :: "led_session \<Rightarrow> bool" where
  "n76_session s \<longleftrightarrow> ls_cs s = None \<and> ls_service s = None \<and> ls_sysfs s = None \<and> direct s"

definition planned :: "led_session \<Rightarrow> n76_plan_struct \<Rightarrow> event \<Rightarrow> bool" where
  "planned s plan e \<longleftrightarrow> no_change e \<or> (\<exists>c \<in> set (commands plan). \<exists>r. e = Smbus_write_byte (device_fd s) (cmd_reg c) (cmd_value c) r)"

text \<open>
  Only the commands of the plan are written; a transaction that fails after its first write marks the session, a
  marked session writes nothing more, and success means that the mode registers hold what the plan expects.
\<close>

definition n76_outcome :: "led_session \<Rightarrow> u8 \<Rightarrow> led_patch \<Rightarrow> (errno + led_value) \<times> led_session \<Rightarrow> trace \<Rightarrow> bool" where
  "n76_outcome s i p r es \<longleftrightarrow>
     (list_all no_change es \<or>
      \<not> ls_n76_failed s \<and> (\<exists>plan. n76_plan (ls_profile s) i p = Inr plan \<and> list_all (planned s plan) es) \<and>
      (isl (fst r) \<longrightarrow> ls_n76_failed (snd r))) \<and>
     (\<forall>v. fst r = Inr v \<longrightarrow> unverified_write v \<and>
        (\<exists>plan. n76_plan (ls_profile s) i p = Inr plan \<and> n76_modes v = expected_modes plan))"

lemma quiet_n76_byte: "emits no_change (n76_read_byte E s reg)"
  unfolding n76_read_byte_def claim_address_def calls by (intro emits_intros; simp)

lemma n76_refused:
  assumes s: "n76_session s"
  shows "seg (\<lambda>r es. list_all no_change es \<and> (r = Inr () \<longrightarrow> \<not> ls_n76_failed s)) (authorize_write E s)"
proof -
  have none: "ls_cs s = None" "ls_service s = None" "ls_sysfs s = None" "direct s" using s by (auto simp: n76_session_def)
  have id: "emits no_change (read_chip_id E s)"
    unfolding read_chip_id_def if_P [OF none(4)] by (intro emits_intros quiet_n76_byte)
  have version: "seg (\<lambda>_ es. list_all no_change es) (bindE (n76_read_byte E s 0x5d)
      (\<lambda>version. if version \<noteq> ls_n76_version s then fail ESTALE else ok ()))"
    by (intro seg_appends emits_intros quiet_n76_byte)
  have chip: "seg (\<lambda>r es. list_all no_change es \<and> (r = Inr () \<longrightarrow> \<not> ls_n76_failed s)) (check_chip E s)"
    unfolding check_chip_def if_P [OF none(4)]
    by (rule seg_bind [OF seg_appends [OF id]]) (auto intro!: seg_case_sum seg_if seg_return seg_mono [OF version])
  show ?thesis
    unfolding authorize_write_def none option.case
    by (rule seg_if, rule seg_return, simp, rule seg_if, rule seg_return, simp,
        rule seg_bindE [OF seg_appends [OF quiet_verify]], simp, rule seg_bindE [OF seg_appends [OF quiet_owners]], simp,
        rule seg_mono [OF chip]) auto
qed

lemma n76_unchanged:
  assumes s: "n76_session s"
  shows "seg (\<lambda>r es. snd r = s \<and> list_all no_change es) (led_read E fuel s i)"
proof -
  have none: "ls_cs s = None" "ls_service s = None" "ls_sysfs s = None" "direct s" using s by (auto simp: n76_session_def)
  have id: "emits no_change (read_chip_id E s)"
    unfolding read_chip_id_def if_P [OF none(4)] by (intro emits_intros quiet_n76_byte)
  have read: "emits no_change (n76_read E s i)"
    unfolding n76_read_def Let_def by (intro emits_intros quiet_n76_byte id)
  show ?thesis
    unfolding led_read_def none option.case if_P [OF none(4)]
    by (rule seg_if, rule seg_return, simp, rule seg_tryC [OF seg_appends [OF quiet_verify]], simp,
        rule seg_tryC [OF seg_appends [OF quiet_owners]], simp, rule seg_bind [OF seg_appends [OF read]], rule seg_return, simp)
qed

lemma n76_planned:
  assumes s: "n76_session s" and cs: "set cs \<subseteq> set (commands plan)"
  shows "emits (planned s plan) (n76_commands E s plan cs)"
  using cs
proof (induction cs)
  case Nil
  then show ?case by (auto intro: emits_intros)
next
  case (Cons c cs)
  have quiet: "emits (planned s plan) m" if "emits no_change m" for m :: "'x io"
    by (rule appends_mono [OF that]) (auto simp: planned_def list_all_iff)
  have authorize: "emits no_change (authorize_write E s)"
    by (rule appends_seg, rule seg_mono [OF n76_refused [OF s]]) simp
  have "emits (planned s plan) (n76_write_byte E s (cmd_reg c) (cmd_value c))"
    unfolding n76_write_byte_def claim_address_def calls
    using Cons.prems by (intro emits_intros) (auto simp: planned_def)
  moreover have "emits (planned s plan) (sleep_ms n)" for n
    by (rule quiet) (auto simp: calls intro: emits_intros)
  ultimately show ?case
    unfolding n76_commands.simps
    by (intro emits_intros quiet [OF authorize] quiet [OF quiet_n76_byte] Cons.IH) (use Cons.prems in auto)
qed

lemma seg_n76_apply:
  assumes s: "n76_session s" and fine: "\<not> ls_n76_failed s"
  shows "seg (n76_outcome s i p) (n76_apply E fuel s i p)"
proof (cases "n76_plan (ls_profile s) i p")
  case (Inl e)
  then show ?thesis by (auto simp: n76_apply_def n76_outcome_def intro!: seg_return)
next
  case (Inr plan)
  have weaken: "list_all no_change es \<Longrightarrow> list_all (planned s plan) es" for es
    by (auto simp: planned_def list_all_iff)
  have transaction: "seg (\<lambda>r es. list_all (planned s plan) es \<and> (\<forall>v. fst r = Inr v \<longrightarrow> n76_modes v = expected_modes plan))
      (tryC (n76_commands E s plan (commands plan)) s (\<lambda>_.
              thenC (led_read E fuel s i) (\<lambda>v s.
                ret (if n76_modes v \<noteq> expected_modes plan then Inl EIO else Inr v, s))))"
    by (rule seg_tryC [OF seg_appends [OF n76_planned [OF s order_refl]]], simp, rule seg_thenC [OF n76_unchanged [OF s]], simp add: weaken,
        rule seg_return) (simp add: weaken)
  show ?thesis
    unfolding n76_apply_def Inr sum.case
    apply (rule seg_thenC [OF n76_unchanged [OF s]])
    subgoal by (simp add: n76_outcome_def)
    subgoal for v t es
      apply (subgoal_tac "t = s")
       apply (simp only:)
       apply (rule seg_bind [OF transaction], rule seg_case_prod, rule seg_return)
      subgoal for r fs x u
        using fine Inr weaken [of es] by (auto simp: n76_outcome_def split: sum.splits)
      apply simp
      done
    done
qed


section \<open>Examples\<close>

text \<open>A DX4600 whose controller always answers with the same status: blinking orange, as an identification would leave it.\<close>

definition example_mcu_env :: env where
  "example_mcu_env = null_env\<lparr>
     e_read := (\<lambda>_ path. if path = ''/sys/class/dmi/id/product_name'' then File_data (''DX4600'' @ [CHR 0x0A]) None else Open_failed ENOENT),
     e_smbus_read_word := (\<lambda>_ _ _. Inr 0xc5b2), e_smbus_read_byte := (\<lambda>_ _ _. Inr 1),
     e_smbus_read_block := (\<lambda>_ _ _. Inr (11, status_frame (pv identify_patch))), e_smbus_write_block := (\<lambda>_ _ _ _ _. None), e_cancelled := (\<lambda>_. True)\<rparr>"

definition dx4600_leds :: led_profile where
  "dx4600_leds = legacy ''dx4600-legacy'' ''DX4600'' 4 rgb4"

definition example_mcu :: led_identity where
  "example_mcu = led_identity_of (no_identity\<lparr>mi_source := ''dmi'', mi_product_name := ''DX4600''\<rparr>)"

definition example_mcu_session :: led_session where
  "example_mcu_session = (fresh_session full_access example_mcu)\<lparr>ls_fd := Some 3, ls_locked := True, ls_chip_id := 0xc5b2\<rparr>"

lemma example_mcu_profile: "led_profile_of (no_identity\<lparr>mi_source := ''dmi'', mi_product_name := ''DX4600''\<rparr>) = Some dx4600_leds"
  by code_simp

lemma example_mcu_fields:
  "li_profile example_mcu = Some dx4600_leds" "ls_profile example_mcu_session = dx4600_leds" "same_identity example_mcu example_mcu"
  "ls_identity example_mcu_session = example_mcu" "mcu_session example_mcu_session" "in_use example_mcu_session"
  "ls_access example_mcu_session = full_access" "ls_chip_id example_mcu_session = 0xc5b2" "ls_bus example_mcu_session = []"
  "ls_cs example_mcu_session = None" "ls_service example_mcu_session = None" "ls_sysfs example_mcu_session = None" "\<not> direct example_mcu_session"
  by (simp_all add: example_mcu_def led_identity_of_def example_mcu_profile ls_profile_def example_mcu_session_def fresh_session_def
      same_identity_def mcu_session_def in_use_def direct_def full_access_def)

lemma example_mcu_detect: "fst (run_state (led_detect example_mcu_env) h) = Inr example_mcu"
proof -
  have "text_of_raw False (''DX4600'' @ [CHR 0x0A]) = Inr ''DX4600''" by code_simp
  then show ?thesis
    using example_mcu_profile
    unfolding no_identity_def
    by (simp add: led_detect_def identity_read_def identity_read_at_def identity_text_read_def raw_read_def raw_of_read_def
        read_file_def example_mcu_env_def dmi_identity_def optional_field_def example_mcu_def no_identity_def)
qed

lemma example_mcu_owners: "fst (run_state (production_owners example_mcu_env example_mcu_session) h) = Inr ()"
proof -
  have "\<not> starts_with ''sysfs-'' (protocol dx4600_leds)" by code_simp
  then show ?thesis
    by (simp add: production_owners_def example_mcu_fields led_modules_def process_owners_def process_owners_except_def calls example_mcu_env_def)
qed

lemma example_mcu_verify: "wp (verify_session_identity example_mcu_env example_mcu_session) (\<lambda>r _. r = Inr ()) h"
  unfolding verify_session_identity_def
  by (auto simp: wp_simps example_mcu_fields intro!: wp_result [OF example_mcu_detect])

lemma example_mcu_answers: "e_smbus_read_word example_mcu_env = (\<lambda>_ _ _. Inr 0xc5b2)"
  by (simp add: example_mcu_env_def)

lemma example_mcu_authorize: "wp (authorize_write example_mcu_env example_mcu_session) (\<lambda>r _. r = Inr ()) h"
proof -
  have "block_protocol dx4600_leds" "expected_chip_id dx4600_leds = 0xc5b2" by code_simp+
  then show ?thesis
    unfolding authorize_write_def check_chip_def read_chip_id_def
    by (auto simp: wp_simps example_mcu_fields full_access_def smbus_read_word_def example_mcu_answers
        intro!: wp_mono [OF example_mcu_verify] wp_result [OF example_mcu_owners])
qed

abbreviation (input) example_status :: led_value where "example_status \<equiv> pv identify_patch"

lemma example_target: "session_target example_mcu_session 0 = Some (rgb_led ''power'' 0 0 ''power'')"
  unfolding session_target_def example_mcu_fields option.case by code_simp

lemma example_mcu_read:
  "wp (led_read example_mcu_env 0 example_mcu_session 0) (\<lambda>r _. r = (Inr example_status, example_mcu_session)) h"
proof -
  have frame: "take 11 (status_frame example_status @ replicate 11 0) = status_frame example_status"
      "led_decode (status_frame example_status) = Inr example_status"
    by code_simp+
  have attempts: "wp (read_attempts example_mcu_env example_mcu_session 0 [8, 3, 3] EBADMSG) (\<lambda>r _. r = Inr example_status) h" for h
    by (simp add: read_led_status_def wp_simps calls example_mcu_env_def frame del: take_append)
  show ?thesis
    unfolding led_read_def tryC_def
    by (auto simp: wp_simps example_mcu_fields example_target simp del: read_attempts.simps
        intro!: wp_mono [OF example_mcu_verify] wp_result [OF example_mcu_owners] wp_mono [OF attempts])
qed

lemma example_mcu_change:
  assumes "command_frame dx4600_leds 0 command parameters = Inr frame" "retained expected example_status"
  shows "wp (led_change example_mcu_env 0 example_mcu_session 0 (command, parameters, expected))
    (\<lambda>r _. r = (Inr example_status, example_mcu_session)) h"
proof -
  have io: "wp (write_command example_mcu_env example_mcu_session 0 frame) (\<lambda>r _. r = Inr ()) h"
      "wp (read_ack example_mcu_env example_mcu_session) (\<lambda>r _. r = Inr ()) h" for h
    by (auto simp: write_command_def read_ack_def status_of_def wp_simps calls example_mcu_env_def)
  show ?thesis
    unfolding led_change_def tryC_def thenC_def
    by (auto simp: wp_simps example_mcu_fields assms sleep_ms_def
        intro!: wp_mono [OF example_mcu_authorize] wp_mono [OF io(1)] wp_mono [OF io(2)] wp_mono [OF example_mcu_read])
qed

lemma example_mcu_apply:
  "wp (led_apply example_mcu_env 0 example_mcu_session 0 identify_patch) (\<lambda>r _. r = (Inr example_status, example_mcu_session)) h"
proof -
  have valid: "led_validate_target_patch (Some (rgb_led ''power'' 0 0 ''power'')) identify_patch = None" "retained identify_patch example_status"
    by code_simp+
  have steps: "list_all (\<lambda>(command, parameters, expected). retained expected example_status \<and>
      (case command_frame dx4600_leds 0 command parameters of Inl _ \<Rightarrow> False | Inr _ \<Rightarrow> True)) (change_steps identify_patch)"
    by code_simp
  have "wp (led_changes example_mcu_env 0 0 steps v example_mcu_session) (\<lambda>r _. \<exists>w. r = (Inr w, example_mcu_session) \<and> w \<in> {v, example_status}) h"
    if "list_all (\<lambda>(command, parameters, expected). retained expected example_status \<and>
      (case command_frame dx4600_leds 0 command parameters of Inl _ \<Rightarrow> False | Inr _ \<Rightarrow> True)) steps" for steps v h
    using that
  proof (induction steps arbitrary: v h)
    case Nil
    then show ?case by (simp add: wp_simps)
  next
    case (Cons step steps)
    then show ?case
      unfolding led_changes.simps thenC_def
      by (cases step) (auto simp: wp_simps split: sum.splits intro!: wp_mono [OF example_mcu_change] wp_mono [OF Cons.IH])
  qed
  note changes = this [OF steps, of example_status]
  show ?thesis
    unfolding led_apply_def i2c_apply_def tryC_def thenC_def
    by (auto simp: wp_simps example_mcu_fields example_target valid
        intro!: wp_mono [OF example_mcu_authorize] wp_mono [OF example_mcu_read] wp_mono [OF changes])
qed

lemma example_mcu_identify:
  "wp (led_identify example_mcu_env 0 example_mcu_session 0 1) (\<lambda>r _. r = (Inr (), example_mcu_session)) h"
proof -
  have facts: "rgb (rgb_led ''power'' 0 0 ''power'')" "\<not> steady_led example_status" "same_led_state example_status example_status"
      "\<lparr>patch_fields = RGB_FIELDS, pv = example_status\<rparr> = identify_patch"
    by code_simp+
  have wait: "wp (identify_wait example_mcu_env n) (\<lambda>_ _. True) h" for n h by simp
  show ?thesis
    unfolding led_identify_def identify_rgb_def restore_led_def tryC_def thenC_def Let_def
    by (auto simp: wp_simps example_mcu_fields example_target facts
        intro!: wp_mono [OF example_mcu_authorize] wp_mono [OF example_mcu_read] wp_mono [OF example_mcu_apply] wp_mono [OF wait])
qed

theorem led_apply_confirmed_witness:
  "\<exists>h'. run_state (led_apply example_mcu_env 0 example_mcu_session 0 identify_patch) [] = ((Inr example_status, example_mcu_session), h') \<and>
     (\<exists>es. h' = [] @ es \<and> last_status example_mcu_session 0 example_status es \<and> retained identify_patch example_status)"
proof -
  obtain h' where run: "run_state (led_apply example_mcu_env 0 example_mcu_session 0 identify_patch) [] = ((Inr example_status, example_mcu_session), h')"
    using example_mcu_apply [of "[]"] by (auto simp: wp_def split: prod.splits)
  from led_apply_confirmed [OF example_mcu_fields(5) run] run show ?thesis by blast
qed

theorem led_commands_checked_witness:
  "(\<exists>es. snd (run_state (led_apply example_mcu_env 0 example_mcu_session 0 identify_patch) []) = [] @ es \<and> mcu_checked example_mcu_session 0 es) \<and>
   (\<exists>es. snd (run_state (led_identify example_mcu_env 0 example_mcu_session 0 1) []) = [] @ es \<and> mcu_checked example_mcu_session 0 es)"
  by (rule led_commands_checked [OF example_mcu_fields(5)])

theorem led_identify_restores_witness:
  "\<exists>h' pre post original current. run_state (led_identify example_mcu_env 0 example_mcu_session 0 1) [] = ((Inr (), example_mcu_session), h') \<and>
     h' = [] @ pre @ post \<and> list_all no_change pre \<and> last_status example_mcu_session 0 original pre \<and>
     last_status example_mcu_session 0 current post \<and> same_led_state current original"
proof -
  obtain h' where run: "run_state (led_identify example_mcu_env 0 example_mcu_session 0 1) [] = ((Inr (), example_mcu_session), h')"
    using example_mcu_identify [of "[]"] by (auto simp: wp_def split: prod.splits)
  have "rgb (rgb_led ''power'' 0 0 ''power'')" by code_simp
  from led_identify_restores [OF example_mcu_fields(5) example_target this run] run show ?thesis by blast
qed

definition example_n76 :: led_session where
  "example_n76 = (fresh_session (full_access\<lparr>n76_direct := True, n76_bus := 1, n76_address := 0x31\<rparr>)
     (example_mcu\<lparr>li_profile := Some dh2600_profile\<rparr>))\<lparr>ls_fd := Some 3, ls_locked := True, ls_chip_id := 0xa5b5\<rparr>"


end
