(* ===== verification/Spec2Isabelle.thy ===== *)
theory Spec2Isabelle
  imports Main_CLI Led_N76 Led_Cs201x Led_Sysfs Led_Gpio Led_Service Led_Session
begin

text \<open>
  Verification of \<^verbatim>\<open>ugreenctl\<close>, the hardware utility for UGREEN NAS machines (\<^verbatim>\<open>src/\<close>, written in C):
  fan duty, AC-power recovery, wake alarms, Wake-on-LAN, LEDs and the fan daemon.

  \<^bold>\<open>The program.\<close>  \<^verbatim>\<open>core/main.c\<close> parses the command line, loads model plugins (\<^verbatim>\<open>core/loader.c\<close>,
  \<^verbatim>\<open>models/*.c\<close>), chooses the one that lists the DMI product and calls its entries.  A fan entry
  tries the hwmon backend (\<^verbatim>\<open>fan/it8613_hwmon.c\<close>) and falls back to direct register access
  (\<^verbatim>\<open>fan/it8613_direct.c\<close>), which like the power policy (\<^verbatim>\<open>power/it8613_power.c\<close>) goes through the Super
  I/O chip (\<^verbatim>\<open>superio/it86x.c\<close>).  Wake commands (\<^verbatim>\<open>core/wake_cli.c\<close>) do not use plugins: they match
  the machine identity (\<^verbatim>\<open>core/identity.c\<close>) against their own tables and run the guarded transactions
  of \<^verbatim>\<open>power/rtc_wake.c\<close> and \<^verbatim>\<open>network/*.c\<close>.  The daemon (\<^verbatim>\<open>core/fan_daemon.c\<close>) reads temperatures,
  evaluates the thermal curve (\<^verbatim>\<open>fan/thermal_curve.c\<close>) and runs \<^verbatim>\<open>ugreenctl fan set\<close> as a child process.
  A LED session (\<^verbatim>\<open>led/led.c\<close>) finds the profile of the machine (\<^verbatim>\<open>models/led_profiles.c\<close>) and drives its LEDs
  through one of five ways: an MCU on I2C with the frames of \<^verbatim>\<open>led/led_protocol.c\<close>, an N76 controller with the plans of
  \<^verbatim>\<open>led/led_n76_protocol.c\<close>, the CS2011 chip (\<^verbatim>\<open>led/led_cs201x.c\<close>), a driver of the kernel LED class
  (\<^verbatim>\<open>led/led_sysfs.c\<close>), or the holder process (\<^verbatim>\<open>led/led_service.c\<close>), which owns the CS2011 chip or the GPIO lines
  (\<^verbatim>\<open>led/led_gpio.c\<close>) and serves one client at a time over a local socket.

  \<^bold>\<open>How it is modelled.\<close>  \<open>Ugreen_Prelude\<close> has the integer widths, \<^verbatim>\<open>errno\<close>, results as sums
  (\<open>Inl e\<close> is \<^verbatim>\<open>return -e\<close>), and three proof calculi for the state monad: weakest preconditions (\<open>wp\<close>),
  what a run may append to the history (\<open>appends\<close>, \<open>emits\<close>, over the locale \<open>segments\<close>), and results together
  with the events that justify them (\<open>seg\<close>).  \<open>C_Library\<close> is the part of the C library the sources use.
  \<open>Platform_IO\<close> is the boundary: each system call, port access or device command is an \<open>event\<close> with its
  answer, and the kernel, the chips and other processes are the parameter \<open>env\<close>, which may answer
  anything depending on the whole history.  A theorem without further hypotheses about \<open>env\<close> holds
  whatever the machine does.

  \<^item> \<open>Super_IO\<close> (\<^verbatim>\<open>superio/\<close>): open under the lock, indexed registers, close; the locale
    \<open>superio_transport\<close> is interpreted for both builds.  \<open>AC_Recovery\<close> (\<^verbatim>\<open>power/it8613_power.c\<close>).
  \<^item> \<open>Fan_Direct\<close>, \<open>Fan_Hwmon\<close>, \<open>Fan_Models\<close> (\<^verbatim>\<open>fan/it8613_*.c\<close>): the two backends and the per-model
    routes; which registers and files a request writes, that a duty below 40 is never written, that success
    means a confirmed read-back, and round trips on a working chip.
  \<^item> \<open>Model_Plugins\<close>, \<open>Plugin_Loader\<close>, \<open>Main_CLI\<close> (\<^verbatim>\<open>models/*.c\<close>, \<^verbatim>\<open>core/loader.c\<close>, \<^verbatim>\<open>core/main.c\<close>): which requests
    need \<^verbatim>\<open>--force\<close> and \<^verbatim>\<open>--apply\<close>, exact choice by DMI product, the duty floor for every command.
  \<^item> \<open>Machine_Identity\<close>, \<open>Wake_Profiles\<close>, \<open>Rtc_Wake\<close>, \<open>Wake_On_Lan\<close>, \<open>Wol_Interface\<close>, \<open>Wake_CLI\<close>
    (\<^verbatim>\<open>core/identity.c\<close>, \<^verbatim>\<open>core/wake_cli.c\<close>, \<^verbatim>\<open>power/rtc_wake.c\<close>, \<^verbatim>\<open>network/\<close>, \<^verbatim>\<open>models/wake_profiles.c\<close>): writes only as the
    guarded transaction of the matching profile, under the lock, with read-back; the alarm protocol is the
    inductive relation \<open>alarm_transaction\<close> which the calls refine.
  \<^item> \<open>Thermal_Curve\<close>, \<open>Thermal_Config\<close>, \<open>Thermal_Sensors\<close>, \<open>Fan_Daemon\<close> (\<^verbatim>\<open>fan/thermal_curve.c\<close>,
    \<^verbatim>\<open>core/fan_daemon.c\<close>): range and monotonicity of the plan, exactness of the 32-bit interpolation, the
    configuration file, sensors that never wake a disk, and the daemon's loop as the step relation
    \<open>daemon_step\<close> with its invariant.
  \<^item> \<open>Led_Protocol\<close>, \<open>Led_Profiles\<close>, \<open>Led_N76\<close> (\<^verbatim>\<open>led/led_protocol.c\<close>, \<^verbatim>\<open>models/led_profiles.c\<close>,
    \<^verbatim>\<open>led/led_n76_protocol.c\<close>): frames, validation, tables, and the register planner.
  \<^item> \<open>Led_Identity\<close>, \<open>Led_Cs201x\<close>, \<open>Led_Sysfs\<close>, \<open>Led_Gpio\<close> (\<^verbatim>\<open>led/led.c\<close> up to the process search,
    \<^verbatim>\<open>led/led_cs201x.c\<close>, \<^verbatim>\<open>led/led_sysfs.c\<close>, \<^verbatim>\<open>led/led_gpio.c\<close>): the search for other owners and the three local back
    ends; which registers, attributes and lines each operation may write and under which checks, that success is
    confirmed by a read-back, that identification and the holder give the original state back, and that every
    descriptor is accounted for.
  \<^item> \<open>Led_Wire\<close>, \<open>Led_Service\<close> (\<^verbatim>\<open>led/led_service.c\<close>): frames, transfer under a deadline, the client, the handler of each
    request, the connection and the accept loop.  A transfer moves every byte once, ends within its time limit, the
    client accepts only whole answers, and no identification outlives its connection; the last is proved in the locale
    \<open>identify_backend\<close>, which is interpreted for the GPIO and the CS2011 operations of the holder.
  \<^item> \<open>Led_Session\<close> (\<^verbatim>\<open>led/led.c\<close>): the transport, opening, reading, changing, identifying and closing a session.  An MCU gets
    only well-formed commands after its identity was read, success means the status shows the requested fields, an
    identification restores the LED, and a failed N76 transaction ends all writing of its session.

  \<^bold>\<open>Bounds and loops.\<close>  Loops over arrays and directory listings are recursion over lists; number and
  line parsing terminates by the length of the text.  The endless loop of the fan daemon is a relation.  The loops that wait for
  the other side of a socket take a bound and return \<open>None\<close> when it is used up; \<open>transfer_terminates\<close> shows which bound is
  enough for a transfer, \<open>service_identify_ends\<close> for a client identification.  A session reports a used-up bound as
  \<open>E_other 0\<close>, which is no error number.  Buffer sizes, truncation and 32/64-bit wrap-around are written out where the
  code has them.

  \<^bold>\<open>Not modelled.\<close>  The text of error messages and \<^verbatim>\<open>stderr\<close>; memory allocation failure; the disk mapping and the LED
  and disk commands (\<^verbatim>\<open>disk/\<close>, \<^verbatim>\<open>core/hardware_cli.c\<close>), which \<open>ugreenctl_main\<close> takes as the parameter \<open>hardware_cli\<close>; the
  mains of the LED daemons, which parse three flags and start the service; the stub \<^verbatim>\<open>ec/ec.c\<close>; scripts and tests.
\<close>

section \<open>The daemon and the command line\<close>

lemma daemon_argv_options:
  "parse_options default_options (tl (ugreenctl_argv program directory force target pwm)) =
     Options \<lparr>model_directory = directory, model_id = None, co_force = force, co_apply = True\<rparr>
       [''fan'', ''set'', target, dec (unat pwm)]"
  by (simp add: ugreenctl_argv_def starts_with_def default_options_def)

lemma daemon_argv_not_wake:
  "wake_cli E (tl (ugreenctl_argv program directory force target pwm)) = ret Not_handled"
  by (simp add: wake_cli_def ugreenctl_argv_def starts_with_def)

lemma parse_pwm_dec: "pwm \<le> 255 \<Longrightarrow> parse_pwm (dec (unat (pwm :: u32))) = Some (ucast pwm)"
proof -
  assume "pwm \<le> 255"
  then have "uint pwm \<le> 255" by (simp add: word_le_def)
  moreover have "strtoll10 (dec (unat pwm)) = (int (unat pwm), [], False)"
    using u32_less [of pwm] by (intro strtoll10_dec) (simp del: u32_less)
  ultimately show ?thesis by (simp add: parse_pwm_def)
qed

text \<open>
  \<^bold>\<open>C2.\<close>  The two programs agree on their interface: the command the daemon runs to set a duty of at
  most 255 is not taken for a wake command, its options select the daemon's plugin directory with
  exactly the daemon's force flag, and once a plugin is chosen its fan entry is called, once, with the
  daemon's target and duty.
\<close>

theorem daemon_commands_understood:
  assumes "hardware_cli (tl (ugreenctl_argv program directory force target pwm)) = ret Not_handled"
    and "pwm \<le> 255" "pl_set_fan_pwm p = Some set_fan"
  defines "opts \<equiv> \<lparr>model_directory = directory, model_id = None, co_force = force, co_apply = True\<rparr>"
    and "args \<equiv> [''fan'', ''set'', target, dec (unat pwm)]"
  shows "ugreenctl_main E D hardware_cli (tl (ugreenctl_argv program directory force target pwm)) = main_command E D opts args \<and>
    plugin_command E p opts args = do {
      r \<leftarrow> set_fan force target (ucast pwm);
      ret (report (\<lambda>_. [target @ '' fan PWM set to '' @ dec (unat pwm)]) r) }"
proof
  show "ugreenctl_main E D hardware_cli (tl (ugreenctl_argv program directory force target pwm)) = main_command E D opts args"
    using assms(1) by (simp add: ugreenctl_main_def daemon_argv_not_wake daemon_argv_options opts_def args_def)
  have "unat (ucast pwm :: u8) = unat pwm"
    using assms(2) by (simp add: unsigned_ucast_eq take_bit_eq_mod word_le_unat)
  then show "plugin_command E p opts args = do {
      r \<leftarrow> set_fan force target (ucast pwm);
      ret (report (\<lambda>_. [target @ '' fan PWM set to '' @ dec (unat pwm)]) r) }"
    using assms(2,3) by (simp add: plugin_command_def fan_set_command_def parse_pwm_dec opts_def args_def)
qed

theorem daemon_commands_understood_witness:
  "ugreenctl_main example_env example_library (\<lambda>_. ret Not_handled) [''--plugin-dir'', ''/plugins'', ''--apply'', ''fan'', ''set'', ''cpu'', dec 80] =
     main_command example_env example_library
       \<lparr>model_directory = ''/plugins'', model_id = None, co_force = False, co_apply = True\<rparr> [''fan'', ''set'', ''cpu'', dec 80]"
proof -
  let ?p = "plugin_v5 (plugin_dxp6800 example_env (it86x example_env))"
  have "pl_set_fan_pwm ?p = Some (mp_set_fan_pwm (plugin_dxp6800 example_env (it86x example_env)))" by (simp add: plugin_v5_def)
  from daemon_commands_understood [where hardware_cli = "\<lambda>_. ret Not_handled" and program = "''ugreenctl''" and directory = "''/plugins''"
      and force = False and target = "''cpu''" and pwm = 80 and E = example_env and D = example_library, OF refl _ this]
  show ?thesis by (simp add: ugreenctl_argv_def)
qed

end
